(* ===== verification/Prelude.thy ===== *)
theory Prelude
  imports Main "HOL-Library.State_Monad" "HOL-Library.Multiset" "HOL-Library.Sublist"
begin

text \<open>
  Shared ground of the development: the control values that stand for Go's early returns,
  the loop that can leave early, Hoare triples over the state monad with one rule per
  combinator (collected in \<open>triple_rules\<close>), and the slice operations of Go's
  package \<open>slices\<close> with the panics they raise out of range.
\<close>

named_theorems triple_rules \<open>Hoare rules of the state monad, one per combinator\<close>

section \<open>Control flow\<close>

text \<open>
  A block of a Go function either falls through to the code after it, carrying the
  variables that code reads (\<open>Next\<close>), or leaves the function (\<open>Stop\<close>).
\<close>

datatype ('r, 'a) ctl = Next 'a | Stop 'r

definition and_then ::
  "('s, ('r, 'a) ctl) state \<Rightarrow> ('a \<Rightarrow> ('s, ('r, 'b) ctl) state) \<Rightarrow> ('s, ('r, 'b) ctl) state" where
  "and_then m f = do {
     r \<leftarrow> m;
     case r of Next a \<Rightarrow> f a | Stop e \<Rightarrow> State_Monad.return (Stop e)
   }"

text \<open>A \<open>for ... range\<close> loop whose body threads the local variables and may return.\<close>

fun for_range ::
  "('x \<Rightarrow> 'a \<Rightarrow> ('s, ('r, 'a) ctl) state) \<Rightarrow> 'x list \<Rightarrow> 'a \<Rightarrow> ('s, ('r, 'a) ctl) state" where
  "for_range f [] a = State_Monad.return (Next a)"
| "for_range f (x # xs) a = and_then (f x a) (for_range f xs)"

lemma run_and_then:
  "run_state (and_then m f) s =
    (case run_state m s of
       (Next a, s') \<Rightarrow> run_state (f a) s'
     | (Stop e, s') \<Rightarrow> (Stop e, s'))"
  by (auto simp: and_then_def split: prod.splits ctl.splits)

section \<open>Hoare triples\<close>

definition triple :: "('s \<Rightarrow> bool) \<Rightarrow> ('s, 'a) state \<Rightarrow> ('a \<Rightarrow> 's \<Rightarrow> bool) \<Rightarrow> bool" where
  "triple P m Q \<longleftrightarrow> (\<forall>s. P s \<longrightarrow> (case run_state m s of (a, s') \<Rightarrow> Q a s'))"

lemma tripleI:
  assumes "\<And>s a s'. P s \<Longrightarrow> run_state m s = (a, s') \<Longrightarrow> Q a s'"
  shows "triple P m Q"
  using assms by (auto simp: triple_def)

lemma tripleD:
  assumes "triple P m Q" and "run_state m s = (a, s')" and "P s"
  shows "Q a s'"
  using assms by (auto simp: triple_def)

lemma triple_fst_snd:
  assumes "triple P m Q" and "P s"
  shows "Q (fst (run_state m s)) (snd (run_state m s))"
  using assms by (auto simp: triple_def split: prod.splits)

lemma triple_pre:
  assumes "triple P' m Q" and "\<And>s. P s \<Longrightarrow> P' s"
  shows "triple P m Q"
  using assms by (auto simp: triple_def)

lemma triple_post:
  assumes "triple P m Q'" and "\<And>a s. Q' a s \<Longrightarrow> Q a s"
  shows "triple P m Q"
  using assms by (auto simp: triple_def split: prod.splits)

lemma triple_return [triple_rules]:
  assumes "\<And>s. P s \<Longrightarrow> Q a s"
  shows "triple P (State_Monad.return a) Q"
  using assms by (auto simp: triple_def)

lemma triple_bind [triple_rules]:
  assumes "triple P m R" and "\<And>a. triple (R a) (f a) Q"
  shows "triple P (State_Monad.bind m f) Q"
  using assms by (fastforce simp: triple_def split: prod.splits)

lemma triple_get:
  assumes "\<And>s. P s \<Longrightarrow> Q s s"
  shows "triple P State_Monad.get Q"
  using assms by (auto simp: triple_def)

lemma triple_get_eq [triple_rules]:
  "triple P State_Monad.get (\<lambda>v s. P s \<and> v = s)"
  by (auto simp: triple_def)

lemma triple_set [triple_rules]:
  assumes "\<And>s. P s \<Longrightarrow> Q () t"
  shows "triple P (State_Monad.set t) Q"
  using assms by (auto simp: triple_def)

lemma triple_if [triple_rules]:
  assumes "b \<Longrightarrow> triple P m Q" and "\<not> b \<Longrightarrow> triple P n Q"
  shows "triple P (if b then m else n) Q"
  using assms by simp

lemma triple_case_option [triple_rules]:
  assumes "v = None \<Longrightarrow> triple P m Q" and "\<And>x. v = Some x \<Longrightarrow> triple P (f x) Q"
  shows "triple P (case v of None \<Rightarrow> m | Some x \<Rightarrow> f x) Q"
  using assms by (cases v) auto

lemma triple_case_sum [triple_rules]:
  assumes "\<And>x. v = Inl x \<Longrightarrow> triple P (f x) Q" and "\<And>y. v = Inr y \<Longrightarrow> triple P (g y) Q"
  shows "triple P (case v of Inl x \<Rightarrow> f x | Inr y \<Rightarrow> g y) Q"
  using assms by (cases v) auto

lemma triple_case_prod [triple_rules]:
  assumes "\<And>x y. v = (x, y) \<Longrightarrow> triple P (f x y) Q"
  shows "triple P (case v of (x, y) \<Rightarrow> f x y) Q"
  using assms by (cases v) auto

lemma triple_let [triple_rules]:
  assumes "\<And>x. x = v \<Longrightarrow> triple P (f x) Q"
  shows "triple P (let x = v in f x) Q"
  using assms by simp

lemma triple_and_then [triple_rules]:
  assumes "triple P m (\<lambda>r s. case r of Next a \<Rightarrow> R a s | Stop e \<Rightarrow> Q (Stop e) s)"
    and "\<And>a. triple (R a) (f a) Q"
  shows "triple P (and_then m f) Q"
proof (rule tripleI)
  fix s r s'
  assume P: "P s" and run: "run_state (and_then m f) s = (r, s')"
  obtain v t where m: "run_state m s = (v, t)" by fastforce
  from tripleD [OF assms(1) m P] m run assms(2) show "Q r s'"
    by (cases v) (auto simp: run_and_then dest: tripleD)
qed

text \<open>An invariant of the loop body is an invariant of the loop.\<close>

lemma triple_for_range:
  assumes "\<And>x a. x \<in> set xs \<Longrightarrow>
      triple (I a) (f x a) (\<lambda>r s. case r of Next a' \<Rightarrow> I a' s | Stop e \<Rightarrow> Q (Stop e) s)"
    and "\<And>a s. I a s \<Longrightarrow> Q (Next a) s"
  shows "triple (I a) (for_range f xs a) Q"
  using assms(1)
proof (induction xs arbitrary: a)
  case Nil
  then show ?case by (auto intro: triple_return assms(2))
next
  case (Cons x xs)
  have "triple (I a) (f x a) (\<lambda>r s. case r of Next a' \<Rightarrow> I a' s | Stop e \<Rightarrow> Q (Stop e) s)"
    by (rule Cons.prems) simp
  moreover have "triple (I b) (for_range f xs b) Q" for b
    by (rule Cons.IH) (rule Cons.prems, simp)
  ultimately show ?case by (auto intro: triple_and_then)
qed

text \<open>A state predicate that a command keeps, whatever it returns.\<close>

definition keeps :: "('s \<Rightarrow> bool) \<Rightarrow> ('s, 'a) state \<Rightarrow> bool" where
  "keeps I m \<longleftrightarrow> triple I m (\<lambda>_. I)"

named_theorems keeps_rules \<open>what keeps an invariant, one rule per combinator and operation\<close>

lemma keepsI:
  assumes "\<And>s a s'. I s \<Longrightarrow> run_state m s = (a, s') \<Longrightarrow> I s'"
  shows "keeps I m"
  using assms by (auto simp: keeps_def triple_def)

lemma keepsD: "keeps I m \<Longrightarrow> I s \<Longrightarrow> I (snd (run_state m s))"
  by (cases "run_state m s") (auto simp: keeps_def triple_def)

lemma keeps_run: "keeps I m \<Longrightarrow> run_state m s = (a, s') \<Longrightarrow> I s \<Longrightarrow> I s'"
  by (auto simp: keeps_def triple_def)

lemma keeps_return [keeps_rules]: "keeps I (State_Monad.return a)"
  by (auto simp: keeps_def triple_def)

lemma keeps_get [keeps_rules]: "keeps I State_Monad.get"
  by (auto simp: keeps_def triple_def)

lemma keeps_bind [keeps_rules]:
  "keeps I m \<Longrightarrow> (\<And>a. keeps I (f a)) \<Longrightarrow> keeps I (State_Monad.bind m f)"
  by (auto simp: keeps_def intro: triple_bind)

lemma keeps_if [keeps_rules]:
  "(b \<Longrightarrow> keeps I m) \<Longrightarrow> (\<not> b \<Longrightarrow> keeps I n) \<Longrightarrow> keeps I (if b then m else n)"
  by simp

lemma keeps_case_option [keeps_rules]:
  "(v = None \<Longrightarrow> keeps I m) \<Longrightarrow> (\<And>x. v = Some x \<Longrightarrow> keeps I (f x)) \<Longrightarrow>
   keeps I (case v of None \<Rightarrow> m | Some x \<Rightarrow> f x)"
  by (cases v) auto

lemma keeps_case_sum [keeps_rules]:
  "(\<And>x. v = Inl x \<Longrightarrow> keeps I (f x)) \<Longrightarrow> (\<And>y. v = Inr y \<Longrightarrow> keeps I (g y)) \<Longrightarrow>
   keeps I (case v of Inl x \<Rightarrow> f x | Inr y \<Rightarrow> g y)"
  by (cases v) auto

lemma keeps_case_prod [keeps_rules]:
  "(\<And>x y. v = (x, y) \<Longrightarrow> keeps I (f x y)) \<Longrightarrow> keeps I (case v of (x, y) \<Rightarrow> f x y)"
  by (cases v) auto

lemma keeps_case_ctl [keeps_rules]:
  "(\<And>x. v = Next x \<Longrightarrow> keeps I (f x)) \<Longrightarrow> (\<And>y. v = Stop y \<Longrightarrow> keeps I (g y)) \<Longrightarrow>
   keeps I (case v of Next x \<Rightarrow> f x | Stop y \<Rightarrow> g y)"
  by (cases v) auto

lemma keeps_let [keeps_rules]: "(\<And>x. x = v \<Longrightarrow> keeps I (f x)) \<Longrightarrow> keeps I (let x = v in f x)"
  by simp

lemma keeps_and_then [keeps_rules]:
  "keeps I m \<Longrightarrow> (\<And>a. keeps I (f a)) \<Longrightarrow> keeps I (and_then m f)"
  unfolding and_then_def by (intro keeps_rules)

text \<open>The same with what is known of the value the first block passes on.\<close>

lemma keeps_and_then_run:
  assumes "keeps I m" and "\<And>a s s'. I s \<Longrightarrow> run_state m s = (Next a, s') \<Longrightarrow> keeps I (f a)"
  shows "keeps I (and_then m f)"
proof (rule keepsI)
  fix s b s'
  assume I: "I s" and run: "run_state (and_then m f) s = (b, s')"
  obtain r t where m: "run_state m s = (r, t)" by fastforce
  note t = keeps_run [OF assms(1) m I]
  from run m t assms(2) [OF I] show "I s'"
    by (cases r) (auto simp: run_and_then dest: keeps_run)
qed

lemma keeps_bind_run:
  assumes "keeps I m"
    and "\<And>a s s'. I s \<Longrightarrow> run_state m s = (a, s') \<Longrightarrow> I s' \<Longrightarrow> I (snd (run_state (f a) s'))"
  shows "keeps I (State_Monad.bind m f)"
proof (rule keepsI)
  fix s b s'
  assume I: "I s" and run: "run_state (State_Monad.bind m f) s = (b, s')"
  obtain a t where m: "run_state m s = (a, t)" by fastforce
  from assms(2) [OF I m keeps_run [OF assms(1) m I]] run m show "I s'" by simp
qed

lemma keeps_for_range [keeps_rules]:
  "(\<And>x a. x \<in> set xs \<Longrightarrow> keeps I (f x a)) \<Longrightarrow> keeps I (for_range f xs a)"
  by (induction xs arbitrary: a) (auto intro!: keeps_rules)

text \<open>Every way a block can leave the function gives a result in \<open>Q\<close>.\<close>

definition stops_with :: "('r \<Rightarrow> bool) \<Rightarrow> ('s, ('r, 'a) ctl) state \<Rightarrow> bool" where
  "stops_with Q m \<longleftrightarrow> (\<forall>s e s'. run_state m s = (Stop e, s') \<longrightarrow> Q e)"

named_theorems stops_rules \<open>how a block can stop, one rule per combinator\<close>

lemma stops_withD: "stops_with Q m \<Longrightarrow> run_state m s = (Stop e, s') \<Longrightarrow> Q e"
  by (auto simp: stops_with_def)

lemma stops_return [stops_rules]:
  "stops_with Q (State_Monad.return (Next a))"
  by (simp add: stops_with_def)

lemma stops_bind [stops_rules]:
  "(\<And>a. stops_with Q (f a)) \<Longrightarrow> stops_with Q (State_Monad.bind m f)"
  by (auto simp: stops_with_def split: prod.splits)

lemma stops_and_then [stops_rules]:
  "stops_with Q m \<Longrightarrow> (\<And>a. stops_with Q (f a)) \<Longrightarrow> stops_with Q (and_then m f)"
  by (fastforce simp: stops_with_def run_and_then split: prod.splits ctl.splits)

lemma stops_for_range [stops_rules]:
  "(\<And>x a. x \<in> set xs \<Longrightarrow> stops_with Q (f x a)) \<Longrightarrow> stops_with Q (for_range f xs a)"
  by (induction xs arbitrary: a) (auto intro!: stops_rules)

lemma stops_if [stops_rules]:
  "(b \<Longrightarrow> stops_with Q m) \<Longrightarrow> (\<not> b \<Longrightarrow> stops_with Q n) \<Longrightarrow> stops_with Q (if b then m else n)"
  by simp

lemma stops_case_option [stops_rules]:
  "(v = None \<Longrightarrow> stops_with Q m) \<Longrightarrow> (\<And>x. v = Some x \<Longrightarrow> stops_with Q (f x)) \<Longrightarrow>
   stops_with Q (case v of None \<Rightarrow> m | Some x \<Rightarrow> f x)"
  by (cases v) auto

lemma stops_case_sum [stops_rules]:
  "(\<And>x. v = Inl x \<Longrightarrow> stops_with Q (f x)) \<Longrightarrow> (\<And>y. v = Inr y \<Longrightarrow> stops_with Q (g y)) \<Longrightarrow>
   stops_with Q (case v of Inl x \<Rightarrow> f x | Inr y \<Rightarrow> g y)"
  by (cases v) auto

lemma stops_case_prod [stops_rules]:
  "(\<And>x y. v = (x, y) \<Longrightarrow> stops_with Q (f x y)) \<Longrightarrow> stops_with Q (case v of (x, y) \<Rightarrow> f x y)"
  by (cases v) auto

lemma stops_let [stops_rules]:
  "(\<And>x. x = v \<Longrightarrow> stops_with Q (f x)) \<Longrightarrow> stops_with Q (let x = v in f x)"
  by simp

section \<open>Slices\<close>

text \<open>
  \<open>slices.Contains\<close> is membership, \<open>slices.Index\<close> returns \<open>-1\<close> when the value is
  absent, and the deletion idiom \<open>append(s[:i], s[i+1:]...)\<close> panics on an index out of
  range, \<open>-1\<close> included.
\<close>

abbreviation (input) slices_Contains :: "'a list \<Rightarrow> 'a \<Rightarrow> bool" where
  "slices_Contains xs v \<equiv> v \<in> set xs"

fun slices_Index :: "'a list \<Rightarrow> 'a \<Rightarrow> int" where
  "slices_Index [] v = -1"
| "slices_Index (x # xs) v =
     (if x = v then 0
      else let i = slices_Index xs v in if i < 0 then -1 else i + 1)"

definition slice_delete :: "'a list \<Rightarrow> int \<Rightarrow> 'a list option" where
  "slice_delete xs i =
     (if i < 0 \<or> int (length xs) \<le> i then None
      else Some (take (nat i) xs @ drop (nat i + 1) xs))"

lemma slices_Index_bounds: "-1 \<le> slices_Index xs v \<and> slices_Index xs v < int (length xs)"
  by (induction xs) (auto simp: Let_def)

lemma slices_Index_neg [simp]: "slices_Index xs v < 0 \<longleftrightarrow> v \<notin> set xs"
proof (induction xs)
  case (Cons x xs)
  then show ?case by (auto simp: Let_def)
qed simp

lemma slice_delete_Cons:
  assumes "0 \<le> i"
  shows "slice_delete (x # xs) (i + 1) = map_option ((#) x) (slice_delete xs i)"
  using assms by (auto simp: slice_delete_def nat_add_distrib)

lemma slice_delete_Index:
  "slice_delete xs (slices_Index xs v) = (if v \<in> set xs then Some (remove1 v xs) else None)"
proof (induction xs)
  case Nil
  then show ?case by (simp add: slice_delete_def)
next
  case (Cons x xs)
  show ?case
  proof (cases "x = v")
    case True
    then show ?thesis by (simp add: slice_delete_def)
  next
    case neq: False
    show ?thesis
    proof (cases "v \<in> set xs")
      case True
      then have "0 \<le> slices_Index xs v" using slices_Index_neg [of xs v] by linarith
      with True neq Cons.IH show ?thesis by (auto simp: Let_def slice_delete_Cons)
    next
      case False
      with neq show ?thesis by (simp add: slice_delete_def)
    qed
  qed
qed

text \<open>The elements of a slice that may be nil.\<close>

definition slice_elements :: "'a list option \<Rightarrow> 'a list" where
  "slice_elements s = (case s of None \<Rightarrow> [] | Some xs \<Rightarrow> xs)"

end
