(* ===== verification/GoStrings.thy ===== *)
theory GoStrings
  imports Prelude "HOL-Library.List_Lexorder" "HOL-Library.Char_ord"
begin

text \<open>
  Go strings are byte strings: \<open>char list\<close> here, compared byte by byte as Go's \<open><\<close>
  does (\<open>HOL-Library.List_Lexorder\<close> over \<open>Char_ord\<close>). The case mappings are those of
  packages \<open>strings\<close> and \<open>unicode\<close> on ASCII, the alphabet of Kubernetes names and
  label values; bytes above 127 are left alone. This theory holds
  \<open>sortSliceOfStrings\<close> of \<open>internal/controller/upgradeaccelerator_func.go\<close>.
\<close>

section \<open>Case mapping and joining\<close>

definition toUpper_char :: "char \<Rightarrow> char" where
  "toUpper_char c =
     (if CHR ''a'' \<le> c \<and> c \<le> CHR ''z'' then char_of (of_char c - 32 :: nat) else c)"

definition toLower_char :: "char \<Rightarrow> char" where
  "toLower_char c =
     (if CHR ''A'' \<le> c \<and> c \<le> CHR ''Z'' then char_of (of_char c + 32 :: nat) else c)"

definition strings_ToUpper :: "string \<Rightarrow> string" where
  "strings_ToUpper s = map toUpper_char s"

definition strings_ToLower :: "string \<Rightarrow> string" where
  "strings_ToLower s = map toLower_char s"

fun strings_Join :: "string list \<Rightarrow> string \<Rightarrow> string" where
  "strings_Join [] sep = []"
| "strings_Join [x] sep = x"
| "strings_Join (x # y # xs) sep = x @ sep @ strings_Join (y # xs) sep"

lemma strings_Join_empty_sep: "strings_Join xs [] = concat xs"
  by (induction xs "[] :: string" rule: strings_Join.induct) auto

section \<open>Sorting node names\<close>

text \<open>
  The type \<open>slice\<close> wraps \<open>sort.StringSlice\<close> with a \<open>Less\<close> that compares the
  upper-cased elements. The whole slice is passed, as the method gets it with two indices.
\<close>

definition Less :: "string list \<Rightarrow> nat \<Rightarrow> nat \<Rightarrow> bool" where
  "Less s d e =
     (let t = strings_ToUpper (s ! d); u = strings_ToUpper (s ! e) in t < u)"

text \<open>
  \<open>sort.Sort\<close> runs insertion sort on up to twelve elements: for each \<open>i\<close> it moves element
  \<open>i\<close> down by swaps while it is less than its left neighbour. \<open>sort_down s j\<close> is that
  inner loop from index \<open>j\<close>. Above twelve elements the library's documentation promises
  only a sorted permutation; \<open>sort_contract\<close> below states that promise, and the locale shows
  that the result is the same one for any implementation of it whenever no two elements agree
  up to case.
\<close>

fun sort_down :: "string list \<Rightarrow> nat \<Rightarrow> string list" where
  "sort_down s 0 = s"
| "sort_down s (Suc j) =
     (if Less s (Suc j) j then sort_down (s[j := s ! Suc j, Suc j := s ! j]) j else s)"

fun insertion_sort_from :: "string list \<Rightarrow> nat \<Rightarrow> nat \<Rightarrow> string list" where
  "insertion_sort_from s i 0 = s"
| "insertion_sort_from s i (Suc k) = insertion_sort_from (sort_down s i) (Suc i) k"

definition sort_Sort :: "string list \<Rightarrow> string list" where
  "sort_Sort s = insertion_sort_from s 1 (length s - 1)"

definition sortSliceOfStrings :: "string list \<Rightarrow> string list" where
  "sortSliceOfStrings input = sort_Sort input"

lemma sort_down_snoc:
  "sort_down ((ys @ [y]) @ x # zs) (length (ys @ [y])) =
     (if strings_ToUpper x < strings_ToUpper y
      then sort_down (ys @ x # y # zs) (length ys) else ys @ y # x # zs)"
  by (simp add: Less_def nth_append list_update_append)

text \<open>The inner loop inserts its element behind everything not greater than it.\<close>

lemma sort_down_inserts:
  assumes "sorted (map strings_ToUpper ys)"
  shows "\<exists>us vs. ys = us @ vs \<and>
           sort_down (ys @ x # zs) (length ys) = us @ x # vs @ zs \<and>
           (\<forall>u \<in> set us. strings_ToUpper u \<le> strings_ToUpper x) \<and>
           (\<forall>v \<in> set vs. strings_ToUpper x < strings_ToUpper v)"
  using assms
proof (induction ys arbitrary: zs rule: rev_induct)
  case Nil
  then show ?case by simp
next
  case (snoc y ys)
  show ?case
  proof (cases "strings_ToUpper x < strings_ToUpper y")
    case True
    from snoc.prems have "sorted (map strings_ToUpper ys)" by (simp add: sorted_append)
    from snoc.IH [OF this, of "y # zs"] obtain us vs where
      "ys = us @ vs" and "sort_down (ys @ x # y # zs) (length ys) = us @ x # vs @ y # zs"
      and "\<forall>u \<in> set us. strings_ToUpper u \<le> strings_ToUpper x"
      and "\<forall>v \<in> set vs. strings_ToUpper x < strings_ToUpper v" by blast
    with True show ?thesis
      using sort_down_snoc [of ys y x zs]
      by (intro exI [of _ us] exI [of _ "vs @ [y]"]) auto
  next
    case False
    with snoc.prems show ?thesis
      using sort_down_snoc [of ys y x zs]
      by (intro exI [of _ "ys @ [y]"] exI [of _ "[]"]) (auto simp: sorted_append)
  qed
qed

lemma insertion_sort_from_stable:
  assumes "sorted (map strings_ToUpper ys)" and "length ys = i" and "length zs = k"
  shows "mset (insertion_sort_from (ys @ zs) i k) = mset (ys @ zs) \<and>
         sorted (map strings_ToUpper (insertion_sort_from (ys @ zs) i k)) \<and>
         (\<forall>key. filter (\<lambda>x. key = strings_ToUpper x) (insertion_sort_from (ys @ zs) i k) =
                filter (\<lambda>x. key = strings_ToUpper x) (ys @ zs))"
  using assms
proof (induction k arbitrary: ys zs i)
  case 0
  then show ?case by simp
next
  case (Suc k)
  then obtain x zs' where zs: "zs = x # zs'" by (cases zs) auto
  from sort_down_inserts [OF Suc.prems(1), of x zs'] obtain us vs where
    ys: "ys = us @ vs" and down: "sort_down (ys @ x # zs') (length ys) = (us @ x # vs) @ zs'"
    and le: "\<forall>u \<in> set us. strings_ToUpper u \<le> strings_ToUpper x"
    and gt: "\<forall>v \<in> set vs. strings_ToUpper x < strings_ToUpper v" by auto
  have sorted': "sorted (map strings_ToUpper (us @ x # vs))"
    using Suc.prems(1) ys le gt by (auto simp: sorted_append intro: less_imp_le)
  have none: "filter (\<lambda>y. strings_ToUpper x = strings_ToUpper y) vs = []"
    using gt by (auto simp: filter_empty_conv)
  show ?case
    using Suc.IH [OF sorted', of "Suc i" zs'] Suc.prems ys zs down none by (auto simp: ac_simps)
qed

lemma sort_Sort_stable:
  "mset (sort_Sort s) = mset s \<and> sorted (map strings_ToUpper (sort_Sort s)) \<and>
   (\<forall>key. filter (\<lambda>x. key = strings_ToUpper x) (sort_Sort s) =
          filter (\<lambda>x. key = strings_ToUpper x) s)"
proof (cases s)
  case Nil
  then show ?thesis by (simp add: sort_Sort_def)
next
  case (Cons x xs)
  then show ?thesis
    using insertion_sort_from_stable [of "[x]" 1 xs "length xs"] by (simp add: sort_Sort_def)
qed

lemma sortSliceOfStrings_stable: "sortSliceOfStrings input = sort_key strings_ToUpper input"
  unfolding sortSliceOfStrings_def
  using sort_Sort_stable [of input] by (intro properties_for_sort_key [symmetric]) auto

text \<open>
  What the package documentation promises of \<open>sort.Sort\<close>: a permutation in non-descending
  order of \<open>Less\<close>, nothing about the order of equal elements.
\<close>

locale sort_contract =
  fixes srt :: "string list \<Rightarrow> string list"
  assumes srt_permutes: "mset (srt xs) = mset xs"
    and srt_ascends: "sorted (map strings_ToUpper (srt xs))"
begin

lemma srt_set [simp]: "set (srt xs) = set xs"
  using srt_permutes by (metis set_mset_mset)

lemma srt_length [simp]: "length (srt xs) = length xs"
  using srt_permutes by (metis size_mset)

lemma srt_distinct [simp]: "distinct (srt xs) = distinct xs"
  using srt_permutes by (metis mset_eq_imp_distinct_iff)

text \<open>Without two elements equal up to case, every implementation gives the same list.\<close>

lemma srt_unique:
  assumes keys: "distinct (map strings_ToUpper xs)"
    and ys: "mset ys = mset xs" "sorted (map strings_ToUpper ys)"
  shows "srt xs = ys"
proof (rule map_sorted_distinct_set_unique)
  have keys': "distinct (map strings_ToUpper zs)" if "mset zs = mset xs" for zs
    using mset_eq_imp_distinct_iff [of "map strings_ToUpper zs" "map strings_ToUpper xs"] that keys
    by simp
  show "distinct (map strings_ToUpper (srt xs))" by (rule keys' [OF srt_permutes])
  show "distinct (map strings_ToUpper ys)" by (rule keys' [OF ys(1)])
  show "inj_on strings_ToUpper (set (srt xs) \<union> set ys)"
    using keys mset_eq_setD [OF ys(1)] by (simp add: distinct_map)
  show "sorted (map strings_ToUpper (srt xs))" by (rule srt_ascends)
  show "sorted (map strings_ToUpper ys)" by (rule ys(2))
  show "set (srt xs) = set ys" using mset_eq_setD [OF ys(1)] by simp
qed

end

interpretation go_sort: sort_contract sortSliceOfStrings
  by unfold_locales (simp_all add: sortSliceOfStrings_stable)

lemmas sortSliceOfStrings_set [simp] = go_sort.srt_set
lemmas sortSliceOfStrings_length [simp] = go_sort.srt_length
lemmas sortSliceOfStrings_distinct [simp] = go_sort.srt_distinct

lemma sortSliceOfStrings_idem [simp]: "sortSliceOfStrings (sortSliceOfStrings xs) = sortSliceOfStrings xs"
  by (simp add: sortSliceOfStrings_stable sort_key_id_if_sorted)

lemma sortSliceOfStrings_cong:
  assumes "mset xs = mset ys" and "distinct (map strings_ToUpper xs)"
  shows "sortSliceOfStrings xs = sortSliceOfStrings ys"
  using assms by (intro go_sort.srt_unique) (simp_all add: go_sort.srt_permutes go_sort.srt_ascends)

text \<open>C33: sortSliceOfStrings returns a permutation of its input, sorted by the
upper-cased strings, and keeps the order of strings that agree in upper case (on the insertion
sort Go uses for up to twelve elements).\<close>

theorem sortSliceOfStrings_spec:
  "mset (sortSliceOfStrings input) = mset input \<and>
   sorted (map strings_ToUpper (sortSliceOfStrings input)) \<and>
   (\<forall>key. filter (\<lambda>x. strings_ToUpper x = key) (sortSliceOfStrings input) =
          filter (\<lambda>x. strings_ToUpper x = key) input)"
  using sort_Sort_stable [of input] by (simp add: sortSliceOfStrings_def eq_commute)

text \<open>C34: When the input has no two strings that agree in upper case, any sorting
function for that order, such as the pattern-defeating quicksort Go uses for longer slices,
returns the list sortSliceOfStrings returns.\<close>

theorem sortSliceOfStrings_any_sort:
  assumes "\<And>xs. mset (srt xs) = mset xs" and "\<And>xs. sorted (map strings_ToUpper (srt xs))"
    and "distinct (map strings_ToUpper input)"
  shows "srt input = sortSliceOfStrings input"
proof -
  from go_sort.srt_unique [OF assms(3) assms(1) assms(2)] show ?thesis by simp
qed

theorem sortSliceOfStrings_any_sort_witness:
  "sort_key strings_ToUpper [''b'', ''A'', ''c''] = sortSliceOfStrings [''b'', ''A'', ''c'']"
proof (rule sortSliceOfStrings_any_sort)
  show "distinct (map strings_ToUpper [''b'', ''A'', ''c''])" by code_simp
qed simp_all

end
