(* ===== verification/ApiTypes.thy ===== *)
theory ApiTypes
  imports GoStrings "HOL-Library.Word"
begin

text \<open>
  The data of the operator. The first section holds the fields the code reads or writes of
  Kubernetes and OpenShift objects (types of \<open>k8s.io/api\<close>, \<open>k8s.io/apimachinery\<close> and
  \<open>github.com/openshift/api\<close>); the second the custom resource of
  \<open>api/v1alpha1/upgradeaccelerator_types.go\<close>; the third the types and constants of
  \<open>internal/controller/upgradeaccelerator_types.go\<close> and of the condition file. A Go map with
  string keys and values is an association list without duplicate keys, a nil-able pointer an
  \<open>option\<close>, an \<open>int32\<close> a \<open>32 word\<close>. Lists stand for slices; where the code or its
  output tells a nil slice from an empty one the type is an \<open>option\<close> of a list.
\<close>

type_synonym smap = "(string \<times> string) list"
type_synonym int32 = "32 word"

section \<open>Kubernetes and OpenShift objects, as far as the code looks at them\<close>

record NamespacedName =
  nn_Namespace :: string
  nn_Name :: string

record OwnerReference =
  or_APIVersion :: string
  or_Kind :: string
  or_Name :: string
  or_UID :: string

record ObjectMeta =
  Name :: string
  Namespace :: string
  UID :: string
  ResourceVersion :: string
  Generation :: int
  Labels :: smap
  OwnerReferences :: "OwnerReference list"

record LabelSelectorRequirement =
  lsr_Key :: string
  lsr_Operator :: string
  lsr_Values :: "string list"

record LabelSelector =
  MatchLabels :: smap
  MatchExpressions :: "LabelSelectorRequirement list"

record Toleration =
  tol_Key :: string
  tol_Operator :: string
  tol_Value :: string
  tol_Effect :: string
  tol_TolerationSeconds :: "int option"

record EnvVar =
  ev_Name :: string
  ev_Value :: string

record Condition =
  cond_Type :: string
  cond_Status :: string
  cond_Reason :: string
  cond_Message :: string
  cond_LastTransitionTime :: int

record Node =
  node_Name :: string
  node_Labels :: smap

record MachineConfigPool =
  mcp_Name :: string
  mcp_NodeSelector :: "LabelSelector option"

record Infrastructure =
  infra_PlatformStatus :: "string option"

record OperandVersion =
  ov_Name :: string
  ov_Version :: string

record ClusterOperator =
  co_Name :: string
  co_Versions :: "OperandVersion list"

record ClusterVersion =
  cv_DesiredVersion :: string
  cv_DesiredImage :: string

record NamespaceObject =
  ns_Name :: string
  ns_Labels :: smap

record ConfigMap =
  cm_Metadata :: ObjectMeta
  cm_Data :: smap

datatype VolumeSource =
    ConfigMapVolume string
  | HostPathVolume string string

record Volume =
  vol_Name :: string
  vol_Source :: VolumeSource

record VolumeMount =
  vm_Name :: string
  vm_MountPath :: string
  vm_ReadOnly :: bool

record SecurityContext =
  sc_Privileged :: bool
  sc_RunAsUser :: int
  sc_SeccompProfile :: string

record Container =
  ctr_Name :: string
  ctr_Image :: string
  ctr_Command :: "string list"
  ctr_Args :: "string list"
  ctr_Env :: "EnvVar list"
  ctr_TTY :: bool
  ctr_SecurityContext :: SecurityContext
  ctr_VolumeMounts :: "VolumeMount list"

record PodSpec =
  RestartPolicy :: string
  HostPID :: bool
  HostNetwork :: bool
  HostIPC :: bool
  NodeName :: string
  pod_Tolerations :: "Toleration list"
  Containers :: "Container list"
  Volumes :: "Volume list"

record Job =
  job_Metadata :: ObjectMeta
  TTLSecondsAfterFinished :: "int32 option"
  job_PodSpec :: PodSpec
  job_Succeeded :: int32

section \<open>The custom resource\<close>

record OverrideReleaseVersionType =
  override_Version :: string
  override_Image :: string

record UpgradeAcceleratorConfigRandomWait =
  rw_Enabled :: bool
  rw_MinDuration :: int32
  rw_MaxDuration :: int32

record UpgradeAcceleratorConfigScheduling =
  Tolerations :: "Toleration list"
  sched_Namespace :: string

record UpgradeAcceleratorConfig =
  Scheduling :: UpgradeAcceleratorConfigScheduling
  RandomWait :: UpgradeAcceleratorConfigRandomWait
  JobImage :: string
  OverrideReleaseVersion :: OverrideReleaseVersionType
  PullScriptConfigMapName :: string

record SelectorType =
  NodeSelector :: "LabelSelector option"
  MachineConfigPools :: "string list"

record UpgradeAcceleratorSpec =
  spec_State :: string
  Selector :: SelectorType
  Prime :: bool
  Parallelism :: int32
  Config :: UpgradeAcceleratorConfig

record UpgradeAcceleratorStatus =
  ClusterInfrastructure :: string
  CurrentVersion :: string
  TargetVersion :: string
  DesiredVersion :: string
  DesiredImage :: string
  LastCompletedVersion :: string
  Conditions :: "Condition list"
  NodesSelected :: "string list"
  NodesPreheated :: "string list"
  NodesWarming :: "string list"
  NodesWaiting :: "string list"
  PrimerNodes :: "string list"

record UpgradeAccelerator =
  Metadata :: ObjectMeta
  Spec :: UpgradeAcceleratorSpec
  Status :: UpgradeAcceleratorStatus

text \<open>The group and version of the resource (\<open>groupversion_info.go\<close>) and its \<open>apiVersion\<close>.\<close>

record schema_GroupVersion =
  gv_Group :: string
  gv_Version :: string

definition GroupVersion :: schema_GroupVersion where
  "GroupVersion = \<lparr>gv_Group = ''openshift.kemo.dev'', gv_Version = ''v1alpha1''\<rparr>"

definition apiVersion_of :: "schema_GroupVersion \<Rightarrow> string" where
  "apiVersion_of gv = (if gv_Group gv = [] then gv_Version gv else gv_Group gv @ ''/'' @ gv_Version gv)"

section \<open>Types and constants of the controller\<close>

record ReleaseImageTags =
  rit_Name :: string
  rit_From :: string

record OpenShiftClusterVersionState =
  cvs_CurrentVersion :: string
  cvs_DesiredVersion :: string
  cvs_DesiredImage :: string

record PullJob =
  pj_Name :: string
  pj_Namespace :: string
  pj_TargetNodeName :: string
  pj_ReleaseConfigMapName :: string

definition UpgradeAcceleratorDefaultJobPullerImage :: string where
  "UpgradeAcceleratorDefaultJobPullerImage = ''registry.redhat.io/rhel9/support-tools:latest''"

definition UpgradeAcceleratorDefaultNamespace :: string where
  "UpgradeAcceleratorDefaultNamespace = ''openshift-upgrade-accelerator''"

definition UpgradeAcceleratorMachineConfigOperatorStatusVersionKey :: string where
  "UpgradeAcceleratorMachineConfigOperatorStatusVersionKey = ''operator''"

definition UpgradeAcceleratorDefaultJobTTL :: int32 where
  "UpgradeAcceleratorDefaultJobTTL = 7200"

definition UpgradeAcceleratorDefaultAppLabelValue :: string where
  "UpgradeAcceleratorDefaultAppLabelValue = ''upgrade-accelerator''"

definition UpgradeAcceleratorDefaultJobTolerations :: "Toleration list" where
  "UpgradeAcceleratorDefaultJobTolerations =
     [\<lparr>tol_Key = [], tol_Operator = ''Exists'', tol_Value = [], tol_Effect = [],
       tol_TolerationSeconds = None\<rparr>]"

section \<open>Zero values\<close>

text \<open>\<open>&openshiftv1alpha1.UpgradeAccelerator{}\<close>, the object \<open>Reconcile\<close> fetches into.\<close>

definition zero_ObjectMeta :: ObjectMeta where
  "zero_ObjectMeta = \<lparr>Name = [], Namespace = [], UID = [], ResourceVersion = [],
     Generation = 0, Labels = [], OwnerReferences = []\<rparr>"

definition zero_Config :: UpgradeAcceleratorConfig where
  "zero_Config = \<lparr>Scheduling = \<lparr>Tolerations = [], sched_Namespace = []\<rparr>,
     RandomWait = \<lparr>rw_Enabled = False, rw_MinDuration = 0, rw_MaxDuration = 0\<rparr>,
     JobImage = [], OverrideReleaseVersion = \<lparr>override_Version = [], override_Image = []\<rparr>,
     PullScriptConfigMapName = []\<rparr>"

definition zero_Spec :: UpgradeAcceleratorSpec where
  "zero_Spec = \<lparr>spec_State = [], Selector = \<lparr>NodeSelector = None, MachineConfigPools = []\<rparr>,
     Prime = False, Parallelism = 0, Config = zero_Config\<rparr>"

definition zero_Status :: UpgradeAcceleratorStatus where
  "zero_Status = \<lparr>ClusterInfrastructure = [], CurrentVersion = [], TargetVersion = [],
     DesiredVersion = [], DesiredImage = [], LastCompletedVersion = [], Conditions = [],
     NodesSelected = [], NodesPreheated = [], NodesWarming = [], NodesWaiting = [],
     PrimerNodes = []\<rparr>"

definition zero_UpgradeAccelerator :: UpgradeAccelerator where
  "zero_UpgradeAccelerator = \<lparr>Metadata = zero_ObjectMeta, Spec = zero_Spec, Status = zero_Status\<rparr>"

lemmas zero_defs = zero_ObjectMeta_def zero_Config_def zero_Spec_def zero_Status_def
  zero_UpgradeAccelerator_def

end
