(* ===== verification/Sha256.thy ===== *)
theory Sha256
  imports ApiTypes
begin

unbundle bit_operations_syntax

text \<open>
  \<open>hashString\<close> of \<open>internal/controller/upgradeaccelerator_func.go\<close>: the first eight
  characters of the hexadecimal SHA-256 digest. \<open>crypto/sha256\<close> is Go's standard library;
  it is written out after FIPS 180-4 over 32-bit words, so that the names of jobs and config
  maps are computed and not assumed.
\<close>

section \<open>SHA-256\<close>

type_synonym u32 = "32 word"
type_synonym working = "u32 \<times> u32 \<times> u32 \<times> u32 \<times> u32 \<times> u32 \<times> u32 \<times> u32"

definition sha_K :: "u32 list" where
  "sha_K =
     [1116352408, 1899447441, 3049323471, 3921009573, 961987163, 1508970993, 2453635748,
      2870763221, 3624381080, 310598401, 607225278, 1426881987, 1925078388, 2162078206,
      2614888103, 3248222580, 3835390401, 4022224774, 264347078, 604807628, 770255983,
      1249150122, 1555081692, 1996064986, 2554220882, 2821834349, 2952996808, 3210313671,
      3336571891, 3584528711, 113926993, 338241895, 666307205, 773529912, 1294757372,
      1396182291, 1695183700, 1986661051, 2177026350, 2456956037, 2730485921, 2820302411,
      3259730800, 3345764771, 3516065817, 3600352804, 4094571909, 275423344, 430227734,
      506948616, 659060556, 883997877, 958139571, 1322822218, 1537002063, 1747873779,
      1955562222, 2024104815, 2227730452, 2361852424, 2428436474, 2756734187, 3204031479,
      3329325298]"

definition sha_H0 :: "working" where
  "sha_H0 =
     (1779033703, 3144134277, 1013904242, 2773480762, 1359893119, 2600822924,
      528734635, 1541459225)"

definition Ch :: "u32 \<Rightarrow> u32 \<Rightarrow> u32 \<Rightarrow> u32" where
  "Ch x y z = (x AND y) XOR (NOT x AND z)"

definition Maj :: "u32 \<Rightarrow> u32 \<Rightarrow> u32 \<Rightarrow> u32" where
  "Maj x y z = (x AND y) XOR (x AND z) XOR (y AND z)"

definition big_sigma0 :: "u32 \<Rightarrow> u32" where
  "big_sigma0 x = word_rotr 2 x XOR word_rotr 13 x XOR word_rotr 22 x"

definition big_sigma1 :: "u32 \<Rightarrow> u32" where
  "big_sigma1 x = word_rotr 6 x XOR word_rotr 11 x XOR word_rotr 25 x"

definition small_sigma0 :: "u32 \<Rightarrow> u32" where
  "small_sigma0 x = word_rotr 7 x XOR word_rotr 18 x XOR drop_bit 3 x"

definition small_sigma1 :: "u32 \<Rightarrow> u32" where
  "small_sigma1 x = word_rotr 17 x XOR word_rotr 19 x XOR drop_bit 10 x"

text \<open>Padding: a one bit, zeros to 56 bytes modulo 64, the length in bits on eight bytes.\<close>

fun be_bytes :: "nat \<Rightarrow> int \<Rightarrow> int list" where
  "be_bytes 0 n = []"
| "be_bytes (Suc k) n = be_bytes k (n div 256) @ [n mod 256]"

definition sha_pad :: "int list \<Rightarrow> int list" where
  "sha_pad bs =
     bs @ 128 # replicate ((119 - length bs mod 64) mod 64) 0 @ be_bytes 8 (8 * int (length bs))"

fun be_words :: "int list \<Rightarrow> u32 list" where
  "be_words (a # b # c # d # bs) =
     of_int (((a * 256 + b) * 256 + c) * 256 + d) # be_words bs"
| "be_words _ = []"

text \<open>The message schedule, newest word first: \<open>sched_extend n ws\<close> adds \<open>n\<close> words.\<close>

fun sched_extend :: "nat \<Rightarrow> u32 list \<Rightarrow> u32 list" where
  "sched_extend 0 ws = ws"
| "sched_extend (Suc n) ws =
     sched_extend n
       ((small_sigma1 (ws ! 1) + ws ! 6 + small_sigma0 (ws ! 14) + ws ! 15) # ws)"

definition sha_schedule :: "u32 list \<Rightarrow> u32 list" where
  "sha_schedule block = rev (sched_extend 48 (rev block))"

fun sha_round :: "u32 \<times> u32 \<Rightarrow> working \<Rightarrow> working" where
  "sha_round (k, w) (a, b, c, d, e, f, g, h) =
     (let t1 = h + big_sigma1 e + Ch e f g + k + w;
          t2 = big_sigma0 a + Maj a b c
      in (t1 + t2, a, b, c, d + t1, e, f, g))"

fun working_add :: "working \<Rightarrow> working \<Rightarrow> working" where
  "working_add (a, b, c, d, e, f, g, h) (a', b', c', d', e', f', g', h') =
     (a + a', b + b', c + c', d + d', e + e', f + f', g + g', h + h')"

definition sha_block :: "u32 list \<Rightarrow> working \<Rightarrow> working" where
  "sha_block block st = working_add st (fold sha_round (zip sha_K (sha_schedule block)) st)"

text \<open>One block of sixteen words at a time; the first argument bounds the number of blocks.\<close>

fun sha_blocks :: "nat \<Rightarrow> u32 list \<Rightarrow> working \<Rightarrow> working" where
  "sha_blocks 0 ws st = st"
| "sha_blocks (Suc n) ws st = sha_blocks n (drop 16 ws) (sha_block (take 16 ws) st)"

fun working_list :: "working \<Rightarrow> u32 list" where
  "working_list (a, b, c, d, e, f, g, h) = [a, b, c, d, e, f, g, h]"

definition sha256_Sum :: "string \<Rightarrow> u32 list" where
  "sha256_Sum s =
     (let ws = be_words (sha_pad (map of_char s))
      in working_list (sha_blocks (length ws div 16) ws sha_H0))"

section \<open>hashString\<close>

definition hex_digits :: string where
  "hex_digits = ''0123456789abcdef''"

definition hex_nibble :: "u32 \<Rightarrow> char" where
  "hex_nibble w = hex_digits ! unat (w AND 15)"

text \<open>\<open>%x\<close> of a word's four bytes: its eight nibbles, highest first.\<close>

definition hex_word :: "u32 \<Rightarrow> string" where
  "hex_word w = map (\<lambda>n. hex_nibble (drop_bit n w)) [28, 24, 20, 16, 12, 8, 4, 0]"

definition hashString :: "string \<Rightarrow> string" where
  "hashString name = take 8 (concat (map hex_word (sha256_Sum name)))"

lemma length_hex_word [simp]: "length (hex_word w) = 8"
  by (simp add: hex_word_def)

lemma nibble_bound: "unat (w AND (15 :: u32)) < 16"
proof -
  have "unat (w AND 15) \<le> unat (15 :: u32)"
    by (rule word_and_le1 [THEN word_le_nat_alt [THEN iffD1]])
  then show ?thesis by simp
qed

lemma set_hex_word: "set (hex_word w) \<subseteq> set hex_digits"
proof -
  have "hex_nibble x \<in> set hex_digits" for x
    using nibble_bound [of x] unfolding hex_nibble_def
    by (intro nth_mem) (simp add: hex_digits_def)
  then show ?thesis by (auto simp: hex_word_def)
qed

lemma hashString_first_word:
  "\<exists>w. hashString name = hex_word w"
proof -
  have "\<exists>w ws. working_list st = w # ws" for st
    by (cases st rule: working_list.cases) simp
  then obtain w ws where "sha256_Sum name = w # ws"
    unfolding sha256_Sum_def Let_def by blast
  then show ?thesis by (auto simp: hashString_def)
qed

lemma hashString_length [simp]: "length (hashString name) = 8"
  using hashString_first_word [of name] by auto

lemma hashString_hex: "set (hashString name) \<subseteq> set hex_digits"
  using hashString_first_word [of name] by (metis set_hex_word)

text \<open>The digest of \<open>abc\<close>, the test vector of FIPS 180-4.\<close>

lemma hashString_abc: "hashString ''abc'' = ''ba7816bf''"
  by code_simp

text \<open>hashString returns eight lower-case hexadecimal digits, a valid suffix of a
Kubernetes name; on abc they are the first of the SHA-256 digest.\<close>

theorem hashString_digest:
  "length (hashString name) = 8 \<and> set (hashString name) \<subseteq> set ''0123456789abcdef'' \<and>
   hashString ''abc'' = ''ba7816bf''"
  using hashString_length [of name] hashString_hex [of name] hashString_abc by (simp add: hex_digits_def)

end
