(* ===== verification/Client.thy ===== *)
theory Client
  imports Sha256
begin

text \<open>
  The boundary of the program. Every call to the API server and every shell command is an
  \<open>api_call\<close>, appended to the trace of the run; what it answers is an argument of the model
  (\<open>env\<close>), an arbitrary function of the calls made so far and of the request. Other actors,
  network failures, conflicts and stale reads are thereby all admitted. The state of a run
  is the trace and the object the reconciler holds by pointer and mutates in place.

  Libraries that are not under \<open>src/\<close> are fields of \<open>env\<close> as well: \<open>mergo.Merge\<close>,
  \<open>metav1.NewControllerRef\<close>, \<open>proxy.ReadProxyVarsFromEnv\<close>, the clock and the order in which
  Go ranges over a map. Which error
  \<open>encoding/json\<close> reports for an invalid text is one too.
\<close>

section \<open>Errors, results, calls\<close>

text \<open>
  A Go \<open>error\<close>: its text and whether \<open>apierrors.IsNotFound\<close> holds of it.
  \<open>client.IgnoreNotFound\<close> turns a not-found error into \<open>nil\<close>.
\<close>

record error =
  IsNotFound :: bool
  Error :: string

definition IgnoreNotFound :: "error \<Rightarrow> error option" where
  "IgnoreNotFound err = (if IsNotFound err then None else Some err)"

text \<open>The outcome of a function that returns a value and an error and may panic.\<close>

datatype 'a result = Ok 'a | Err error | Panic string

text \<open>Durations are nanoseconds.\<close>

definition time_Second :: int where
  "time_Second = 1000000000"

definition time_Minute :: int where
  "time_Minute = 60 * time_Second"

record ctrl_Result =
  RequeueAfter :: int

datatype api_call =
    GetUpgradeAccelerator NamespacedName
  | UpdateStatus UpgradeAccelerator
  | GetInfrastructure NamespacedName
  | GetClusterOperator NamespacedName
  | GetClusterVersion NamespacedName
  | ListNodes smap
  | ListMachineConfigPools
  | GetNamespace NamespacedName
  | CreateNamespace NamespaceObject
  | GetConfigMap NamespacedName
  | CreateConfigMap ConfigMap
  | UpdateConfigMap ConfigMap
  | GetJob NamespacedName
  | CreateJob Job
  | ListJobs string smap
  | Exec string
  | ListUpgradeAccelerators

text \<open>
  What a started shell command does: the errors \<open>os/exec\<close> reports before and after it runs
  and the bytes it writes before its output ends or can no longer be read.
\<close>

record process =
  proc_StdoutPipe :: "error option"
  proc_Start :: "error option"
  proc_Stdout :: string
  proc_ReadError :: "error option"
  proc_Kill :: "error option"
  proc_Wait :: "error option"

record env =
  on_GetUpgradeAccelerator :: "api_call list \<Rightarrow> NamespacedName \<Rightarrow> error + UpgradeAccelerator"
  on_UpdateStatus :: "api_call list \<Rightarrow> UpgradeAccelerator \<Rightarrow> error + string"
  on_GetInfrastructure :: "api_call list \<Rightarrow> NamespacedName \<Rightarrow> error + Infrastructure"
  on_GetClusterOperator :: "api_call list \<Rightarrow> NamespacedName \<Rightarrow> error + ClusterOperator"
  on_GetClusterVersion :: "api_call list \<Rightarrow> NamespacedName \<Rightarrow> error + ClusterVersion"
  on_ListNodes :: "api_call list \<Rightarrow> smap \<Rightarrow> error + Node list"
  on_ListMachineConfigPools :: "api_call list \<Rightarrow> error + MachineConfigPool list"
  on_GetNamespace :: "api_call list \<Rightarrow> NamespacedName \<Rightarrow> error + NamespaceObject"
  on_CreateNamespace :: "api_call list \<Rightarrow> NamespaceObject \<Rightarrow> error option"
  on_GetConfigMap :: "api_call list \<Rightarrow> NamespacedName \<Rightarrow> error + ConfigMap"
  on_CreateConfigMap :: "api_call list \<Rightarrow> ConfigMap \<Rightarrow> error option"
  on_UpdateConfigMap :: "api_call list \<Rightarrow> ConfigMap \<Rightarrow> error option"
  on_GetJob :: "api_call list \<Rightarrow> NamespacedName \<Rightarrow> error + Job"
  on_CreateJob :: "api_call list \<Rightarrow> Job \<Rightarrow> error option"
  on_ListJobs :: "api_call list \<Rightarrow> string \<Rightarrow> smap \<Rightarrow> error + Job list"
  on_ListUpgradeAccelerators :: "api_call list \<Rightarrow> error + UpgradeAccelerator list"
  on_Exec :: "api_call list \<Rightarrow> string \<Rightarrow> process"
  time_Now :: "api_call list \<Rightarrow> int"
  map_range :: "nat \<Rightarrow> api_call list \<Rightarrow> string list \<Rightarrow> string list"
  mergo_Merge :: "LabelSelector \<Rightarrow> LabelSelector \<Rightarrow> error + LabelSelector"
  NewControllerRef :: "ObjectMeta \<Rightarrow> string \<Rightarrow> string \<Rightarrow> OwnerReference"
  ReadProxyVarsFromEnv :: "EnvVar list"
  json_Error :: "string \<Rightarrow> error"

section \<open>The state of a run\<close>

record go_state =
  trace :: "api_call list"
  obj :: UpgradeAccelerator

type_synonym 'a go = "(go_state, 'a) state"

definition perform :: "api_call \<Rightarrow> (api_call list \<Rightarrow> 'a) \<Rightarrow> 'a go" where
  "perform c answer = do {
     s \<leftarrow> State_Monad.get;
     State_Monad.set (s\<lparr>trace := trace s @ [c]\<rparr>);
     State_Monad.return (answer (trace s))
   }"

definition modify_obj :: "(UpgradeAccelerator \<Rightarrow> UpgradeAccelerator) \<Rightarrow> unit go" where
  "modify_obj f = do {
     s \<leftarrow> State_Monad.get;
     State_Monad.set (s\<lparr>obj := f (obj s)\<rparr>)
   }"

definition modify_status :: "(UpgradeAcceleratorStatus \<Rightarrow> UpgradeAcceleratorStatus) \<Rightarrow> unit go" where
  "modify_status f = modify_obj (\<lambda>u. u\<lparr>Status := f (Status u)\<rparr>)"

definition get_obj :: "UpgradeAccelerator go" where
  "get_obj = do { s \<leftarrow> State_Monad.get; State_Monad.return (obj s) }"

definition get_trace :: "api_call list go" where
  "get_trace = do { s \<leftarrow> State_Monad.get; State_Monad.return (trace s) }"

lemma run_perform [simp]:
  "run_state (perform c answer) s = (answer (trace s), s\<lparr>trace := trace s @ [c]\<rparr>)"
  by (simp add: perform_def)

lemma run_modify_obj [simp]: "run_state (modify_obj f) s = ((), s\<lparr>obj := f (obj s)\<rparr>)"
  by (simp add: modify_obj_def)

lemma run_modify_status [simp]:
  "run_state (modify_status f) s = ((), s\<lparr>obj := obj s\<lparr>Status := f (Status (obj s))\<rparr>\<rparr>)"
  by (simp add: modify_status_def)

lemma run_get_obj [simp]: "run_state get_obj s = (obj s, s)"
  by (simp add: get_obj_def)

lemma run_get_trace [simp]: "run_state get_trace s = (trace s, s)"
  by (simp add: get_trace_def)

section \<open>The two calls that touch the held object\<close>

text \<open>
  \<open>r.Get\<close> of the custom resource replaces the held object on success and leaves it alone on
  failure. \<open>r.Status().Update\<close> sends it; the API server answers with the object it stored,
  whose status is the one sent, so all the held object learns is its new resource version.
  A failed update leaves the local mutations in place.
\<close>

definition Get_UpgradeAccelerator :: "env \<Rightarrow> NamespacedName \<Rightarrow> error option go" where
  "Get_UpgradeAccelerator E key = do {
     r \<leftarrow> perform (GetUpgradeAccelerator key) (\<lambda>tr. on_GetUpgradeAccelerator E tr key);
     case r of
       Inl err \<Rightarrow> State_Monad.return (Some err)
     | Inr u \<Rightarrow> do { modify_obj (\<lambda>_. u); State_Monad.return None }
   }"

definition Status_Update :: "env \<Rightarrow> error option go" where
  "Status_Update E = do {
     u \<leftarrow> get_obj;
     r \<leftarrow> perform (UpdateStatus u) (\<lambda>tr. on_UpdateStatus E tr u);
     case r of
       Inl err \<Rightarrow> State_Monad.return (Some err)
     | Inr rv \<Rightarrow> do {
         modify_obj (\<lambda>u. u\<lparr>Metadata := Metadata u\<lparr>ResourceVersion := rv\<rparr>\<rparr>);
         State_Monad.return None
       }
   }"

lemma run_Get_UpgradeAccelerator:
  "run_state (Get_UpgradeAccelerator E key) s =
    (case on_GetUpgradeAccelerator E (trace s) key of
       Inl err \<Rightarrow> (Some err, s\<lparr>trace := trace s @ [GetUpgradeAccelerator key]\<rparr>)
     | Inr u \<Rightarrow> (None, s\<lparr>trace := trace s @ [GetUpgradeAccelerator key], obj := u\<rparr>))"
  by (auto simp: Get_UpgradeAccelerator_def split: sum.splits)

lemma run_Status_Update:
  "run_state (Status_Update E) s =
    (case on_UpdateStatus E (trace s) (obj s) of
       Inl err \<Rightarrow> (Some err, s\<lparr>trace := trace s @ [UpdateStatus (obj s)]\<rparr>)
     | Inr rv \<Rightarrow>
         (None, s\<lparr>trace := trace s @ [UpdateStatus (obj s)],
                  obj := obj s\<lparr>Metadata := Metadata (obj s)\<lparr>ResourceVersion := rv\<rparr>\<rparr>\<rparr>))"
  by (auto simp: Status_Update_def split: sum.splits)

section \<open>Invariants over the calls made and the held object\<close>

text \<open>
  Every call of the trace satisfies \<open>P\<close> and the held object satisfies \<open>J\<close>. The rules below,
  with those of the combinators, reduce an invariant of a whole function to one obligation
  per call and per mutation.
\<close>

definition calls_ok :: "(api_call \<Rightarrow> bool) \<Rightarrow> (UpgradeAccelerator \<Rightarrow> bool) \<Rightarrow> go_state \<Rightarrow> bool" where
  "calls_ok P J s \<longleftrightarrow> (\<forall>c \<in> set (trace s). P c) \<and> J (obj s)"

definition set_ResourceVersion :: "string \<Rightarrow> UpgradeAccelerator \<Rightarrow> UpgradeAccelerator" where
  "set_ResourceVersion rv u = u\<lparr>Metadata := Metadata u\<lparr>ResourceVersion := rv\<rparr>\<rparr>"

lemma set_ResourceVersion_simps [simp]:
  "Status (set_ResourceVersion rv u) = Status u"
  "Spec (set_ResourceVersion rv u) = Spec u"
  "Name (Metadata (set_ResourceVersion rv u)) = Name (Metadata u)"
  by (simp_all add: set_ResourceVersion_def)

text \<open>Objects are compared up to the resource version, which every successful update changes.\<close>

definition sans_rv :: "UpgradeAccelerator \<Rightarrow> UpgradeAccelerator" where
  "sans_rv u = set_ResourceVersion [] u"

lemma sans_rv_simps [simp]:
  "sans_rv (set_ResourceVersion rv u) = sans_rv u"
  "sans_rv (sans_rv u) = sans_rv u"
  "Status (sans_rv u) = Status u"
  "Spec (sans_rv u) = Spec u"
  by (simp_all add: sans_rv_def set_ResourceVersion_def)

lemma sans_rv_eqD:
  "sans_rv u = sans_rv v \<Longrightarrow> Status u = Status v \<and> Spec u = Spec v"
  by (metis sans_rv_simps(3,4))

lemma keeps_perform:
  "P c \<Longrightarrow> keeps (calls_ok P J) (perform c f)"
  by (rule keepsI) (auto simp: calls_ok_def)

lemma keeps_modify_obj:
  "(\<And>u. J u \<Longrightarrow> J (f u)) \<Longrightarrow> keeps (calls_ok P J) (modify_obj f)"
  by (rule keepsI) (auto simp: calls_ok_def)

lemma keeps_modify_status:
  "(\<And>u. J u \<Longrightarrow> J (u\<lparr>Status := f (Status u)\<rparr>)) \<Longrightarrow> keeps (calls_ok P J) (modify_status f)"
  by (rule keepsI) (auto simp: calls_ok_def)

lemma keeps_get_obj [keeps_rules]: "keeps I get_obj"
  by (rule keepsI) auto

lemma keeps_get_trace [keeps_rules]: "keeps I get_trace"
  by (rule keepsI) auto

lemma keeps_Status_Update:
  assumes "\<And>u. J u \<Longrightarrow> P (UpdateStatus u)" and "\<And>u rv. J u \<Longrightarrow> J (set_ResourceVersion rv u)"
  shows "keeps (calls_ok P J) (Status_Update E)"
  using assms
  by (intro keepsI) (auto simp: calls_ok_def run_Status_Update set_ResourceVersion_def split: sum.splits)

lemma keeps_Get_UpgradeAccelerator:
  assumes "P (GetUpgradeAccelerator key)"
    and "\<And>tr u. on_GetUpgradeAccelerator E tr key = Inr u \<Longrightarrow> J u"
  shows "keeps (calls_ok P J) (Get_UpgradeAccelerator E key)"
  using assms
  by (intro keepsI) (auto simp: calls_ok_def run_Get_UpgradeAccelerator split: sum.splits)

section \<open>A concrete API server\<close>

text \<open>
  The environment the concrete runs start from: no object exists, every list is empty, every
  write is accepted, commands print nothing, the clock stands still and maps are ranged over
  in insertion order. The runs override what they need.
\<close>

definition not_found :: error where
  "not_found = \<lparr>IsNotFound = True, Error = ''not found''\<rparr>"

definition quiet_process :: process where
  "quiet_process = \<lparr>proc_StdoutPipe = None, proc_Start = None, proc_Stdout = [],
     proc_ReadError = None, proc_Kill = None, proc_Wait = None\<rparr>"

definition merge_missing :: "LabelSelector \<Rightarrow> LabelSelector \<Rightarrow> LabelSelector" where
  "merge_missing dst src =
     dst\<lparr>MatchLabels := MatchLabels dst @
           filter (\<lambda>(k, _). map_of (MatchLabels dst) k = None) (MatchLabels src)\<rparr>"

definition idle_env :: env where
  "idle_env = \<lparr>
     on_GetUpgradeAccelerator = (\<lambda>tr key. Inl not_found),
     on_UpdateStatus = (\<lambda>tr u. Inr (ResourceVersion (Metadata u))),
     on_GetInfrastructure = (\<lambda>tr key. Inl not_found),
     on_GetClusterOperator = (\<lambda>tr key. Inl not_found),
     on_GetClusterVersion = (\<lambda>tr key. Inl not_found),
     on_ListNodes = (\<lambda>tr labels. Inr []),
     on_ListMachineConfigPools = (\<lambda>tr. Inr []),
     on_GetNamespace = (\<lambda>tr key. Inl not_found),
     on_CreateNamespace = (\<lambda>tr ns. None),
     on_GetConfigMap = (\<lambda>tr key. Inl not_found),
     on_CreateConfigMap = (\<lambda>tr cm. None),
     on_UpdateConfigMap = (\<lambda>tr cm. None),
     on_GetJob = (\<lambda>tr key. Inl not_found),
     on_CreateJob = (\<lambda>tr job. None),
     on_ListJobs = (\<lambda>tr ns labels. Inr []),
     on_ListUpgradeAccelerators = (\<lambda>tr. Inr []),
     on_Exec = (\<lambda>tr cmd. quiet_process),
     time_Now = (\<lambda>tr. 0),
     map_range = (\<lambda>n tr keys. keys),
     mergo_Merge = (\<lambda>dst src. Inr (merge_missing dst src)),
     NewControllerRef = (\<lambda>meta apiVersion kind. \<lparr>or_APIVersion = apiVersion, or_Kind = kind,
                           or_Name = Name meta, or_UID = UID meta\<rparr>),
     ReadProxyVarsFromEnv = [],
     json_Error = (\<lambda>text. \<lparr>IsNotFound = False, Error = ''invalid JSON''\<rparr>)\<rparr>"

text \<open>A run that starts with nothing done and the object \<open>u\<close> in hand.\<close>

definition start :: "UpgradeAccelerator \<Rightarrow> go_state" where
  "start u = \<lparr>trace = [], obj = u\<rparr>"

end
