(* ===== verification/Conditions.thy ===== *)
theory Conditions
  imports Client
begin

text \<open>
  \<open>internal/controller/upgradeaccelerator_conditions.go\<close>: the condition list of the status.
  \<open>upsert_condition\<close> is the loop of \<open>appendCondition\<close> with the append after it,
  \<open>remove_condition\<close> the loop of \<open>deleteCondition\<close>; both functions then update the status.
  The locale \<open>condition_store\<close> is the contract the reconciler relies on: reading a reason
  back after setting or deleting a condition.
\<close>

section \<open>Types, reasons and messages\<close>

definition CONDITION_STATUS_TRUE :: string where
  "CONDITION_STATUS_TRUE = ''True''"

definition CONDITION_STATUS_FALSE :: string where
  "CONDITION_STATUS_FALSE = ''False''"

definition CONDITION_TYPE_FAILURE :: string where
  "CONDITION_TYPE_FAILURE = ''Failure''"

definition CONDITION_TYPE_SUCCESSFUL :: string where
  "CONDITION_TYPE_SUCCESSFUL = ''Successful''"

definition CONDITION_TYPE_COMPLETED :: string where
  "CONDITION_TYPE_COMPLETED = ''Completed''"

definition CONDITION_TYPE_RUNNING :: string where
  "CONDITION_TYPE_RUNNING = ''Running''"

definition CONDITION_TYPE_PRIMER :: string where
  "CONDITION_TYPE_PRIMER = ''Primer''"

definition CONDITION_TYPE_PRIMING_IN_PROGRESS :: string where
  "CONDITION_TYPE_PRIMING_IN_PROGRESS = ''PrimingInProgress''"

definition CONDITION_TYPE_INFRASTRUCTURE_FOUND :: string where
  "CONDITION_TYPE_INFRASTRUCTURE_FOUND = ''InfrastructureFound''"

definition CONDITION_TYPE_SETUP_COMPLETE :: string where
  "CONDITION_TYPE_SETUP_COMPLETE = ''SetupComplete''"

lemmas condition_type_defs = CONDITION_TYPE_FAILURE_def CONDITION_TYPE_SUCCESSFUL_def
  CONDITION_TYPE_COMPLETED_def CONDITION_TYPE_RUNNING_def CONDITION_TYPE_PRIMER_def
  CONDITION_TYPE_PRIMING_IN_PROGRESS_def CONDITION_TYPE_INFRASTRUCTURE_FOUND_def
  CONDITION_TYPE_SETUP_COMPLETE_def

definition CONDITION_REASON_FAILURE_GET_RELEASE_IMAGES :: string where
  "CONDITION_REASON_FAILURE_GET_RELEASE_IMAGES = ''GetReleaseImagesFailed''"

definition CONDITION_REASON_FAILURE_GET_CLUSTER_VERSION :: string where
  "CONDITION_REASON_FAILURE_GET_CLUSTER_VERSION = ''GetClusterVersionFailed''"

definition CONDITION_REASON_FAILURE_GET_MACHINECONFIGPOOLS :: string where
  "CONDITION_REASON_FAILURE_GET_MACHINECONFIGPOOLS = ''GetMachineConfigPoolsFailed''"

definition CONDITION_REASON_FAILURE_GET_NODES :: string where
  "CONDITION_REASON_FAILURE_GET_NODES = ''GetNodesFailed''"

definition CONDITION_REASON_FAILURE_GET_INFRASTRUCTURE :: string where
  "CONDITION_REASON_FAILURE_GET_INFRASTRUCTURE = ''GetInfrastructureFailed''"

definition CONDITION_REASON_FAILURE_SETUP :: string where
  "CONDITION_REASON_FAILURE_SETUP = ''SetupFailed''"

definition CONDITION_REASON_RUNNING_DISABLED :: string where
  "CONDITION_REASON_RUNNING_DISABLED = ''UpdateAcceleratorDisabled''"

definition CONDITION_REASON_RUNNING_NO_NODES_SELECTED :: string where
  "CONDITION_REASON_RUNNING_NO_NODES_SELECTED = ''NoNodesSelected''"

definition CONDITION_REASON_RUNNING_JOBS_SCHEDULED :: string where
  "CONDITION_REASON_RUNNING_JOBS_SCHEDULED = ''JobsScheduled''"

definition CONDITION_REASON_RUNNING_RECONCILIATION_COMPLETED :: string where
  "CONDITION_REASON_RUNNING_RECONCILIATION_COMPLETED = ''ReconciliationCompleted''"

definition CONDITION_REASON_PRIMER_COMPLETED :: string where
  "CONDITION_REASON_PRIMER_COMPLETED = ''PrimingCompleted''"

definition CONDITION_REASON_PRIMER_SKIPPED :: string where
  "CONDITION_REASON_PRIMER_SKIPPED = ''PrimingSkipped''"

definition CONDITION_REASON_PRIMER_IN_PROGRESS :: string where
  "CONDITION_REASON_PRIMER_IN_PROGRESS = ''PrimingInProgress''"

definition CONDITION_REASON_INFRASTRUCTURE_FOUND :: string where
  "CONDITION_REASON_INFRASTRUCTURE_FOUND = ''InfrastructureFound''"

definition CONDITION_REASON_INFRASTRUCTURE_NOT_FOUND :: string where
  "CONDITION_REASON_INFRASTRUCTURE_NOT_FOUND = ''InfrastructureNotFound''"

definition CONDITION_REASON_SETUP_COMPLETED :: string where
  "CONDITION_REASON_SETUP_COMPLETED = ''AllSetupComplete''"

definition CONDITION_REASON_SETUP_NAMESPACE_FAILURE :: string where
  "CONDITION_REASON_SETUP_NAMESPACE_FAILURE = ''NamespaceFailure''"

definition CONDITION_REASON_SETUP_CONFIGMAP_FAILURE :: string where
  "CONDITION_REASON_SETUP_CONFIGMAP_FAILURE = ''ConfigMapFailure''"

definition CONDITION_MESSAGE_COMPLETED :: string where
  "CONDITION_MESSAGE_COMPLETED = ''All targeted nodes have completed''"

lemmas condition_reason_defs = CONDITION_REASON_PRIMER_COMPLETED_def
  CONDITION_REASON_PRIMER_SKIPPED_def CONDITION_REASON_PRIMER_IN_PROGRESS_def

section \<open>The list operations\<close>

definition mk_condition :: "string \<Rightarrow> string \<Rightarrow> string \<Rightarrow> string \<Rightarrow> int \<Rightarrow> Condition" where
  "mk_condition typeName status reason message now =
     \<lparr>cond_Type = typeName, cond_Status = status, cond_Reason = reason, cond_Message = message,
      cond_LastTransitionTime = now\<rparr>"

text \<open>
  The first condition of the type is replaced when status, reason or message differ and kept
  with its transition time otherwise; without one the condition is appended.
\<close>

fun upsert_condition :: "Condition \<Rightarrow> Condition list \<Rightarrow> Condition list" where
  "upsert_condition condition [] = [condition]"
| "upsert_condition condition (cond # rest) =
     (if cond_Type cond = cond_Type condition
      then (if cond_Status cond \<noteq> cond_Status condition \<or> cond_Reason cond \<noteq> cond_Reason condition
               \<or> cond_Message cond \<noteq> cond_Message condition
            then condition # rest else cond # rest)
      else cond # upsert_condition condition rest)"

definition remove_condition :: "string \<Rightarrow> Condition list \<Rightarrow> Condition list" where
  "remove_condition typeName conds = filter (\<lambda>condition. cond_Type condition \<noteq> typeName) conds"

fun condition_reason :: "Condition list \<Rightarrow> string \<Rightarrow> string" where
  "condition_reason [] typeName = []"
| "condition_reason (condition # rest) typeName =
     (if cond_Type condition = typeName then cond_Reason condition
      else condition_reason rest typeName)"

section \<open>The reconciler's methods\<close>

definition appendCondition ::
  "env \<Rightarrow> string \<Rightarrow> string \<Rightarrow> string \<Rightarrow> string \<Rightarrow> error option go" where
  "appendCondition E typeName status reason message = do {
     tr \<leftarrow> get_trace;
     let condition = mk_condition typeName status reason message (time_Now E tr);
     modify_status (\<lambda>st. st\<lparr>Conditions := upsert_condition condition (Conditions st)\<rparr>);
     Status_Update E
   }"

definition deleteCondition :: "env \<Rightarrow> string \<Rightarrow> error option go" where
  "deleteCondition E typeName = do {
     modify_status (\<lambda>st. st\<lparr>Conditions := remove_condition typeName (Conditions st)\<rparr>);
     Status_Update E
   }"

text \<open>The loop of \<open>deleteConditions\<close> overwrites \<open>err\<close>: the last update's error is returned.\<close>

fun deleteConditions_loop :: "env \<Rightarrow> string list \<Rightarrow> error option \<Rightarrow> error option go" where
  "deleteConditions_loop E [] err = State_Monad.return err"
| "deleteConditions_loop E (typeName # typeNames) err = do {
     err' \<leftarrow> deleteCondition E typeName;
     deleteConditions_loop E typeNames err'
   }"

definition deleteConditions :: "env \<Rightarrow> string list \<Rightarrow> error option go" where
  "deleteConditions E typeNames = deleteConditions_loop E typeNames None"

definition getConditionReason :: "UpgradeAccelerator \<Rightarrow> string \<Rightarrow> string" where
  "getConditionReason upgradeAccelerator typeName =
     condition_reason (Conditions (Status upgradeAccelerator)) typeName"

definition setConditionFailure :: "env \<Rightarrow> string \<Rightarrow> string \<Rightarrow> error option go" where
  "setConditionFailure E reason errorMessage =
     appendCondition E CONDITION_TYPE_FAILURE CONDITION_STATUS_TRUE reason errorMessage"

definition setConditionInfrastructureFound :: "env \<Rightarrow> string \<Rightarrow> error option go" where
  "setConditionInfrastructureFound E infrastructureType =
     appendCondition E CONDITION_TYPE_INFRASTRUCTURE_FOUND CONDITION_STATUS_TRUE
       CONDITION_REASON_INFRASTRUCTURE_FOUND (''Platform Type: '' @ infrastructureType)"

definition setConditionInfrastructureNotFound :: "env \<Rightarrow> error \<Rightarrow> error option go" where
  "setConditionInfrastructureNotFound E inErr =
     appendCondition E CONDITION_TYPE_INFRASTRUCTURE_FOUND CONDITION_STATUS_FALSE
       CONDITION_REASON_INFRASTRUCTURE_NOT_FOUND (Error inErr)"

definition setConditionCompleted :: "env \<Rightarrow> string \<Rightarrow> error option go" where
  "setConditionCompleted E message =
     appendCondition E CONDITION_TYPE_COMPLETED CONDITION_STATUS_TRUE
       CONDITION_REASON_RUNNING_RECONCILIATION_COMPLETED message"

definition setConditionRunning :: "env \<Rightarrow> string \<Rightarrow> string \<Rightarrow> error option go" where
  "setConditionRunning E reason message =
     appendCondition E CONDITION_TYPE_RUNNING CONDITION_STATUS_TRUE reason message"

definition setConditionNotRunning :: "env \<Rightarrow> string \<Rightarrow> string \<Rightarrow> error option go" where
  "setConditionNotRunning E reason message =
     appendCondition E CONDITION_TYPE_RUNNING CONDITION_STATUS_FALSE reason message"

definition setConditionPrimerCompleted :: "env \<Rightarrow> string \<Rightarrow> error option go" where
  "setConditionPrimerCompleted E message =
     appendCondition E CONDITION_TYPE_PRIMER CONDITION_STATUS_TRUE
       CONDITION_REASON_PRIMER_COMPLETED message"

definition setConditionPrimerInProgress :: "env \<Rightarrow> string \<Rightarrow> error option go" where
  "setConditionPrimerInProgress E message =
     appendCondition E CONDITION_TYPE_PRIMER CONDITION_STATUS_TRUE
       CONDITION_REASON_PRIMER_IN_PROGRESS message"

definition setConditionPrimerSkipped :: "env \<Rightarrow> string \<Rightarrow> error option go" where
  "setConditionPrimerSkipped E message =
     appendCondition E CONDITION_TYPE_PRIMER CONDITION_STATUS_FALSE
       CONDITION_REASON_PRIMER_SKIPPED message"

definition setConditionSetupComplete :: "env \<Rightarrow> error option go" where
  "setConditionSetupComplete E =
     appendCondition E CONDITION_TYPE_SETUP_COMPLETE CONDITION_STATUS_TRUE
       CONDITION_REASON_SETUP_COMPLETED ''All setup tasks completed successfully''"

definition setConditionSetupNamespaceFailure :: "env \<Rightarrow> string \<Rightarrow> error option go" where
  "setConditionSetupNamespaceFailure E message =
     appendCondition E CONDITION_TYPE_SETUP_COMPLETE CONDITION_STATUS_FALSE
       CONDITION_REASON_SETUP_NAMESPACE_FAILURE message"

definition setConditionSetupConfigMapFailure :: "env \<Rightarrow> string \<Rightarrow> error option go" where
  "setConditionSetupConfigMapFailure E message =
     appendCondition E CONDITION_TYPE_SETUP_COMPLETE CONDITION_STATUS_FALSE
       CONDITION_REASON_SETUP_CONFIGMAP_FAILURE message"

lemmas set_condition_defs = setConditionFailure_def setConditionInfrastructureFound_def
  setConditionInfrastructureNotFound_def setConditionCompleted_def setConditionRunning_def
  setConditionNotRunning_def setConditionPrimerCompleted_def setConditionPrimerInProgress_def
  setConditionPrimerSkipped_def setConditionSetupComplete_def
  setConditionSetupNamespaceFailure_def setConditionSetupConfigMapFailure_def

section \<open>What the list operations do\<close>

lemma condition_reason_upsert_same [simp]:
  "condition_reason (upsert_condition c conds) (cond_Type c) = cond_Reason c"
  by (induction conds) auto

lemma condition_reason_upsert_other [simp]:
  "t \<noteq> cond_Type c \<Longrightarrow> condition_reason (upsert_condition c conds) t = condition_reason conds t"
  by (induction conds) auto

lemma condition_reason_remove_same [simp]: "condition_reason (remove_condition t conds) t = []"
  by (induction conds) (auto simp: remove_condition_def)

lemma condition_reason_remove_other [simp]:
  "t \<noteq> t' \<Longrightarrow> condition_reason (remove_condition t' conds) t = condition_reason conds t"
  by (induction conds) (auto simp: remove_condition_def)

lemma types_upsert:
  "map cond_Type (upsert_condition c conds) =
     (if cond_Type c \<in> cond_Type ` set conds then map cond_Type conds
      else map cond_Type conds @ [cond_Type c])"
  by (induction conds) auto

lemma types_remove:
  "map cond_Type (remove_condition t conds) = filter (\<lambda>t'. t' \<noteq> t) (map cond_Type conds)"
  by (simp add: remove_condition_def filter_map comp_def)

text \<open>
  Setting a condition again with the same status, reason and message changes nothing,
  whatever the clock says: the transition time of the first setting stays.
\<close>

lemma upsert_condition_repeat:
  assumes "cond_Type c' = cond_Type c" and "cond_Status c' = cond_Status c"
    and "cond_Reason c' = cond_Reason c" and "cond_Message c' = cond_Message c"
  shows "upsert_condition c' (upsert_condition c conds) = upsert_condition c conds"
  using assms by (induction conds) auto

section \<open>The contract of the condition list\<close>

locale condition_store =
  fixes put :: "Condition \<Rightarrow> 's \<Rightarrow> 's"
    and del :: "string \<Rightarrow> 's \<Rightarrow> 's"
    and reason :: "'s \<Rightarrow> string \<Rightarrow> string"
  assumes reason_put_same: "reason (put c s) (cond_Type c) = cond_Reason c"
    and reason_put_other: "t \<noteq> cond_Type c \<Longrightarrow> reason (put c s) t = reason s t"
    and reason_del_same: "reason (del t s) t = []"
    and reason_del_other: "t \<noteq> t' \<Longrightarrow> reason (del t' s) t = reason s t"
begin

lemma reason_dels: "reason (fold del ts s) t = (if t \<in> set ts then [] else reason s t)"
proof (induction ts arbitrary: s)
  case (Cons t' ts)
  then show ?case by (cases "t = t'") (auto simp: reason_del_same reason_del_other)
qed simp

lemma reason_put_dels:
  "cond_Type c \<notin> set ts \<Longrightarrow> reason (fold del ts (put c s)) (cond_Type c) = cond_Reason c"
  by (simp add: reason_dels reason_put_same)

end

interpretation cond_list: condition_store upsert_condition remove_condition condition_reason
  by unfold_locales simp_all

section \<open>What the methods do to the held object\<close>

definition map_Conditions ::
  "(Condition list \<Rightarrow> Condition list) \<Rightarrow> UpgradeAccelerator \<Rightarrow> UpgradeAccelerator" where
  "map_Conditions f u = u\<lparr>Status := Status u\<lparr>Conditions := f (Conditions (Status u))\<rparr>\<rparr>"

lemma map_Conditions_simps [simp]:
  "Conditions (Status (map_Conditions f u)) = f (Conditions (Status u))"
  "Spec (map_Conditions f u) = Spec u"
  "Metadata (map_Conditions f u) = Metadata u"
  "NodesSelected (Status (map_Conditions f u)) = NodesSelected (Status u)"
  "NodesPreheated (Status (map_Conditions f u)) = NodesPreheated (Status u)"
  "NodesWarming (Status (map_Conditions f u)) = NodesWarming (Status u)"
  "NodesWaiting (Status (map_Conditions f u)) = NodesWaiting (Status u)"
  "PrimerNodes (Status (map_Conditions f u)) = PrimerNodes (Status u)"
  "CurrentVersion (Status (map_Conditions f u)) = CurrentVersion (Status u)"
  "TargetVersion (Status (map_Conditions f u)) = TargetVersion (Status u)"
  "DesiredVersion (Status (map_Conditions f u)) = DesiredVersion (Status u)"
  "DesiredImage (Status (map_Conditions f u)) = DesiredImage (Status u)"
  "LastCompletedVersion (Status (map_Conditions f u)) = LastCompletedVersion (Status u)"
  "ClusterInfrastructure (Status (map_Conditions f u)) = ClusterInfrastructure (Status u)"
  by (simp_all add: map_Conditions_def)

lemma map_Conditions_comp: "map_Conditions f (map_Conditions g u) = map_Conditions (f \<circ> g) u"
  by (simp add: map_Conditions_def)

lemma map_Conditions_set_ResourceVersion:
  "map_Conditions f (set_ResourceVersion rv u) = set_ResourceVersion rv (map_Conditions f u)"
  by (simp add: map_Conditions_def set_ResourceVersion_def)

lemma sans_rv_map_Conditions [simp]: "sans_rv (map_Conditions f u) = map_Conditions f (sans_rv u)"
  by (simp add: map_Conditions_def sans_rv_def set_ResourceVersion_def)

text \<open>Each sends one update, with the new list, and leaves that object up to its version.\<close>

lemma run_Status_Update_obj:
  "run_state (Status_Update E) s = (r, s') \<Longrightarrow>
     trace s' = trace s @ [UpdateStatus (obj s)] \<and> sans_rv (obj s') = sans_rv (obj s)"
  by (auto simp: run_Status_Update sans_rv_def set_ResourceVersion_def split: sum.splits)

lemma run_appendCondition:
  assumes "run_state (appendCondition E typeName status reason message) s = (r, s')"
  defines "c \<equiv> mk_condition typeName status reason message (time_Now E (trace s))"
  shows "trace s' = trace s @ [UpdateStatus (map_Conditions (upsert_condition c) (obj s))] \<and>
         sans_rv (obj s') = map_Conditions (upsert_condition c) (sans_rv (obj s))"
proof -
  have "run_state (Status_Update E) (s\<lparr>obj := map_Conditions (upsert_condition c) (obj s)\<rparr>) = (r, s')"
    using assms by (simp add: appendCondition_def Let_def map_Conditions_def)
  from run_Status_Update_obj [OF this] show ?thesis by simp
qed

lemma run_deleteCondition:
  assumes "run_state (deleteCondition E typeName) s = (r, s')"
  shows "trace s' = trace s @ [UpdateStatus (map_Conditions (remove_condition typeName) (obj s))] \<and>
         sans_rv (obj s') = map_Conditions (remove_condition typeName) (sans_rv (obj s))"
proof -
  have "run_state (Status_Update E) (s\<lparr>obj := map_Conditions (remove_condition typeName) (obj s)\<rparr>) = (r, s')"
    using assms by (simp add: deleteCondition_def map_Conditions_def)
  from run_Status_Update_obj [OF this] show ?thesis by simp
qed

lemma run_deleteConditions_loop:
  "run_state (deleteConditions_loop E ts err) s = (r, s') \<Longrightarrow>
     length (trace s') = length (trace s) + length ts \<and>
     sans_rv (obj s') = map_Conditions (fold remove_condition ts) (sans_rv (obj s))"
proof (induction ts arbitrary: s err)
  case Nil
  then show ?case by (simp add: map_Conditions_def)
next
  case (Cons t ts)
  obtain e s1 where one: "run_state (deleteCondition E t) s = (e, s1)" by fastforce
  with Cons.prems have rest: "run_state (deleteConditions_loop E ts e) s1 = (r, s')" by simp
  from run_deleteCondition [OF one] Cons.IH [OF rest] show ?case
    by (simp add: map_Conditions_comp)
qed

lemma run_deleteConditions:
  "run_state (deleteConditions E ts) s = (r, s') \<Longrightarrow>
     sans_rv (obj s') = map_Conditions (fold remove_condition ts) (sans_rv (obj s))"
  using run_deleteConditions_loop by (auto simp: deleteConditions_def)

text \<open>The reasons read back after the methods, whether or not the update went through.\<close>

lemma getConditionReason_appendCondition:
  assumes "run_state (appendCondition E typeName status reason message) s = (r, s')"
  shows "getConditionReason (obj s') = (getConditionReason (obj s))(typeName := reason)"
proof (rule ext)
  fix t
  let ?c = "mk_condition typeName status reason message (time_Now E (trace s))"
  have "Status (obj s') = Status (map_Conditions (upsert_condition ?c) (obj s))"
    using run_appendCondition [OF assms]
    by (metis sans_rv_map_Conditions sans_rv_simps(3))
  moreover have "cond_Type ?c = typeName" "cond_Reason ?c = reason"
    by (simp_all add: mk_condition_def)
  ultimately show "getConditionReason (obj s') t = ((getConditionReason (obj s))(typeName := reason)) t"
    using cond_list.reason_put_same [of ?c] cond_list.reason_put_other [of t ?c]
    by (simp add: getConditionReason_def)
qed

lemma getConditionReason_deleteConditions:
  assumes "run_state (deleteConditions E ts) s = (r, s')"
  shows "getConditionReason (obj s') = (\<lambda>t. if t \<in> set ts then [] else getConditionReason (obj s) t)"
proof -
  have "Status (obj s') = Status (map_Conditions (fold remove_condition ts) (obj s))"
    using run_deleteConditions [OF assms]
    by (metis sans_rv_map_Conditions sans_rv_simps(3))
  then show ?thesis by (simp add: getConditionReason_def cond_list.reason_dels fun_eq_iff)
qed

text \<open>All the methods do besides: they send status updates and touch nothing but the conditions.\<close>

definition only_conditions :: "go_state \<Rightarrow> go_state \<Rightarrow> bool" where
  "only_conditions s s' \<longleftrightarrow>
     (\<exists>conds. Status (obj s') = (Status (obj s))\<lparr>Conditions := conds\<rparr>) \<and>
     Spec (obj s') = Spec (obj s) \<and> (\<exists>us. trace s' = trace s @ map UpdateStatus us)"

lemma only_conditionsD:
  assumes "only_conditions s s'"
  shows "NodesSelected (Status (obj s')) = NodesSelected (Status (obj s))"
    "NodesPreheated (Status (obj s')) = NodesPreheated (Status (obj s))"
    "NodesWarming (Status (obj s')) = NodesWarming (Status (obj s))"
    "NodesWaiting (Status (obj s')) = NodesWaiting (Status (obj s))"
    "PrimerNodes (Status (obj s')) = PrimerNodes (Status (obj s))"
    "DesiredVersion (Status (obj s')) = DesiredVersion (Status (obj s))"
    "TargetVersion (Status (obj s')) = TargetVersion (Status (obj s))"
    "LastCompletedVersion (Status (obj s')) = LastCompletedVersion (Status (obj s))"
    "Spec (obj s') = Spec (obj s)"
  using assms by (auto simp: only_conditions_def)

lemma only_conditions_trans:
  assumes "only_conditions s t" and "only_conditions t u"
  shows "only_conditions s u"
proof -
  from assms obtain c d us vs where
    "Status (obj t) = (Status (obj s))\<lparr>Conditions := c\<rparr>"
    "Status (obj u) = (Status (obj t))\<lparr>Conditions := d\<rparr>"
    "Spec (obj t) = Spec (obj s)" "Spec (obj u) = Spec (obj t)"
    "trace t = trace s @ map UpdateStatus us" "trace u = trace t @ map UpdateStatus vs"
    by (auto simp: only_conditions_def)
  then have "Status (obj u) = (Status (obj s))\<lparr>Conditions := d\<rparr>" "Spec (obj u) = Spec (obj s)"
    "trace u = trace s @ map UpdateStatus (us @ vs)" by simp_all
  then show ?thesis unfolding only_conditions_def by blast
qed

lemma only_conditions_refl [simp]: "only_conditions s s"
proof -
  have "Status (obj s) = (Status (obj s))\<lparr>Conditions := Conditions (Status (obj s))\<rparr>" by simp
  moreover have "trace s = trace s @ map UpdateStatus []" by simp
  ultimately show ?thesis unfolding only_conditions_def by blast
qed

lemma only_conditions_update:
  assumes "trace s' = trace s @ [UpdateStatus u]"
    and "sans_rv (obj s') = map_Conditions f (sans_rv (obj s))"
  shows "only_conditions s s'"
proof -
  have "Status (obj s') = Status (map_Conditions f (obj s))" "Spec (obj s') = Spec (obj s)"
    using sans_rv_eqD [of "obj s'" "map_Conditions f (obj s)"] assms(2) by auto
  then have "Status (obj s') = (Status (obj s))\<lparr>Conditions := f (Conditions (Status (obj s)))\<rparr>"
    by (simp add: map_Conditions_def)
  moreover have "trace s' = trace s @ map UpdateStatus [u]" using assms(1) by simp
  ultimately show ?thesis using \<open>Spec (obj s') = Spec (obj s)\<close> unfolding only_conditions_def by blast
qed

lemma only_conditions_appendCondition:
  "run_state (appendCondition E typeName status reason message) s = (r, s') \<Longrightarrow> only_conditions s s'"
  by (drule run_appendCondition) (auto intro: only_conditions_update)

lemma only_conditions_deleteConditions:
  assumes "run_state (deleteConditions E ts) s = (r, s')"
  shows "only_conditions s s'"
proof -
  have "run_state (deleteConditions_loop E ts err) s = (r, s') \<Longrightarrow> only_conditions s s'" for err s
  proof (induction ts arbitrary: err s)
    case (Cons t ts)
    obtain e s1 where one: "run_state (deleteCondition E t) s = (e, s1)" by fastforce
    with Cons.prems have "run_state (deleteConditions_loop E ts e) s1 = (r, s')" by simp
    from Cons.IH [OF this] run_deleteCondition [OF one] show ?case
      by (blast intro: only_conditions_trans only_conditions_update)
  qed simp
  with assms show ?thesis by (simp add: deleteConditions_def)
qed

lemmas only_conditions_intros = only_conditions_appendCondition only_conditions_deleteConditions

section \<open>Invariants of the methods\<close>

text \<open>
  The obligations of an invariant of the run: it survives a status update and the two list
  operations on the conditions. Under this contract every method of this file keeps it.
\<close>

locale status_invariant =
  fixes E :: env and I :: "go_state \<Rightarrow> bool"
  assumes I_Status_Update: "keeps I (Status_Update E)"
    and I_upsert: "keeps I (modify_status (\<lambda>st. st\<lparr>Conditions := upsert_condition c (Conditions st)\<rparr>))"
    and I_remove: "keeps I (modify_status (\<lambda>st. st\<lparr>Conditions := remove_condition t (Conditions st)\<rparr>))"
begin

lemma I_appendCondition: "keeps I (appendCondition E typeName status reason message)"
  unfolding appendCondition_def Let_def
  by (intro keeps_bind keeps_get_trace I_upsert I_Status_Update)

lemma I_deleteCondition: "keeps I (deleteCondition E typeName)"
  unfolding deleteCondition_def by (intro keeps_bind I_remove I_Status_Update)

lemma I_deleteConditions: "keeps I (deleteConditions E typeNames)"
proof -
  have "keeps I (deleteConditions_loop E typeNames err)" for err
    by (induction typeNames arbitrary: err) (auto intro!: keeps_rules I_deleteCondition)
  then show ?thesis by (simp add: deleteConditions_def)
qed

lemmas I_rules = keeps_rules I_Status_Update I_appendCondition I_deleteConditions

end

text \<open>
  A first instance: no two conditions of one type, in the held object and in every status
  sent to the API server.
\<close>

definition distinct_types :: "UpgradeAccelerator \<Rightarrow> bool" where
  "distinct_types u \<longleftrightarrow> distinct (map cond_Type (Conditions (Status u)))"

fun sends_distinct_types :: "api_call \<Rightarrow> bool" where
  "sends_distinct_types (UpdateStatus u) = distinct_types u"
| "sends_distinct_types _ = True"

lemma distinct_types_upsert:
  "distinct (map cond_Type conds) \<Longrightarrow> distinct (map cond_Type (upsert_condition c conds))"
  by (auto simp: types_upsert)

lemma distinct_types_remove:
  "distinct (map cond_Type conds) \<Longrightarrow> distinct (map cond_Type (remove_condition t conds))"
  by (simp add: types_remove)

abbreviation unique_types_sent :: "go_state \<Rightarrow> bool" where
  "unique_types_sent \<equiv> calls_ok sends_distinct_types distinct_types"

interpretation unique_types: status_invariant E unique_types_sent for E
  by unfold_locales
     (auto simp: distinct_types_def intro!: keeps_Status_Update keeps_modify_status
        intro: distinct_types_upsert distinct_types_remove)

section \<open>The effect of setting a condition\<close>

lemma Status_map_Conditions_obj:
  assumes "sans_rv (obj s') = map_Conditions f (sans_rv (obj s))"
  shows "Status (obj s') = Status (map_Conditions f (obj s))"
  using assms by (metis sans_rv_map_Conditions sans_rv_simps(3))

lemma upsert_condition_others:
  "filter (\<lambda>x. cond_Type x \<noteq> cond_Type c) (upsert_condition c conds) =
   filter (\<lambda>x. cond_Type x \<noteq> cond_Type c) conds"
  by (induction conds) auto

text \<open>C32: appendCondition sends one status update; in the sent status the reason of the
given type is the given one, the conditions of all other types are as before and in the same
order, and no other field of the status has changed.\<close>

theorem appendCondition_effect:
  assumes "run_state (appendCondition E typeName status reason message) s = (r, s')"
  shows "\<exists>u. trace s' = trace s @ [UpdateStatus u] \<and> Status (obj s') = Status u \<and>
           getConditionReason u = (getConditionReason (obj s))(typeName := reason) \<and>
           filter (\<lambda>c. cond_Type c \<noteq> typeName) (Conditions (Status u)) =
             filter (\<lambda>c. cond_Type c \<noteq> typeName) (Conditions (Status (obj s))) \<and>
           Status u\<lparr>Conditions := []\<rparr> = Status (obj s)\<lparr>Conditions := []\<rparr>"
proof -
  let ?c = "mk_condition typeName status reason message (time_Now E (trace s))"
  let ?u = "map_Conditions (upsert_condition ?c) (obj s)"
  note run = run_appendCondition [OF assms]
  have st: "Status (obj s') = Status ?u" using run by (intro Status_map_Conditions_obj) simp
  moreover have "getConditionReason ?u = getConditionReason (obj s')"
    using st by (simp add: getConditionReason_def fun_eq_iff)
  moreover have "filter (\<lambda>c. cond_Type c \<noteq> typeName) (Conditions (Status ?u)) =
      filter (\<lambda>c. cond_Type c \<noteq> typeName) (Conditions (Status (obj s)))"
    using upsert_condition_others [of ?c] by (simp add: mk_condition_def)
  moreover have "Status ?u\<lparr>Conditions := []\<rparr> = Status (obj s)\<lparr>Conditions := []\<rparr>"
    by (simp add: map_Conditions_def)
  ultimately show ?thesis
    using run getConditionReason_appendCondition [OF assms] by (intro exI [of _ ?u]) simp
qed

text \<open>Appending the same condition twice in a row leaves the conditions, transition
time included, as the first call left them, whatever the clock says.\<close>

theorem appendCondition_keeps_time:
  assumes "run_state (appendCondition E typeName status reason message) s = (r1, s1)"
    and "run_state (appendCondition E' typeName status reason message) s1 = (r2, s2)"
  shows "Conditions (Status (obj s2)) = Conditions (Status (obj s1))"
proof -
  let ?c = "\<lambda>t. mk_condition typeName status reason message t"
  have "Status (obj s1) = Status (map_Conditions (upsert_condition (?c (time_Now E (trace s)))) (obj s))"
    using run_appendCondition [OF assms(1)] by (intro Status_map_Conditions_obj) simp
  moreover have
    "Status (obj s2) = Status (map_Conditions (upsert_condition (?c (time_Now E' (trace s1)))) (obj s1))"
    using run_appendCondition [OF assms(2)] by (intro Status_map_Conditions_obj) simp
  ultimately show ?thesis
    using upsert_condition_repeat [of "?c (time_Now E' (trace s1))" "?c (time_Now E (trace s))"]
    by (simp add: mk_condition_def)
qed

theorem appendCondition_effect_witness:
  "\<exists>u. trace (snd (run_state (appendCondition idle_env ''A'' ''True'' ''r'' ''m'')
                     (start zero_UpgradeAccelerator))) = [UpdateStatus u] \<and>
       getConditionReason u = (getConditionReason zero_UpgradeAccelerator)(''A'' := ''r'')"
  using appendCondition_effect [of idle_env "''A''" "''True''" "''r''" "''m''" "start zero_UpgradeAccelerator",
      OF surjective_pairing]
  by (auto simp: start_def)

theorem appendCondition_keeps_time_witness:
  "Conditions (Status (obj (snd (run_state (appendCondition (idle_env\<lparr>time_Now := (\<lambda>tr. 7)\<rparr>)
        ''A'' ''True'' ''r'' ''m'')
      (snd (run_state (appendCondition idle_env ''A'' ''True'' ''r'' ''m'')
        (start zero_UpgradeAccelerator))))))) =
   Conditions (Status (obj (snd (run_state (appendCondition idle_env ''A'' ''True'' ''r'' ''m'')
        (start zero_UpgradeAccelerator)))))"
  by (rule appendCondition_keeps_time [OF surjective_pairing surjective_pairing])

end
