(* ===== verification/Json.thy ===== *)
theory Json
  imports Client
begin

text \<open>
  The part of package \<open>encoding/json\<close> the program uses: \<open>json.Unmarshal\<close> into a list of
  \<open>ReleaseImageTags\<close> and \<open>json.Marshal\<close> of one, over strings of bytes. Parsing is a scan into
  tokens followed by a push-down automaton, so both are structural recursions; the nesting limit
  is the library's. The last section proves the round trip.
\<close>

section \<open>UTF-8\<close>

definition byte_in :: "char \<Rightarrow> nat \<Rightarrow> nat \<Rightarrow> bool" where
  "byte_in c lo hi \<longleftrightarrow> lo \<le> (of_char c :: nat) \<and> (of_char c :: nat) \<le> hi"

text \<open>
  The number of bytes of the well-formed encoding a string begins with (\<open>utf8.DecodeRune\<close>), 0
  when it begins with none. Overlong forms, surrogates and values above U+10FFFF are excluded.
\<close>

definition two_bytes :: "char \<Rightarrow> char \<Rightarrow> bool" where
  "two_bytes a b \<longleftrightarrow> byte_in a 0xC2 0xDF \<and> byte_in b 0x80 0xBF"

definition three_bytes :: "char \<Rightarrow> char \<Rightarrow> char \<Rightarrow> bool" where
  "three_bytes a b c \<longleftrightarrow>
     (byte_in a 0xE0 0xE0 \<and> byte_in b 0xA0 0xBF \<or> byte_in a 0xE1 0xEC \<and> byte_in b 0x80 0xBF
      \<or> byte_in a 0xED 0xED \<and> byte_in b 0x80 0x9F \<or> byte_in a 0xEE 0xEF \<and> byte_in b 0x80 0xBF)
     \<and> byte_in c 0x80 0xBF"

definition four_bytes :: "char \<Rightarrow> char \<Rightarrow> char \<Rightarrow> char \<Rightarrow> bool" where
  "four_bytes a b c d \<longleftrightarrow>
     (byte_in a 0xF0 0xF0 \<and> byte_in b 0x90 0xBF \<or> byte_in a 0xF1 0xF3 \<and> byte_in b 0x80 0xBF
      \<or> byte_in a 0xF4 0xF4 \<and> byte_in b 0x80 0x8F)
     \<and> byte_in c 0x80 0xBF \<and> byte_in d 0x80 0xBF"

fun utf8_size :: "string \<Rightarrow> nat" where
  "utf8_size [] = 0"
| "utf8_size (a # s) =
     (if byte_in a 0 127 then 1
      else case s of [] \<Rightarrow> 0 | b # s \<Rightarrow>
        if two_bytes a b then 2
        else case s of [] \<Rightarrow> 0 | c # s \<Rightarrow>
          if three_bytes a b c then 3
          else case s of [] \<Rightarrow> 0 | d # _ \<Rightarrow> if four_bytes a b c d then 4 else 0)"

text \<open>The encoding of U+FFFD, which stands for what cannot be decoded, and of a code point.\<close>

definition RuneError :: string where
  "RuneError = map char_of [0xEF, 0xBF, 0xBD :: nat]"

definition encode_rune :: "nat \<Rightarrow> string" where
  "encode_rune r =
     (if r < 0x80 then [char_of r]
      else if r < 0x800 then [char_of (0xC0 + r div 64), char_of (0x80 + r mod 64)]
      else if 0xD800 \<le> r \<and> r \<le> 0xDFFF \<or> r > 0x10FFFF then RuneError
      else if r < 0x10000 then
        [char_of (0xE0 + r div 4096), char_of (0x80 + r div 64 mod 64), char_of (0x80 + r mod 64)]
      else [char_of (0xF0 + r div 262144), char_of (0x80 + r div 4096 mod 64),
            char_of (0x80 + r div 64 mod 64), char_of (0x80 + r mod 64)])"

section \<open>Marshalling\<close>

definition hex_lower :: "nat \<Rightarrow> char" where
  "hex_lower n = ''0123456789abcdef'' ! n"

text \<open>
  A string literal: the characters \<open>encoding/json\<close> escapes are the quote, the backslash, control
  characters, the three that are special in HTML, and the line separators U+2028 and U+2029.
\<close>

definition escape_byte :: "char \<Rightarrow> string" where
  "escape_byte c =
     (if c = CHR 0x22 \<or> c = CHR 0x5C then [CHR 0x5C, c]
      else if c = CHR 0x08 then [CHR 0x5C, CHR ''b'']
      else if c = CHR 0x0C then [CHR 0x5C, CHR ''f'']
      else if c = CHR 0x0A then [CHR 0x5C, CHR ''n'']
      else if c = CHR 0x0D then [CHR 0x5C, CHR ''r'']
      else if c = CHR 0x09 then [CHR 0x5C, CHR ''t'']
      else if byte_in c 0 31 \<or> c = CHR ''<'' \<or> c = CHR ''>'' \<or> c = CHR ''&''
      then [CHR 0x5C, CHR ''u'', CHR ''0'', CHR ''0'', hex_lower (of_char c div 16), hex_lower (of_char c mod 16)]
      else [c])"

definition escape_rune :: "string \<Rightarrow> string" where
  "escape_rune r =
     (if r = map char_of [0xE2, 0x80, 0xA8 :: nat] then [CHR 0x5C] @ ''u2028''
      else if r = map char_of [0xE2, 0x80, 0xA9 :: nat] then [CHR 0x5C] @ ''u2029''
      else r)"

function escape_string :: "string \<Rightarrow> string" where
  "escape_string [] = []"
| "escape_string (c # s) =
     (if byte_in c 0 127 then escape_byte c @ escape_string s
      else if utf8_size (c # s) = 0 then [CHR 0x5C] @ ''ufffd'' @ escape_string s
      else escape_rune (take (utf8_size (c # s)) (c # s)) @ escape_string (drop (utf8_size (c # s)) (c # s)))"
  by pat_completeness auto
termination by (relation "measure length") auto

definition json_string :: "string \<Rightarrow> string" where
  "json_string s = [CHR 0x22] @ escape_string s @ [CHR 0x22]"

definition marshal_item :: "ReleaseImageTags \<Rightarrow> string" where
  "marshal_item t =
     [CHR ''{''] @ json_string ''name'' @ [CHR '':''] @ json_string (rit_Name t) @ [CHR '',''] @
     json_string ''from'' @ [CHR '':''] @ json_string (rit_From t) @ [CHR ''}'']"

definition json_Marshal :: "ReleaseImageTags list option \<Rightarrow> string" where
  "json_Marshal imgs =
     (case imgs of
        None \<Rightarrow> ''null''
      | Some xs \<Rightarrow> [CHR ''[''] @ strings_Join (map marshal_item xs) '','' @ [CHR '']''])"

section \<open>Tokens\<close>

datatype token =
    LBrace | RBrace | LBracket | RBracket | Comma | Colon
  | StringToken string | NumberToken | NullToken | BoolToken

definition is_digit :: "char \<Rightarrow> bool" where
  "is_digit c = byte_in c 48 57"

definition hex_value :: "char \<Rightarrow> nat option" where
  "hex_value c =
     (if is_digit c then Some (of_char c - 48)
      else if byte_in c 97 102 then Some (of_char c - 87)
      else if byte_in c 65 70 then Some (of_char c - 55)
      else None)"

definition is_hex :: "char \<Rightarrow> bool" where
  "is_hex c \<longleftrightarrow> hex_value c \<noteq> None"

definition is_simple_escape :: "char \<Rightarrow> bool" where
  "is_simple_escape d \<longleftrightarrow>
     d \<in> set [CHR ''b'', CHR ''f'', CHR ''n'', CHR ''r'', CHR ''t'', CHR 0x5C, CHR ''/'', CHR 0x22]"

text \<open>A string literal after its opening quote: its raw content and the text after it.\<close>

fun scan_string :: "string \<Rightarrow> (string \<times> string) option" where
  "scan_string [] = None"
| "scan_string (c # s) =
     (if c = CHR 0x22 then Some ([], s)
      else if byte_in c 0 31 then None
      else if c = CHR 0x5C then
        (case s of
           [] \<Rightarrow> None
         | d # s \<Rightarrow>
             if is_simple_escape d then map_option (\<lambda>(raw, rest). (c # d # raw, rest)) (scan_string s)
             else if d = CHR ''u'' then
               (case s of
                  h1 # h2 # h3 # h4 # s \<Rightarrow>
                    if list_all is_hex [h1, h2, h3, h4] then map_option (\<lambda>(raw, rest). (c # d # h1 # h2 # h3 # h4 # raw, rest)) (scan_string s)
                    else None
                | _ \<Rightarrow> None)
             else None)
      else map_option (\<lambda>(raw, rest). (c # raw, rest)) (scan_string s))"

text \<open>Its value: the escapes resolved, what is not UTF-8 replaced.\<close>

definition simple_escape :: "char \<Rightarrow> char" where
  "simple_escape d =
     (if d = CHR ''b'' then CHR 0x08 else if d = CHR ''f'' then CHR 0x0C
      else if d = CHR ''n'' then CHR 0x0A else if d = CHR ''r'' then CHR 0x0D
      else if d = CHR ''t'' then CHR 0x09 else d)"

definition hex4 :: "char \<Rightarrow> char \<Rightarrow> char \<Rightarrow> char \<Rightarrow> nat" where
  "hex4 a b c d = ((the (hex_value a) * 16 + the (hex_value b)) * 16 + the (hex_value c)) * 16 + the (hex_value d)"

text \<open>The second half of a surrogate pair, if the text goes on with one.\<close>

definition low_surrogate :: "string \<Rightarrow> nat option" where
  "low_surrogate s =
     (case s of
        b # u # h1 # h2 # h3 # h4 # _ \<Rightarrow>
          if b = CHR 0x5C \<and> u = CHR ''u'' \<and> 0xDC00 \<le> hex4 h1 h2 h3 h4 \<and> hex4 h1 h2 h3 h4 \<le> 0xDFFF
          then Some (hex4 h1 h2 h3 h4) else None
      | _ \<Rightarrow> None)"

function unquote :: "string \<Rightarrow> string" where
  "unquote [] = []"
| "unquote (c # s) =
     (if c = CHR 0x5C then
        (case s of
           [] \<Rightarrow> []
         | d # s \<Rightarrow>
             if d \<noteq> CHR ''u'' then simple_escape d # unquote s
             else (case s of
               h1 # h2 # h3 # h4 # s \<Rightarrow>
                 (let r = hex4 h1 h2 h3 h4
                  in if 0xD800 \<le> r \<and> r \<le> 0xDBFF then
                       (case low_surrogate s of
                          Some lo \<Rightarrow>
                            encode_rune (0x10000 + (r - 0xD800) * 1024 + (lo - 0xDC00)) @ unquote (drop 6 s)
                        | None \<Rightarrow> RuneError @ unquote s)
                     else encode_rune r @ unquote s)
             | _ \<Rightarrow> []))
      else if utf8_size (c # s) = 0 then RuneError @ unquote s
      else take (utf8_size (c # s)) (c # s) @ unquote (drop (utf8_size (c # s)) (c # s)))"
  by pat_completeness auto
termination by (relation "measure length") auto

text \<open>A number literal: the text after it. The program reads no numbers, so its value is dropped.\<close>

definition scan_digits :: "string \<Rightarrow> string option" where
  "scan_digits s =
     (case s of
        c # s \<Rightarrow> if is_digit c then Some (dropWhile is_digit s) else None
      | [] \<Rightarrow> None)"

definition scan_integer :: "string \<Rightarrow> string option" where
  "scan_integer s =
     (case s of
        c # s' \<Rightarrow> if c = CHR ''0'' then Some s' else scan_digits s
      | [] \<Rightarrow> None)"

definition scan_fraction :: "string \<Rightarrow> string option" where
  "scan_fraction s =
     (case s of
        c # s' \<Rightarrow> if c = CHR ''.'' then scan_digits s' else Some s
      | [] \<Rightarrow> Some s)"

definition scan_exponent :: "string \<Rightarrow> string option" where
  "scan_exponent s =
     (case s of
        c # s' \<Rightarrow>
          if c = CHR ''e'' \<or> c = CHR ''E'' then
            (case s' of
               d # s'' \<Rightarrow> if d = CHR ''+'' \<or> d = CHR ''-'' then scan_digits s'' else scan_digits s'
             | [] \<Rightarrow> None)
          else Some s
      | [] \<Rightarrow> Some s)"

definition scan_number :: "string \<Rightarrow> string option" where
  "scan_number s =
     Option.bind (scan_integer (case s of c # s' \<Rightarrow> if c = CHR ''-'' then s' else s | [] \<Rightarrow> s))
       (\<lambda>s. Option.bind (scan_fraction s) scan_exponent)"

lemma scan_digits_shorter: "scan_digits s = Some r \<Longrightarrow> length r < length s"
  by (auto simp: scan_digits_def split: list.splits if_splits)
    (metis le_imp_less_Suc length_dropWhile_le)

lemma scan_integer_shorter: "scan_integer s = Some r \<Longrightarrow> length r < length s"
  by (auto simp: scan_integer_def split: list.splits if_splits dest: scan_digits_shorter)

lemma scan_fraction_shorter: "scan_fraction s = Some r \<Longrightarrow> length r \<le> length s"
  by (auto simp: scan_fraction_def split: list.splits if_splits dest: scan_digits_shorter)

lemma scan_exponent_shorter: "scan_exponent s = Some r \<Longrightarrow> length r \<le> length s"
  by (auto simp: scan_exponent_def split: list.splits if_splits dest: scan_digits_shorter)

lemma scan_number_shorter:
  assumes "scan_number s = Some r"
  shows "length r < length s"
proof -
  from assms obtain u v where steps:
    "scan_integer (case s of c # s' \<Rightarrow> if c = CHR ''-'' then s' else s | [] \<Rightarrow> s) = Some u"
    "scan_fraction u = Some v" "scan_exponent v = Some r"
    by (auto simp: scan_number_def bind_eq_Some_conv)
  have "length u < length s"
    using scan_integer_shorter [OF steps(1)] by (auto split: list.splits if_splits)
  with scan_fraction_shorter [OF steps(2)] scan_exponent_shorter [OF steps(3)] show ?thesis by linarith
qed

lemma scan_string_shorter: "scan_string s = Some (raw, r) \<Longrightarrow> length r < length s"
proof (induction s arbitrary: raw rule: length_induct)
  case (1 s)
  have IH: "length r < n" if "scan_string t = Some (raw', r)" "length t < length s" "length t \<le> n" for t raw' n
    using 1(1) that by fastforce
  show ?case
  proof (cases s)
    case (Cons c t)
    note s = this
    show ?thesis
    proof (cases "c = CHR 0x5C")
      case False
      with 1(2) show ?thesis by (auto simp: s split: if_splits intro!: IH)
    next
      case True
      with 1(2) obtain d u where t: "t = d # u" by (auto simp: s split: list.splits if_splits)
      show ?thesis
      proof (cases "is_simple_escape d")
        case True
        with \<open>c = CHR 0x5C\<close> 1(2) show ?thesis by (auto simp: s t intro!: IH split: if_splits)
      next
        case False
        with \<open>c = CHR 0x5C\<close> 1(2) show ?thesis
          by (auto simp: s t intro!: IH split: if_splits list.splits)
      qed
    qed
  qed (use 1(2) in simp)
qed

definition is_space :: "char \<Rightarrow> bool" where
  "is_space c \<longleftrightarrow> c = CHR '' '' \<or> c = CHR 0x09 \<or> c = CHR 0x0A \<or> c = CHR 0x0D"

definition punctuation :: "(char \<times> token) list" where
  "punctuation =
     [(CHR ''{'', LBrace), (CHR ''}'', RBrace), (CHR ''['', LBracket), (CHR '']'', RBracket),
      (CHR '','', Comma), (CHR '':'', Colon)]"

function tokens :: "string \<Rightarrow> token list option" where
  "tokens [] = Some []"
| "tokens (c # s) =
     (if is_space c then tokens s
      else (case map_of punctuation c of
        Some t \<Rightarrow> map_option (Cons t) (tokens s)
      | None \<Rightarrow>
          if c = CHR 0x22 then
            (case scan_string s of
               Some (raw, rest) \<Rightarrow> map_option (Cons (StringToken (unquote raw))) (tokens rest)
             | None \<Rightarrow> None)
          else if take 3 s = ''ull'' \<and> c = CHR ''n'' then map_option (Cons NullToken) (tokens (drop 3 s))
          else if take 3 s = ''rue'' \<and> c = CHR ''t'' then map_option (Cons BoolToken) (tokens (drop 3 s))
          else if take 4 s = ''alse'' \<and> c = CHR ''f'' then map_option (Cons BoolToken) (tokens (drop 4 s))
          else (case scan_number (c # s) of
            Some rest \<Rightarrow> map_option (Cons NumberToken) (tokens rest)
          | None \<Rightarrow> None)))"
  by pat_completeness auto
termination
  by (relation "measure length")
     (auto dest: scan_string_shorter scan_number_shorter)

section \<open>Parsing\<close>

datatype json = JNull | JBool | JNumber | JString string | JArray "json list" | JObject "(string \<times> json) list"

text \<open>What encloses the value being read: the elements so far, or the members so far and a key.\<close>

datatype frame = InArray "json list" | InObject "(string \<times> json) list" string

definition max_nesting_depth :: int where
  "max_nesting_depth = 10000"

text \<open>The states of the scanner: a value, the end of a value, or a key comes next.\<close>

fun begin_value :: "frame list \<Rightarrow> token list \<Rightarrow> json option"
  and end_value :: "frame list \<Rightarrow> json \<Rightarrow> token list \<Rightarrow> json option"
  and begin_key :: "frame list \<Rightarrow> (string \<times> json) list \<Rightarrow> token list \<Rightarrow> json option" where
  "begin_value frames (t # ts) =
     (case t of
        NullToken \<Rightarrow> end_value frames JNull ts
      | BoolToken \<Rightarrow> end_value frames JBool ts
      | NumberToken \<Rightarrow> end_value frames JNumber ts
      | StringToken s \<Rightarrow> end_value frames (JString s) ts
      | LBracket \<Rightarrow>
          if int (length frames) + 1 > max_nesting_depth then None
          else (case ts of
            RBracket # ts' \<Rightarrow> end_value frames (JArray []) ts'
          | _ \<Rightarrow> begin_value (InArray [] # frames) ts)
      | LBrace \<Rightarrow>
          if int (length frames) + 1 > max_nesting_depth then None
          else (case ts of
            RBrace # ts' \<Rightarrow> end_value frames (JObject []) ts'
          | _ \<Rightarrow> begin_key frames [] ts)
      | _ \<Rightarrow> None)"
| "begin_value frames [] = None"
| "end_value [] v ts = (if ts = [] then Some v else None)"
| "end_value (InArray vs # frames) v (t # ts) =
     (case t of
        Comma \<Rightarrow> begin_value (InArray (vs @ [v]) # frames) ts
      | RBracket \<Rightarrow> end_value frames (JArray (vs @ [v])) ts
      | _ \<Rightarrow> None)"
| "end_value (InObject ms k # frames) v (t # ts) =
     (case t of
        Comma \<Rightarrow> begin_key frames (ms @ [(k, v)]) ts
      | RBrace \<Rightarrow> end_value frames (JObject (ms @ [(k, v)])) ts
      | _ \<Rightarrow> None)"
| "end_value (f # frames) v [] = None"
| "begin_key frames ms (StringToken k # Colon # ts) = begin_value (InObject ms k # frames) ts"
| "begin_key frames ms _ = None"

definition parse_json :: "string \<Rightarrow> json option" where
  "parse_json text = Option.bind (tokens text) (begin_value [])"

section \<open>Decoding\<close>

text \<open>
  Decoding into \<open>ReleaseImageTags\<close>. A member is matched with a field by name in any letter case;
  \<open>null\<close> leaves what it is decoded into as it is; a value of the wrong type is an error, which
  the library reports at the end.
\<close>

definition decode_member :: "string \<times> json \<Rightarrow> ReleaseImageTags option \<Rightarrow> ReleaseImageTags option" where
  "decode_member m acc =
     (case acc of
        None \<Rightarrow> None
      | Some t \<Rightarrow>
          (let field = strings_ToLower (fst m)
           in if field \<noteq> ''name'' \<and> field \<noteq> ''from'' then Some t
              else (case snd m of
                JNull \<Rightarrow> Some t
              | JString s \<Rightarrow> Some (if field = ''name'' then t\<lparr>rit_Name := s\<rparr> else t\<lparr>rit_From := s\<rparr>)
              | _ \<Rightarrow> None)))"

definition decode_item :: "json \<Rightarrow> ReleaseImageTags option" where
  "decode_item j =
     (case j of
        JNull \<Rightarrow> Some \<lparr>rit_Name = [], rit_From = []\<rparr>
      | JObject ms \<Rightarrow> fold decode_member ms (Some \<lparr>rit_Name = [], rit_From = []\<rparr>)
      | _ \<Rightarrow> None)"

definition decode_items :: "json \<Rightarrow> ReleaseImageTags list option option" where
  "decode_items j =
     (case j of
        JNull \<Rightarrow> Some None
      | JArray vs \<Rightarrow> map_option Some (those (map decode_item vs))
      | _ \<Rightarrow> None)"

text \<open>\<open>json.Unmarshal\<close>: \<open>None\<close> is an error, \<open>Some None\<close> the nil slice.\<close>

definition json_Unmarshal :: "string \<Rightarrow> ReleaseImageTags list option option" where
  "json_Unmarshal text = Option.bind (parse_json text) decode_items"

section \<open>What was escaped is unquoted\<close>

lemma hex_lower_digit:
  assumes "n < 16"
  shows "hex_value (hex_lower n) = Some n"
proof -
  from assms have "n \<in> set [0..<16]" by simp
  then show ?thesis by (auto simp: upt_rec hex_lower_def hex_value_def is_digit_def byte_in_def)
qed

lemma is_hex_lower: "n < 16 \<Longrightarrow> is_hex (hex_lower n)"
  by (simp add: is_hex_def hex_lower_digit)

lemma of_char_bound: "(of_char c :: nat) < 256"
  by (metis nat_of_char_less_256)

lemma scan_escape_byte:
  assumes "byte_in c 0 127"
  shows "scan_string (escape_byte c @ t) = map_option (\<lambda>(raw, r). (escape_byte c @ raw, r)) (scan_string t)"
proof -
  have hex: "is_hex (hex_lower (of_char c div 16))" "is_hex (hex_lower (of_char c mod 16))"
    by (rule is_hex_lower, use of_char_bound [of c] in linarith)+
  have zero: "is_hex CHR ''0''" by (simp add: is_hex_def hex_value_def is_digit_def byte_in_def)
  have escapes: "is_simple_escape CHR 0x22" "is_simple_escape CHR 0x5C" "is_simple_escape CHR ''b''"
    "is_simple_escape CHR ''f''" "is_simple_escape CHR ''n''" "is_simple_escape CHR ''r''"
    "is_simple_escape CHR ''t''" "\<not> is_simple_escape CHR ''u''"
    by (auto simp: is_simple_escape_def)
  have "\<not> byte_in CHR 0x5C 0 31" by (simp add: byte_in_def)
  then show ?thesis using hex zero escapes
    by (auto simp: escape_byte_def option.map_comp o_def split_def)
qed

lemma scan_high_bytes:
  assumes "\<forall>c \<in> set p. byte_in c 128 255"
  shows "scan_string (p @ t) = map_option (\<lambda>(raw, r). (p @ raw, r)) (scan_string t)"
  using assms
proof (induction p)
  case (Cons c p)
  then have "c \<noteq> CHR 0x22" "c \<noteq> CHR 0x5C" "\<not> byte_in c 0 31" by (auto simp: byte_in_def)
  with Cons show ?case by (simp add: option.map_comp o_def split_def)
qed (simp add: split_def option.map_ident)


lemma utf8_size_le: "utf8_size s \<le> length s"
  by (cases s) (auto split: list.splits)

lemma utf8_size_append:
  assumes "utf8_size p = length p" and "p \<noteq> []"
  shows "utf8_size (p @ t) = length p"
  using assms by (cases p) (auto split: list.splits if_splits)

lemma high_bytes:
  "two_bytes a b \<Longrightarrow> byte_in a 128 255 \<and> byte_in b 128 255"
  "three_bytes a b c \<Longrightarrow> byte_in a 128 255 \<and> byte_in b 128 255 \<and> byte_in c 128 255"
  "four_bytes a b c d \<Longrightarrow> byte_in a 128 255 \<and> byte_in b 128 255 \<and> byte_in c 128 255 \<and> byte_in d 128 255"
  by (auto simp: two_bytes_def three_bytes_def four_bytes_def byte_in_def)

lemma utf8_size_high:
  assumes "\<not> byte_in c 0 127" and "d \<in> set (take (utf8_size (c # s)) (c # s))"
  shows "byte_in d 128 255"
  using assms by (auto split: list.splits if_splits dest: high_bytes)


lemma take_rune [simp]: "length (take (utf8_size s) s) = utf8_size s"
  using utf8_size_le [of s] by simp

lemma map_option_pair_append:
  "map_option (\<lambda>(raw, r). (p @ raw, r)) (map_option (\<lambda>(raw, r). (q @ raw, r)) x) =
     map_option (\<lambda>(raw, r). ((p @ q) @ raw, r)) x"
  by (cases x) auto

lemma scan_escape_rune:
  assumes "\<not> byte_in c 0 127"
  shows "scan_string (escape_rune (take (utf8_size (c # s)) (c # s)) @ t) =
           map_option (\<lambda>(raw, r). (escape_rune (take (utf8_size (c # s)) (c # s)) @ raw, r)) (scan_string t)"
proof -
  have u: "\<not> is_simple_escape CHR ''u''" "\<not> byte_in CHR 0x5C 0 31"
    "is_hex CHR ''2''" "is_hex CHR ''0''" "is_hex CHR ''8''" "is_hex CHR ''9''"
    by (simp_all add: is_simple_escape_def is_hex_def hex_value_def is_digit_def byte_in_def)
  have "scan_string (take (utf8_size (c # s)) (c # s) @ t) =
      map_option (\<lambda>(raw, r). (take (utf8_size (c # s)) (c # s) @ raw, r)) (scan_string t)"
    using utf8_size_high [OF assms] by (intro scan_high_bytes) blast
  with u show ?thesis by (simp add: escape_rune_def)
qed

lemma scan_bad_byte:
  "scan_string (CHR 0x5C # ''ufffd'' @ t) = map_option (\<lambda>(raw, r). (CHR 0x5C # ''ufffd'' @ raw, r)) (scan_string t)"
  by (simp add: is_simple_escape_def is_hex_def hex_value_def is_digit_def byte_in_def)

lemma scan_escape_string:
  "scan_string (escape_string s @ CHR 0x22 # rest) = Some (escape_string s, rest)"
proof (induction s rule: escape_string.induct)
  case (2 c s)
  show ?case
  proof (cases "byte_in c 0 127")
    case True
    with 2 show ?thesis by (simp add: scan_escape_byte)
  next
    case False
    with 2 scan_escape_rune [OF False] scan_bad_byte show ?thesis
      by (cases "utf8_size (c # s) = 0") (simp_all del: utf8_size.simps scan_string.simps)
  qed
qed simp

text \<open>Strings that are well-formed UTF-8, rune by rune.\<close>

function valid_utf8 :: "string \<Rightarrow> bool" where
  "valid_utf8 [] = True"
| "valid_utf8 (c # s) =
     (if utf8_size (c # s) = 0 then False
      else valid_utf8 (drop (utf8_size (c # s)) (c # s)))"
  by pat_completeness auto
termination by (relation "measure length") auto

declare utf8_size.simps [simp del] escape_string.simps(2) [simp del] unquote.simps(2) [simp del]
  valid_utf8.simps(2) [simp del]

lemma unquote_escape_byte:
  assumes "byte_in c 0 127"
  shows "unquote (escape_byte c @ t) = c # unquote t"
proof -
  have hex: "hex4 CHR ''0'' CHR ''0'' (hex_lower (of_char c div 16)) (hex_lower (of_char c mod 16)) = of_char c"
  proof -
    have "hex_value CHR ''0'' = Some 0" by (simp add: hex_value_def is_digit_def byte_in_def)
    moreover have "hex_value (hex_lower (of_char c div 16)) = Some (of_char c div 16)"
      "hex_value (hex_lower (of_char c mod 16)) = Some (of_char c mod 16)"
      by (rule hex_lower_digit, use of_char_bound [of c] in linarith)+
    ultimately show ?thesis by (simp add: hex4_def)
  qed
  have rune: "encode_rune (of_char c) = [c]" using assms by (simp add: encode_rune_def byte_in_def)
  have plain: "unquote (c # t) = c # unquote t" if "c \<noteq> CHR 0x5C"
    using assms that by (simp add: unquote.simps(2) utf8_size.simps)
  have "(of_char c :: nat) < 0xD800" using assms by (simp add: byte_in_def)
  with hex rune plain show ?thesis
    by (auto simp: escape_byte_def unquote.simps(2) simple_escape_def)
qed

lemma unquote_rune:
  assumes "utf8_size p = length p" and "p \<noteq> []" and "hd p \<noteq> CHR 0x5C"
  shows "unquote (p @ t) = p @ unquote t"
proof -
  obtain c q where p: "p = c # q" using assms(2) by (cases p) auto
  from utf8_size_append [OF assms(1,2), of t] have "utf8_size (c # q @ t) = length p" by (simp add: p)
  with assms show ?thesis by (simp add: p unquote.simps(2))
qed

lemma utf8_size_take: "utf8_size (take (utf8_size s) s) = utf8_size s"
  by (cases s) (auto simp: utf8_size.simps split: list.splits)

lemma unquote_escape_rune:
  assumes "\<not> byte_in c 0 127" and "utf8_size (c # s) \<noteq> 0"
  shows "unquote (escape_rune (take (utf8_size (c # s)) (c # s)) @ t) = take (utf8_size (c # s)) (c # s) @ unquote t"
proof -
  let ?r = "take (utf8_size (c # s)) (c # s)"
  have sep: "hex4 CHR ''2'' CHR ''0'' CHR ''2'' CHR ''8'' = 0x2028" "hex4 CHR ''2'' CHR ''0'' CHR ''2'' CHR ''9'' = 0x2029"
    by (simp_all add: hex4_def hex_value_def is_digit_def byte_in_def)
  have enc: "encode_rune 0x2028 = map char_of [0xE2, 0x80, 0xA8 :: nat]"
    "encode_rune 0x2029 = map char_of [0xE2, 0x80, 0xA9 :: nat]"
    by (simp_all add: encode_rune_def)
  have "c \<noteq> CHR 0x5C" using assms(1) by (auto simp: byte_in_def)
  moreover have "?r \<noteq> []" "hd ?r = c" using assms(2) by auto
  ultimately have "unquote (?r @ t) = ?r @ unquote t"
    by (intro unquote_rune) (simp_all add: utf8_size_take del: length_take)
  with sep enc show ?thesis by (auto simp: escape_rune_def unquote.simps(2))
qed

lemma unquote_escape_string: "valid_utf8 s \<Longrightarrow> unquote (escape_string s) = s"
proof (induction s rule: escape_string.induct)
  case (2 c s)
  show ?case
  proof (cases "byte_in c 0 127")
    case True
    with 2 show ?thesis
      by (simp add: escape_string.simps(2) unquote_escape_byte valid_utf8.simps(2) utf8_size.simps)
  next
    case False
    with 2 unquote_escape_rune [OF False] show ?thesis
      by (simp add: escape_string.simps(2) valid_utf8.simps(2) split: if_splits)
  qed
qed simp


section \<open>The round trip\<close>

declare tokens.simps(2) [simp del]

lemma tokens_string:
  "valid_utf8 s \<Longrightarrow>
   tokens (json_string s @ rest) = map_option (Cons (StringToken s)) (tokens rest)"
  by (simp add: json_string_def tokens.simps(2) is_space_def punctuation_def scan_escape_string
      unquote_escape_string)

lemma tokens_punctuation:
  "map_of punctuation c = Some t \<Longrightarrow> tokens (c # rest) = map_option (Cons t) (tokens rest)"
  by (auto simp: tokens.simps(2) is_space_def punctuation_def split: if_splits)

definition item_tokens :: "ReleaseImageTags \<Rightarrow> token list" where
  "item_tokens t =
     [LBrace, StringToken ''name'', Colon, StringToken (rit_Name t), Comma,
      StringToken ''from'', Colon, StringToken (rit_From t), RBrace]"

definition valid_item :: "ReleaseImageTags \<Rightarrow> bool" where
  "valid_item t \<longleftrightarrow> valid_utf8 (rit_Name t) \<and> valid_utf8 (rit_From t)"

lemma tokens_item:
  assumes "valid_item t"
  shows "tokens (marshal_item t @ rest) = map_option (append (item_tokens t)) (tokens rest)"
proof -
  have "valid_utf8 ''name''" "valid_utf8 ''from''" by code_simp+
  with assms show ?thesis
    by (cases "tokens rest")
       (simp_all add: marshal_item_def tokens_punctuation punctuation_def tokens_string item_tokens_def
          valid_item_def)
qed

fun items_tokens :: "ReleaseImageTags list \<Rightarrow> token list" where
  "items_tokens [] = []"
| "items_tokens [t] = item_tokens t"
| "items_tokens (t # ts) = item_tokens t @ Comma # items_tokens ts"

lemma tokens_items:
  "list_all valid_item xs \<Longrightarrow>
   tokens (strings_Join (map marshal_item xs) '','' @ rest) = map_option (append (items_tokens xs)) (tokens rest)"
  by (cases "tokens rest"; induction xs rule: items_tokens.induct)
     (simp_all add: tokens_item tokens_punctuation punctuation_def)

definition item_json :: "ReleaseImageTags \<Rightarrow> json" where
  "item_json t = JObject [(''name'', JString (rit_Name t)), (''from'', JString (rit_From t))]"

lemma begin_item:
  assumes "length frames < 10"
  shows "begin_value frames (item_tokens t @ ts) = end_value frames (item_json t) ts"
  using assms by (simp add: item_tokens_def item_json_def max_nesting_depth_def)

lemma begin_items:
  "xs \<noteq> [] \<Longrightarrow>
   begin_value [InArray vs] (items_tokens xs @ [RBracket]) = Some (JArray (vs @ map item_json xs))"
proof (induction xs arbitrary: vs rule: items_tokens.induct)
  case (2 t)
  then show ?case by (simp add: begin_item)
next
  case (3 t u ts)
  then show ?case by (simp add: begin_item)
qed simp

lemma decode_item_json: "decode_item (item_json t) = Some t"
  by (simp add: decode_item_def item_json_def decode_member_def Let_def strings_ToLower_def toLower_char_def)

lemma unmarshal_marshal:
  assumes "list_all valid_item (slice_elements imgs)"
  shows "json_Unmarshal (json_Marshal imgs) = Some imgs"
proof (cases imgs)
  case None
  have "json_Unmarshal ''null'' = Some None" by code_simp
  then show ?thesis by (simp add: None json_Marshal_def)
next
  case (Some xs)
  with assms have xs: "list_all valid_item xs" by (simp add: slice_elements_def)
  have toks: "tokens (json_Marshal imgs) = Some (LBracket # items_tokens xs @ [RBracket])"
    using tokens_items [OF xs, of "'']''"]
    by (simp add: Some json_Marshal_def tokens_punctuation punctuation_def)
  have parse: "begin_value [] (LBracket # items_tokens xs @ [RBracket]) = Some (JArray (map item_json xs))"
  proof (cases "xs = []")
    case True
    then show ?thesis by (simp add: max_nesting_depth_def)
  next
    case False
    then obtain ts where "items_tokens xs = LBrace # ts"
      by (cases xs rule: items_tokens.cases) (auto simp: item_tokens_def)
    with begin_items [OF False, of "[]"] show ?thesis by (simp add: max_nesting_depth_def)
  qed
  have "those (map decode_item (map item_json xs)) = Some xs"
    by (induction xs) (simp_all add: decode_item_json)
  with toks parse show ?thesis
    by (simp add: json_Unmarshal_def parse_json_def decode_items_def Some)
qed

end
