(* ===== verification/Release.thy ===== *)
theory Release
  imports Conditions Json
begin

text \<open>
  \<open>internal/controller/oc_get_release_images.go\<close>: the shell commands that ask \<open>oc\<close> about a
  release, with the line scanner that reads their output, and the filter that drops the images
  of other platforms. A returned slice of images is an \<open>option\<close>: \<open>None\<close> is the nil slice.
\<close>

section \<open>Reading a command's output\<close>

text \<open>
  \<open>bufio.ScanLines\<close>: lines end at a newline, a trailing carriage return is dropped, a last
  line without newline counts unless it is empty. A line that does not fit the scanner's buffer
  of one mebibyte stops it with \<open>bufio.ErrTooLong\<close>.
\<close>

fun raw_lines :: "string \<Rightarrow> string \<Rightarrow> string list" where
  "raw_lines acc [] = (if acc = [] then [] else [rev acc])"
| "raw_lines acc (c # cs) =
     (if c = CHR 0x0A then rev acc # raw_lines [] cs else raw_lines (c # acc) cs)"

definition dropCR :: "string \<Rightarrow> string" where
  "dropCR line = (if line \<noteq> [] \<and> last line = CHR 0x0D then butlast line else line)"

definition max_token_size :: int where
  "max_token_size = 1024 * 1024"

definition bufio_ErrTooLong :: error where
  "bufio_ErrTooLong = \<lparr>IsNotFound = False, Error = ''bufio.Scanner: token too long''\<rparr>"

definition scanner_Lines :: "string \<Rightarrow> string list" where
  "scanner_Lines out = map dropCR (raw_lines [] out)"

definition scanner_Err :: "process \<Rightarrow> error option" where
  "scanner_Err p =
     (if list_ex (\<lambda>line. max_token_size \<le> int (length line)) (raw_lines [] (proc_Stdout p))
      then Some bufio_ErrTooLong else proc_ReadError p)"

text \<open>
  The body the three \<open>runOCCommand\<close> functions share. It returns the output together with the
  error of \<open>cmd.Wait()\<close>.
\<close>

definition command_result :: "process \<Rightarrow> string \<times> error option" where
  "command_result p =
     (case proc_StdoutPipe p of
        Some err \<Rightarrow> ([], Some err)
      | None \<Rightarrow>
          (case proc_Start p of
             Some err \<Rightarrow> ([], Some err)
           | None \<Rightarrow>
               let outputLines = scanner_Lines (proc_Stdout p)
               in case scanner_Err p of
                    Some scanErr \<Rightarrow>
                      (case proc_Kill p of
                         Some err \<Rightarrow> ([], Some err)
                       | None \<Rightarrow>
                           (case proc_Wait p of
                              Some err \<Rightarrow> ([], Some err)
                            | None \<Rightarrow> ([], Some scanErr)))
                  | None \<Rightarrow> (strings_Join outputLines [], proc_Wait p)))"

definition run_command :: "env \<Rightarrow> string \<Rightarrow> (string \<times> error option) go" where
  "run_command E cmdLine = do {
     p \<leftarrow> perform (Exec cmdLine) (\<lambda>tr. on_Exec E tr cmdLine);
     State_Monad.return (command_result p)
   }"

section \<open>The three commands\<close>

definition release_info_command :: "string \<Rightarrow> string" where
  "release_info_command releaseImage =
     ''oc adm release info '' @ releaseImage @
     '' -o jsonpath='' @ [CHR 0x27] @ ''{.references.spec.tags}'' @ [CHR 0x27] @
     '' | jq -r '' @ [CHR 0x27] @ ''[.[] | {name: .name, from: .from.name}]'' @ [CHR 0x27]"

definition runOCCommand :: "env \<Rightarrow> string \<Rightarrow> (string \<times> error option) go" where
  "runOCCommand E releaseImage = run_command E (release_info_command releaseImage)"

definition image_from_version_command :: "string \<Rightarrow> string" where
  "image_from_version_command releaseVersion =
     ''oc adm release info '' @ releaseVersion @
     '' -o jsonpath='' @ [CHR 0x27] @ ''{.image}'' @ [CHR 0x27]"

definition runOCCommandGetReleaseImageFromVersion :: "env \<Rightarrow> string \<Rightarrow> (string \<times> error option) go" where
  "runOCCommandGetReleaseImageFromVersion E releaseVersion =
     run_command E (image_from_version_command releaseVersion)"

definition version_from_image_command :: "string \<Rightarrow> string" where
  "version_from_image_command releaseImage =
     ''oc adm release info '' @ releaseImage @
     '' -o jsonpath='' @ [CHR 0x27] @ ''{.metadata.version}'' @ [CHR 0x27]"

definition runOCCommandGetReleaseVersionFromImage :: "env \<Rightarrow> string \<Rightarrow> (string \<times> error option) go" where
  "runOCCommandGetReleaseVersionFromImage E releaseImage =
     run_command E (version_from_image_command releaseImage)"

definition GetReleaseImages :: "env \<Rightarrow> string \<Rightarrow> (error + ReleaseImageTags list option) go" where
  "GetReleaseImages E releaseImage = do {
     r \<leftarrow> runOCCommand E releaseImage;
     case r of (outputLines, err) \<Rightarrow>
       State_Monad.return
         (case err of
            Some e \<Rightarrow> Inl e
          | None \<Rightarrow>
              (case json_Unmarshal outputLines of
                 None \<Rightarrow> Inl (json_Error E outputLines)
               | Some jsonData \<Rightarrow> Inr jsonData))
   }"

definition GetReleaseImageFromVersion :: "env \<Rightarrow> string \<Rightarrow> (error + string) go" where
  "GetReleaseImageFromVersion E releaseVersion = do {
     r \<leftarrow> runOCCommandGetReleaseImageFromVersion E releaseVersion;
     case r of (outputLines, err) \<Rightarrow>
       State_Monad.return (case err of Some e \<Rightarrow> Inl e | None \<Rightarrow> Inr outputLines)
   }"

definition GetReleaseVersionFromImage :: "env \<Rightarrow> string \<Rightarrow> (error + string) go" where
  "GetReleaseVersionFromImage E releaseImage = do {
     r \<leftarrow> runOCCommandGetReleaseVersionFromImage E releaseImage;
     case r of (outputLines, err) \<Rightarrow>
       State_Monad.return (case err of Some e \<Rightarrow> Inl e | None \<Rightarrow> Inr outputLines)
   }"

section \<open>Filtering the images of other platforms\<close>

text \<open>
  A pattern of the code is an alternation of literals, matched anywhere in the name:
  \<open>regexp.MatchString\<close> on it is the search for one of the literals.
\<close>

fun split_alternatives :: "string \<Rightarrow> string \<Rightarrow> string list" where
  "split_alternatives acc [] = [rev acc]"
| "split_alternatives acc (c # cs) =
     (if c = CHR ''|'' then rev acc # split_alternatives [] cs
      else split_alternatives (c # acc) cs)"

fun strings_Contains :: "string \<Rightarrow> string \<Rightarrow> bool" where
  "strings_Contains [] substr = (substr = [])"
| "strings_Contains (c # cs) substr =
     (take (length substr) (c # cs) = substr \<or> strings_Contains cs substr)"

definition MatchString :: "string \<Rightarrow> string \<Rightarrow> bool" where
  "MatchString pattern s = list_ex (strings_Contains s) (split_alternatives [] pattern)"

text \<open>The \<open>switch\<close> over the infrastructure type; \<open>None\<close> is the nil \<open>*regexp.Regexp\<close>.\<close>

definition filter_pattern :: "string \<Rightarrow> string option" where
  "filter_pattern infrastructureType =
     (if infrastructureType = ''None'' \<or> infrastructureType = ''BareMetal'' then
        Some ''aws-|azure-|gcp-|ibm-|ibmcloud-|libvirt-|nutanix-|openstack-|ovirt-|powervs-|vsphere-''
      else if infrastructureType = ''AWS'' then
        Some ''azure-|gcp-|ibm-|ibmcloud-|libvirt-|nutanix-|openstack-|ovirt-|powervs-|vsphere-''
      else if infrastructureType = ''Azure'' then
        Some ''aws-|gcp-|ibm-|ibmcloud-|libvirt-|nutanix-|openstack-|ovirt-|powervs-|vsphere-''
      else if infrastructureType = ''GCP'' then
        Some ''aws-|azure-|ibm-|ibmcloud-|libvirt-|nutanix-|openstack-|ovirt-|powervs-|vsphere-''
      else if infrastructureType = ''IBMCloud'' then
        Some ''aws-|azure-|gcp-|ibm-|libvirt-|nutanix-|openstack-|ovirt-|powervs-|vsphere-''
      else if infrastructureType = ''Libvirt'' then
        Some ''aws-|azure-|gcp-|ibm-|ibmcloud-|nutanix-|openstack-|ovirt-|powervs-|vsphere-''
      else if infrastructureType = ''Nutanix'' then
        Some ''aws-|azure-|gcp-|ibm-|ibmcloud-|libvirt-|openstack-|ovirt-|powervs-|vsphere-''
      else if infrastructureType = ''OpenStack'' then
        Some ''aws-|azure-|gcp-|ibm-|ibmcloud-|libvirt-|nutanix-|ovirt-|powervs-|vsphere-''
      else if infrastructureType = ''oVirt'' then
        Some ''aws-|azure-|gcp-|ibm-|ibmcloud-|libvirt-|nutanix-|openstack-|powervs-|vsphere-''
      else if infrastructureType = ''PowerVS'' then
        Some ''aws-|azure-|gcp-|ibm-|ibmcloud-|libvirt-|nutanix-|openstack-|ovirt-|vsphere-''
      else if infrastructureType = ''VSphere'' then
        Some ''aws-|azure-|gcp-|ibm-|ibmcloud-|libvirt-|nutanix-|openstack-|ovirt-|powervs-''
      else None)"

fun filter_loop ::
  "string \<Rightarrow> ReleaseImageTags list \<Rightarrow> ReleaseImageTags list option \<Rightarrow> ReleaseImageTags list option" where
  "filter_loop filterMatch [] filtered = filtered"
| "filter_loop filterMatch (item # items) filtered =
     (if \<not> MatchString filterMatch (rit_Name item)
      then filter_loop filterMatch items
             (Some ((case filtered of None \<Rightarrow> [] | Some xs \<Rightarrow> xs) @ [item]))
      else filter_loop filterMatch items filtered)"

definition FilterReleaseImages :: "ReleaseImageTags list option \<Rightarrow> string \<Rightarrow> ReleaseImageTags list option" where
  "FilterReleaseImages releaseImages infrastructureType =
     (case filter_pattern infrastructureType of
        None \<Rightarrow> releaseImages
      | Some filterMatch \<Rightarrow> filter_loop filterMatch (slice_elements releaseImages) None)"

section \<open>What the filter keeps\<close>

text \<open>
  The specification of the eleven hand-written patterns: one table of platform image prefixes,
  of which a platform's filter uses all but its own. No platform owns the prefix \<open>ibm-\<close>.
\<close>

definition platform_prefixes :: "(string \<times> string) list" where
  "platform_prefixes =
     [(''AWS'', ''aws-''), (''Azure'', ''azure-''), (''GCP'', ''gcp-''), ([], ''ibm-''),
      (''IBMCloud'', ''ibmcloud-''), (''Libvirt'', ''libvirt-''), (''Nutanix'', ''nutanix-''),
      (''OpenStack'', ''openstack-''), (''oVirt'', ''ovirt-''), (''PowerVS'', ''powervs-''),
      (''VSphere'', ''vsphere-'')]"

definition foreign_prefixes :: "string \<Rightarrow> string list" where
  "foreign_prefixes infrastructureType =
     map snd (filter (\<lambda>(platform, _). platform \<noteq> infrastructureType) platform_prefixes)"

definition filtered_platforms :: "string list" where
  "filtered_platforms =
     [''None'', ''BareMetal'', ''AWS'', ''Azure'', ''GCP'', ''IBMCloud'', ''Libvirt'', ''Nutanix'',
      ''OpenStack'', ''oVirt'', ''PowerVS'', ''VSphere'']"

lemma filter_pattern_None: "filter_pattern i = None \<longleftrightarrow> i \<notin> set filtered_platforms"
  by (auto simp: filter_pattern_def filtered_platforms_def)

lemma filter_pattern_literals:
  assumes "filter_pattern i = Some pattern"
  shows "split_alternatives [] pattern = foreign_prefixes i"
proof -
  have "\<forall>i \<in> set filtered_platforms.
          split_alternatives [] (the (filter_pattern i)) = foreign_prefixes i"
    by code_simp
  with assms show ?thesis
    by (metis filter_pattern_None option.distinct(1) option.sel)
qed

lemma strings_Contains_sublist: "strings_Contains s substr \<longleftrightarrow> sublist substr s"
proof (induction s)
  case (Cons c cs)
  have "take (length substr) (c # cs) = substr \<longleftrightarrow> prefix substr (c # cs)"
  proof
    assume eq: "take (length substr) (c # cs) = substr"
    from take_is_prefix [of "length substr" "c # cs"]
    show "prefix substr (c # cs)" by (simp only: eq)
  next
    assume "prefix substr (c # cs)"
    then show "take (length substr) (c # cs) = substr" by (auto elim: prefixE)
  qed
  with Cons show ?case by (simp add: sublist_Cons_right)
qed auto

lemma MatchString_foreign:
  "filter_pattern i = Some pattern \<Longrightarrow>
     MatchString pattern s \<longleftrightarrow> (\<exists>p \<in> set (foreign_prefixes i). sublist p s)"
  by (simp add: MatchString_def filter_pattern_literals list_ex_iff strings_Contains_sublist)

lemma filter_loop_eq:
  "filter_loop pattern items filtered =
     (let kept = filter (\<lambda>item. \<not> MatchString pattern (rit_Name item)) items
      in if kept = [] then filtered else Some (slice_elements filtered @ kept))"
  by (induction items arbitrary: filtered)
     (auto simp: Let_def slice_elements_def split: option.splits)

text \<open>C35: FilterReleaseImages agrees with one table of platform prefixes: for a platform
of the switch it keeps, in order, the images whose name contains no prefix of another platform
(nil when there is none), and for any other platform it returns its argument.\<close>

theorem FilterReleaseImages_spec:
  "FilterReleaseImages releaseImages i =
     (if i \<in> set filtered_platforms
      then let kept = filter (\<lambda>item. \<not> (\<exists>p \<in> set (foreign_prefixes i). sublist p (rit_Name item)))
                        (slice_elements releaseImages)
           in if kept = [] then None else Some kept
      else releaseImages)"
proof (cases "filter_pattern i")
  case None
  then have "i \<notin> set filtered_platforms" by (simp add: filter_pattern_None)
  with None show ?thesis by (simp add: FilterReleaseImages_def)
next
  case (Some pattern)
  then have "i \<in> set filtered_platforms" by (metis filter_pattern_None option.distinct(1))
  with Some show ?thesis
    by (simp add: FilterReleaseImages_def filter_loop_eq MatchString_foreign slice_elements_def Let_def)
qed

lemma FilterReleaseImages_elements:
  "set (slice_elements (FilterReleaseImages imgs i)) \<subseteq> set (slice_elements imgs)"
  by (auto simp: FilterReleaseImages_def filter_loop_eq slice_elements_def Let_def
      split: option.splits if_splits)

lemma FilterReleaseImages_idem:
  "FilterReleaseImages (FilterReleaseImages imgs i) i = FilterReleaseImages imgs i"
  by (auto simp: FilterReleaseImages_def filter_loop_eq slice_elements_def Let_def
      split: option.splits)

section \<open>What a command returns\<close>

lemma concat_raw_lines: "concat (raw_lines acc out) = rev acc @ filter (\<lambda>c. c \<noteq> CHR 0x0A) out"
  by (induction acc out rule: raw_lines.induct) auto

lemma raw_lines_chars: "line \<in> set (raw_lines acc out) \<Longrightarrow> set line \<subseteq> set acc \<union> set out"
  by (induction acc out rule: raw_lines.induct) (fastforce split: if_splits)+

lemma scanner_Lines_join:
  assumes "CHR 0x0D \<notin> set out"
  shows "strings_Join (scanner_Lines out) [] = filter (\<lambda>c. c \<noteq> CHR 0x0A) out"
proof -
  have "dropCR line = line" if "line \<in> set (raw_lines [] out)" for line
    using raw_lines_chars [OF that] assms
    by (auto simp: dropCR_def dest!: last_in_set)
  then have "map dropCR (raw_lines [] out) = raw_lines [] out" by (simp add: map_idI)
  then show ?thesis by (simp add: scanner_Lines_def strings_Join_empty_sep concat_raw_lines)
qed

definition process_succeeds :: "process \<Rightarrow> bool" where
  "process_succeeds p \<longleftrightarrow>
     proc_StdoutPipe p = None \<and> proc_Start p = None \<and> scanner_Err p = None \<and> proc_Wait p = None"

lemma command_result_no_error: "snd (command_result p) = None \<longleftrightarrow> process_succeeds p"
  by (simp add: command_result_def process_succeeds_def Let_def split: option.split)

lemma command_result_output:
  "process_succeeds p \<Longrightarrow> fst (command_result p) = strings_Join (scanner_Lines (proc_Stdout p)) []"
  by (simp add: command_result_def process_succeeds_def Let_def)

lemma run_run_command [simp]:
  "run_state (run_command E cmdLine) s =
     (command_result (on_Exec E (trace s) cmdLine), s\<lparr>trace := trace s @ [Exec cmdLine]\<rparr>)"
  by (simp add: run_command_def)

text \<open>The value or error of a command: the error of the first step that failed.\<close>

definition command_value :: "process \<Rightarrow> error + string" where
  "command_value p =
     (if process_succeeds p then Inr (strings_Join (scanner_Lines (proc_Stdout p)) [])
      else Inl (the (snd (command_result p))))"

lemma case_command_result:
  "(case snd (command_result p) of None \<Rightarrow> Inr (fst (command_result p)) | Some e \<Rightarrow> Inl e) =
     command_value p"
  using command_result_no_error [of p] command_result_output [of p]
  by (auto simp: command_value_def split: option.splits)

lemma run_GetReleaseImageFromVersion:
  "run_state (GetReleaseImageFromVersion E v) s =
     (command_value (on_Exec E (trace s) (image_from_version_command v)),
      s\<lparr>trace := trace s @ [Exec (image_from_version_command v)]\<rparr>)"
  by (simp add: GetReleaseImageFromVersion_def runOCCommandGetReleaseImageFromVersion_def
      split_beta case_command_result cong: option.case_cong)

lemma run_GetReleaseVersionFromImage:
  "run_state (GetReleaseVersionFromImage E i) s =
     (command_value (on_Exec E (trace s) (version_from_image_command i)),
      s\<lparr>trace := trace s @ [Exec (version_from_image_command i)]\<rparr>)"
  by (simp add: GetReleaseVersionFromImage_def runOCCommandGetReleaseVersionFromImage_def
      split_beta case_command_result cong: option.case_cong)

text \<open>C36: When GetReleaseVersionFromImage returns a version, no step of the shell command
failed, and the version is the output of the command without its newlines (for output without
carriage returns).\<close>

theorem GetReleaseVersionFromImage_success:
  assumes "fst (run_state (GetReleaseVersionFromImage E i) s) = Inr version"
    and "CHR 0x0D \<notin> set (proc_Stdout (on_Exec E (trace s) (version_from_image_command i)))"
  shows "process_succeeds (on_Exec E (trace s) (version_from_image_command i)) \<and>
         version = filter (\<lambda>c. c \<noteq> CHR 0x0A)
           (proc_Stdout (on_Exec E (trace s) (version_from_image_command i)))"
  using assms
  by (auto simp: run_GetReleaseVersionFromImage command_value_def scanner_Lines_join
      split: if_splits)

definition printing_env :: "string \<Rightarrow> env" where
  "printing_env out = idle_env\<lparr>on_Exec := (\<lambda>tr cmd. quiet_process\<lparr>proc_Stdout := out\<rparr>)\<rparr>"

theorem GetReleaseVersionFromImage_success_witness:
  "process_succeeds (on_Exec (printing_env (''4.18.2'' @ [CHR 0x0A]))
     (trace (start zero_UpgradeAccelerator)) (version_from_image_command ''img'')) \<and>
   ''4.18.2'' = filter (\<lambda>c. c \<noteq> CHR 0x0A)
     (proc_Stdout (on_Exec (printing_env (''4.18.2'' @ [CHR 0x0A]))
        (trace (start zero_UpgradeAccelerator)) (version_from_image_command ''img'')))"
  by (rule GetReleaseVersionFromImage_success)
     (simp_all add: run_GetReleaseVersionFromImage command_value_def process_succeeds_def
       scanner_Err_def scanner_Lines_def dropCR_def max_token_size_def printing_env_def idle_env_def
       quiet_process_def)

end
