(* ===== verification/ClusterState.thy ===== *)
theory ClusterState
  imports Release
begin

text \<open>
  The version and platform queries of \<open>internal/controller/upgradeaccelerator_func.go\<close> and
  \<open>setupClusterVersion\<close> of \<open>internal/controller/upgradeaccelerator_setup.go\<close>, with the two
  change detectors the manager's event filters call.
\<close>

section \<open>Versions\<close>

text \<open>The loops over \<open>.status.versions\<close>: the last entry named \<open>operator\<close> wins.\<close>

fun matched_version :: "OperandVersion list \<Rightarrow> string \<Rightarrow> string" where
  "matched_version [] acc = acc"
| "matched_version (version # versions) acc =
     matched_version versions
       (if ov_Name version = UpgradeAcceleratorMachineConfigOperatorStatusVersionKey
        then ov_Version version else acc)"

definition getCurrentVersion :: "env \<Rightarrow> (error + string) go" where
  "getCurrentVersion E = do {
     let key = \<lparr>nn_Namespace = ''openshift-machine-api'', nn_Name = ''machine-config''\<rparr>;
     r \<leftarrow> perform (GetClusterOperator key) (\<lambda>tr. on_GetClusterOperator E tr key);
     State_Monad.return
       (case r of
          Inl err \<Rightarrow> Inl err
        | Inr clusterOperator \<Rightarrow>
            let matchedVersion = matched_version (co_Versions clusterOperator) []
            in if matchedVersion = []
               then Inl \<lparr>IsNotFound = False,
                         Error = ''failed to find machine-config operator version''\<rparr>
               else Inr matchedVersion)
   }"

definition getDesiredVersion :: "env \<Rightarrow> (error + string \<times> string) go" where
  "getDesiredVersion E = do {
     upgradeAccelerator \<leftarrow> get_obj;
     let override = OverrideReleaseVersion (Config (Spec upgradeAccelerator));
     if override_Version override \<noteq> [] \<and> override_Image override \<noteq> [] then
       State_Monad.return (Inr (override_Version override, override_Image override))
     else if override_Version override \<noteq> [] \<and> override_Image override = [] then do {
       r \<leftarrow> GetReleaseImageFromVersion E (override_Version override);
       State_Monad.return
         (case r of
            Inl err \<Rightarrow> Inl err
          | Inr releaseImage \<Rightarrow> Inr (override_Version override, releaseImage))
     }
     else if override_Image override \<noteq> [] \<and> override_Version override = [] then do {
       r \<leftarrow> GetReleaseVersionFromImage E (override_Image override);
       State_Monad.return
         (case r of
            Inl err \<Rightarrow> Inl err
          | Inr releaseVersion \<Rightarrow> Inr (releaseVersion, override_Image override))
     }
     else do {
       let key = \<lparr>nn_Namespace = ''openshift-cluster-version'', nn_Name = ''version''\<rparr>;
       r \<leftarrow> perform (GetClusterVersion key) (\<lambda>tr. on_GetClusterVersion E tr key);
       State_Monad.return
         (case r of
            Inl err \<Rightarrow> Inl err
          | Inr clusterVersion \<Rightarrow> Inr (cv_DesiredVersion clusterVersion, cv_DesiredImage clusterVersion))
     }
   }"

definition getClusterVersionState :: "env \<Rightarrow> (error + OpenShiftClusterVersionState) go" where
  "getClusterVersionState E = do {
     r \<leftarrow> getCurrentVersion E;
     case r of
       Inl err \<Rightarrow> State_Monad.return (Inl err)
     | Inr currentVersion \<Rightarrow> do {
         r \<leftarrow> getDesiredVersion E;
         State_Monad.return
           (case r of
              Inl err \<Rightarrow> Inl err
            | Inr (desiredVersion, desiredImage) \<Rightarrow>
                Inr \<lparr>cvs_CurrentVersion = currentVersion, cvs_DesiredVersion = desiredVersion,
                     cvs_DesiredImage = desiredImage\<rparr>)
       }
   }"

section \<open>Change detection\<close>

text \<open>The arguments are pointers and may be nil.\<close>

definition hasClusterVersionChanged :: "ClusterVersion option \<Rightarrow> ClusterVersion option \<Rightarrow> bool" where
  "hasClusterVersionChanged o_cv n_cv =
     (case (o_cv, n_cv) of
        (Some oldStatus, Some newStatus) \<Rightarrow> cv_DesiredVersion oldStatus \<noteq> cv_DesiredVersion newStatus
      | _ \<Rightarrow> False)"

definition hasMachineConfigClusterOperatorChanged ::
  "ClusterOperator option \<Rightarrow> ClusterOperator option \<Rightarrow> bool" where
  "hasMachineConfigClusterOperatorChanged o_co n_co =
     (case (o_co, n_co) of
        (Some old, Some new) \<Rightarrow>
          if co_Name old = ''machine-config'' then
            let oldVersion = matched_version (co_Versions old) [];
                newVersion = matched_version (co_Versions new) []
            in if oldVersion \<noteq> [] \<and> newVersion \<noteq> [] then oldVersion \<noteq> newVersion else False
          else False
      | _ \<Rightarrow> False)"

section \<open>Platform\<close>

text \<open>\<open>Status.PlatformStatus\<close> is a pointer; the code reads its type without a nil check.\<close>

definition getOpenShiftInfrastructureType :: "env \<Rightarrow> string result go" where
  "getOpenShiftInfrastructureType E = do {
     let key = \<lparr>nn_Namespace = [], nn_Name = ''cluster''\<rparr>;
     r \<leftarrow> perform (GetInfrastructure key) (\<lambda>tr. on_GetInfrastructure E tr key);
     State_Monad.return
       (case r of
          Inl err \<Rightarrow> Err err
        | Inr infrastructure \<Rightarrow>
            (case infra_PlatformStatus infrastructure of
               None \<Rightarrow> Panic ''nil pointer dereference''
             | Some platformType \<Rightarrow> Ok platformType))
   }"

section \<open>setupClusterVersion\<close>

definition record_versions ::
  "OpenShiftClusterVersionState \<Rightarrow> UpgradeAcceleratorStatus \<Rightarrow> UpgradeAcceleratorStatus \<times> bool" where
  "record_versions cvs st =
     (let changed = False;
          (st, changed) =
            (if CurrentVersion st \<noteq> cvs_CurrentVersion cvs
             then (st\<lparr>CurrentVersion := cvs_CurrentVersion cvs\<rparr>, True) else (st, changed));
          (st, changed) =
            (if TargetVersion st \<noteq> cvs_DesiredVersion cvs
             then (st\<lparr>TargetVersion := cvs_DesiredVersion cvs\<rparr>, True) else (st, changed));
          (st, changed) =
            (if DesiredVersion st \<noteq> cvs_DesiredVersion cvs
             then (st\<lparr>DesiredVersion := cvs_DesiredVersion cvs\<rparr>, True) else (st, changed));
          (st, changed) =
            (if DesiredImage st \<noteq> cvs_DesiredImage cvs
             then (st\<lparr>DesiredImage := cvs_DesiredImage cvs\<rparr>, True) else (st, changed))
      in (st, changed))"

text \<open>The two results the caller uses, or the error.\<close>

definition setupClusterVersion :: "env \<Rightarrow> (error + OpenShiftClusterVersionState \<times> bool) go" where
  "setupClusterVersion E = do {
     r \<leftarrow> getClusterVersionState E;
     case r of
       Inl err \<Rightarrow> do {
         _ \<leftarrow> setConditionFailure E CONDITION_REASON_FAILURE_GET_CLUSTER_VERSION (Error err);
         _ \<leftarrow> deleteConditions E
               [CONDITION_TYPE_SUCCESSFUL, CONDITION_TYPE_RUNNING, CONDITION_TYPE_PRIMER,
                CONDITION_TYPE_PRIMING_IN_PROGRESS, CONDITION_TYPE_SETUP_COMPLETE];
         State_Monad.return (Inl err)
       }
     | Inr clusterVersionState \<Rightarrow> do {
         u \<leftarrow> get_obj;
         let upgradeAcceleratorStatusChanged = snd (record_versions clusterVersionState (Status u));
         modify_status (\<lambda>st. fst (record_versions clusterVersionState st));
         if upgradeAcceleratorStatusChanged then do {
           e \<leftarrow> Status_Update E;
           case e of
             Some err \<Rightarrow> State_Monad.return (Inl err)
           | None \<Rightarrow> State_Monad.return (Inr (clusterVersionState, upgradeAcceleratorStatusChanged))
         }
         else State_Monad.return (Inr (clusterVersionState, upgradeAcceleratorStatusChanged))
       }
   }"

section \<open>Which version is read\<close>

lemma matched_version_eq:
  "matched_version vs acc =
     (let ms = filter (\<lambda>v. ov_Name v = UpgradeAcceleratorMachineConfigOperatorStatusVersionKey) vs
      in if ms = [] then acc else ov_Version (last ms))"
  by (induction vs arbitrary: acc) (auto simp: Let_def)

lemma getCurrentVersion_result:
  "fst (run_state (getCurrentVersion E) s) =
     (case on_GetClusterOperator E (trace s)
             \<lparr>nn_Namespace = ''openshift-machine-api'', nn_Name = ''machine-config''\<rparr> of
        Inl err \<Rightarrow> Inl err
      | Inr co \<Rightarrow>
          let ms = filter (\<lambda>v. ov_Name v = ''operator'') (co_Versions co)
          in if ms = [] \<or> ov_Version (last ms) = []
             then Inl \<lparr>IsNotFound = False, Error = ''failed to find machine-config operator version''\<rparr>
             else Inr (ov_Version (last ms)))"
  by (auto simp: getCurrentVersion_def matched_version_eq Let_def
      UpgradeAcceleratorMachineConfigOperatorStatusVersionKey_def split: sum.splits)

lemma hasMachineConfigClusterOperatorChanged_sym:
  "co_Name old = co_Name new \<Longrightarrow>
     hasMachineConfigClusterOperatorChanged (Some old) (Some new) =
     hasMachineConfigClusterOperatorChanged (Some new) (Some old)"
  by (auto simp: hasMachineConfigClusterOperatorChanged_def Let_def)

text \<open>
  The override of the spec decides which calls are made: none with version and image, one shell
  command with one of them, the ClusterVersion with neither.
\<close>

definition override_of :: "go_state \<Rightarrow> OverrideReleaseVersionType" where
  "override_of s = OverrideReleaseVersion (Config (Spec (obj s)))"

lemma getDesiredVersion_obj: "run_state (getDesiredVersion E) s = (r, s') \<Longrightarrow> obj s' = obj s"
  by (auto simp: getDesiredVersion_def Let_def run_GetReleaseImageFromVersion
      run_GetReleaseVersionFromImage split: if_splits)

lemma getCurrentVersion_obj: "run_state (getCurrentVersion E) s = (r, s') \<Longrightarrow> obj s' = obj s"
  by (auto simp: getCurrentVersion_def Let_def)

lemma getClusterVersionState_obj:
  "run_state (getClusterVersionState E) s = (r, s') \<Longrightarrow> obj s' = obj s"
  by (auto simp: getClusterVersionState_def split: prod.splits sum.splits
      dest!: getCurrentVersion_obj getDesiredVersion_obj)

text \<open>getDesiredVersion makes at most one call: none when both override fields are
set, the oc command for the missing one when only one is set (the field unquoted in the command
line), and the ClusterVersion otherwise; the result is that call's.\<close>

theorem getDesiredVersion_calls:
  "run_state (getDesiredVersion E) s =
     (let v = override_Version (override_of s); i = override_Image (override_of s);
          quoted = (\<lambda>field. [CHR 0x27] @ field @ [CHR 0x27]);
          image_cmd = ''oc adm release info '' @ v @ '' -o jsonpath='' @ quoted ''{.image}'';
          version_cmd = ''oc adm release info '' @ i @ '' -o jsonpath='' @ quoted ''{.metadata.version}'';
          key = \<lparr>nn_Namespace = ''openshift-cluster-version'', nn_Name = ''version''\<rparr>
      in if v \<noteq> [] \<and> i \<noteq> [] then (Inr (v, i), s)
         else if v \<noteq> [] then
           (map_sum id (\<lambda>image. (v, image)) (command_value (on_Exec E (trace s) image_cmd)),
            s\<lparr>trace := trace s @ [Exec image_cmd]\<rparr>)
         else if i \<noteq> [] then
           (map_sum id (\<lambda>version. (version, i)) (command_value (on_Exec E (trace s) version_cmd)),
            s\<lparr>trace := trace s @ [Exec version_cmd]\<rparr>)
         else
           (map_sum id (\<lambda>cv. (cv_DesiredVersion cv, cv_DesiredImage cv))
              (on_GetClusterVersion E (trace s) key),
            s\<lparr>trace := trace s @ [GetClusterVersion key]\<rparr>))"
proof -
  have sum_case: "(case r of Inl err \<Rightarrow> Inl err | Inr x \<Rightarrow> Inr (f x)) = map_sum id f r"
    for r :: "error + 'b" and f :: "'b \<Rightarrow> string \<times> string"
    by (cases r) auto
  show ?thesis
    by (simp add: getDesiredVersion_def override_of_def Let_def run_GetReleaseImageFromVersion
        run_GetReleaseVersionFromImage image_from_version_command_def
        version_from_image_command_def sum_case)
qed

section \<open>Recording the versions\<close>

definition versions_recorded ::
  "OpenShiftClusterVersionState \<Rightarrow> UpgradeAcceleratorStatus \<Rightarrow> bool" where
  "versions_recorded cvs st \<longleftrightarrow>
     CurrentVersion st = cvs_CurrentVersion cvs \<and> TargetVersion st = cvs_DesiredVersion cvs \<and>
     DesiredVersion st = cvs_DesiredVersion cvs \<and> DesiredImage st = cvs_DesiredImage cvs"

lemma record_versions_eq:
  "record_versions cvs st =
     (st\<lparr>CurrentVersion := cvs_CurrentVersion cvs, TargetVersion := cvs_DesiredVersion cvs,
        DesiredVersion := cvs_DesiredVersion cvs, DesiredImage := cvs_DesiredImage cvs\<rparr>,
      \<not> versions_recorded cvs st)"
  by (auto simp: record_versions_def versions_recorded_def Let_def)

text \<open>
  \<open>setupClusterVersion\<close> succeeds with the versions in the status and nothing else of it changed;
  it reports a change, and updates the status once, exactly when they were not there before.
\<close>

lemma setupClusterVersion_success:
  assumes "run_state (setupClusterVersion E) s = (Inr (cvs, changed), s')"
  shows "changed = (\<not> versions_recorded cvs (Status (obj s))) \<and>
         Status (obj s') = fst (record_versions cvs (Status (obj s))) \<and> Spec (obj s') = Spec (obj s)"
proof -
  obtain r t where r: "run_state (getClusterVersionState E) s = (r, t)" by fastforce
  note t = getClusterVersionState_obj [OF r]
  show ?thesis
    using assms r t
    by (auto simp: setupClusterVersion_def record_versions_eq run_Status_Update Let_def
        split: sum.splits prod.splits option.splits if_splits)
qed

section \<open>Invariants of a run\<close>

text \<open>
  An invariant of the whole reconciliation: it survives calls that do not write, and changes of
  the status that keep the conditions and add no warming and no preheated node.
\<close>

fun is_plain :: "api_call \<Rightarrow> bool" where
  "is_plain (UpdateStatus _) = False"
| "is_plain (CreateNamespace _) = False"
| "is_plain (CreateConfigMap _) = False"
| "is_plain (UpdateConfigMap _) = False"
| "is_plain (CreateJob _) = False"
| "is_plain _ = True"

definition shrinks :: "UpgradeAcceleratorStatus \<Rightarrow> UpgradeAcceleratorStatus \<Rightarrow> bool" where
  "shrinks st' st \<longleftrightarrow> Conditions st' = Conditions st \<and>
     set (NodesWarming st') \<subseteq> set (NodesWarming st) \<and>
     set (NodesPreheated st') \<subseteq> set (NodesPreheated st)"

definition same_lists :: "UpgradeAcceleratorStatus \<Rightarrow> UpgradeAcceleratorStatus \<Rightarrow> bool" where
  "same_lists st' st \<longleftrightarrow> Conditions st' = Conditions st \<and> NodesWaiting st' = NodesWaiting st \<and>
     NodesWarming st' = NodesWarming st \<and> NodesPreheated st' = NodesPreheated st \<and>
     LastCompletedVersion st' = LastCompletedVersion st"

lemma same_lists_shrinks: "same_lists st' st \<Longrightarrow> shrinks st' st"
  by (simp add: same_lists_def shrinks_def)

text \<open>What the functions that only query the cluster need: they touch none of the node lists.\<close>

locale query_invariant = status_invariant +
  assumes I_call: "is_plain c \<Longrightarrow> I s \<Longrightarrow> I (s\<lparr>trace := trace s @ [c]\<rparr>)"
    and I_same_lists: "(\<And>st. same_lists (f st) st) \<Longrightarrow> keeps I (modify_status f)"
begin

lemma I_plain: "is_plain c \<Longrightarrow> keeps I (perform c f)"
  by (rule keepsI) (auto intro: I_call)

lemma I_run_command: "keeps I (run_command E cmdLine)"
  unfolding run_command_def by (intro I_rules I_plain) simp

lemma I_getCurrentVersion: "keeps I (getCurrentVersion E)"
  unfolding getCurrentVersion_def by (intro I_rules I_plain) simp

lemma I_getDesiredVersion: "keeps I (getDesiredVersion E)"
  unfolding getDesiredVersion_def GetReleaseImageFromVersion_def GetReleaseVersionFromImage_def
    runOCCommandGetReleaseImageFromVersion_def runOCCommandGetReleaseVersionFromImage_def
  by (intro I_rules I_run_command I_plain) simp

lemma I_setupClusterVersion: "keeps I (setupClusterVersion E)"
  unfolding setupClusterVersion_def getClusterVersionState_def setConditionFailure_def
  by (intro I_rules I_getCurrentVersion I_getDesiredVersion I_same_lists)
     (simp add: record_versions_eq same_lists_def)

lemma I_getOpenShiftInfrastructureType: "keeps I (getOpenShiftInfrastructureType E)"
  unfolding getOpenShiftInfrastructureType_def by (intro I_rules I_plain) simp

end

text \<open>What the functions that also take nodes off the lists need.\<close>

locale run_invariant = status_invariant +
  assumes I_plain_call: "is_plain c \<Longrightarrow> I s \<Longrightarrow> I (s\<lparr>trace := trace s @ [c]\<rparr>)"
    and I_modify_status: "(\<And>st. shrinks (f st) st) \<Longrightarrow> keeps I (modify_status f)"

sublocale run_invariant \<subseteq> query_invariant
  by unfold_locales (blast intro: I_plain_call I_modify_status same_lists_shrinks)+

lemma calls_ok_call: "P c \<Longrightarrow> calls_ok P J s \<Longrightarrow> calls_ok P J (s\<lparr>trace := trace s @ [c]\<rparr>)"
  by (auto simp: calls_ok_def)

interpretation unique_types: run_invariant E unique_types_sent for E
proof unfold_locales
  show "unique_types_sent (s\<lparr>trace := trace s @ [c]\<rparr>)" if "is_plain c" "unique_types_sent s" for c s
    using that by (cases c) (auto intro: calls_ok_call)
qed (auto simp: distinct_types_def shrinks_def intro!: keeps_modify_status)

end
