(* ===== verification/NodeDetermination.thy ===== *)
theory NodeDetermination
  imports ClusterState
begin

text \<open>
  \<open>internal/controller/upgradeaccelerator_nodeDetermination.go\<close>: which nodes are targeted,
  prohibited, primers and excluded from priming. The map from pool names to selectors is an
  association list with distinct keys; the two \<open>range\<close> loops over it visit the keys in the
  orders \<open>map_range E 0\<close> and \<open>map_range E 1\<close>, which the runtime chooses.
\<close>

section \<open>Pools and labels\<close>

definition map_put :: "'k \<Rightarrow> 'v \<Rightarrow> ('k \<times> 'v) list \<Rightarrow> ('k \<times> 'v) list" where
  "map_put k v m =
     (if k \<in> fst ` set m then map (\<lambda>(k', v'). (k', if k' = k then v else v')) m else m @ [(k, v)])"

fun valid_pools ::
  "string list \<Rightarrow> MachineConfigPool list \<Rightarrow> (string \<times> LabelSelector) list \<Rightarrow>
   (string \<times> LabelSelector) list" where
  "valid_pools defined [] selectors = selectors"
| "valid_pools defined (pool # pools) selectors =
     valid_pools defined pools
       (if slices_Contains defined (mcp_Name pool)
        then (case mcp_NodeSelector pool of
                Some selector \<Rightarrow> map_put (mcp_Name pool) selector selectors
              | None \<Rightarrow> selectors)
        else selectors)"

definition determineValidMachineConfigPools ::
  "string list \<Rightarrow> MachineConfigPool list \<Rightarrow> (string \<times> LabelSelector) list" where
  "determineValidMachineConfigPools definedMachineConfigPools machineConfigPools =
     valid_pools definedMachineConfigPools machineConfigPools []"

definition disable_preheat_label :: string where
  "disable_preheat_label = ''openshift.kemo.dev/disable-preheat''"

definition primer_node_label :: string where
  "primer_node_label = ''openshift.kemo.dev/primer-node''"

definition label_is :: "Node \<Rightarrow> string \<Rightarrow> string \<Rightarrow> bool" where
  "label_is node key value =
     (case map_of (node_Labels node) key of
        Some labelValue \<Rightarrow> strings_ToLower labelValue = value
      | None \<Rightarrow> False)"

text \<open>The loop's accumulators: prohibited, primer and priming-prohibited nodes.\<close>

fun labeled_nodes ::
  "Node list \<Rightarrow> string list \<times> string list \<times> string list \<Rightarrow>
   string list \<times> string list \<times> string list" where
  "labeled_nodes [] acc = acc"
| "labeled_nodes (node # nodes) (prohibitedNodes, primerNodes, primingProhibitedNodes) =
     (let preheatingProhibited = label_is node disable_preheat_label ''true'';
          prohibitedNodes =
            (if preheatingProhibited then prohibitedNodes @ [node_Name node] else prohibitedNodes)
      in labeled_nodes nodes
           (if label_is node primer_node_label ''false'' then
              (prohibitedNodes, primerNodes, primingProhibitedNodes @ [node_Name node])
            else if \<not> preheatingProhibited then
              (prohibitedNodes, primerNodes @ [node_Name node], primingProhibitedNodes)
            else (prohibitedNodes, primerNodes, primingProhibitedNodes)))"

definition determineLabeledNodes ::
  "Node list \<Rightarrow> string list \<times> string list \<times> string list" where
  "determineLabeledNodes nodes = labeled_nodes nodes ([], [], [])"

section \<open>Primer nodes\<close>

fun pick_primer :: "string list \<Rightarrow> string list \<Rightarrow> string list \<Rightarrow> string list \<Rightarrow> string list" where
  "pick_primer prohibited primingProhibited [] primerNodes = primerNodes"
| "pick_primer prohibited primingProhibited (nodeName # rest) primerNodes =
     (if \<not> slices_Contains primingProhibited nodeName \<and> \<not> slices_Contains prohibited nodeName
      then primerNodes @ [nodeName]
      else pick_primer prohibited primingProhibited rest primerNodes)"

fun add_primers :: "string list \<Rightarrow> string list \<Rightarrow> string list \<Rightarrow> string list \<Rightarrow> string list" where
  "add_primers prohibited primingProhibited [] targetedNodes = targetedNodes"
| "add_primers prohibited primingProhibited (prmrNode # rest) targetedNodes =
     add_primers prohibited primingProhibited rest
       (if \<not> slices_Contains targetedNodes prmrNode \<and> \<not> slices_Contains primingProhibited prmrNode
           \<and> \<not> slices_Contains prohibited prmrNode
        then targetedNodes @ [prmrNode] else targetedNodes)"

text \<open>
  \<open>sortSliceOfStrings\<close> sorts in place: where the primers become the targets both results are
  the sorted slice.
\<close>

definition determinePrimerNodes ::
  "UpgradeAccelerator \<Rightarrow> string list \<Rightarrow> string list \<Rightarrow> string list \<Rightarrow> string list \<Rightarrow>
   string list \<times> string list" where
  "determinePrimerNodes upgradeAccelerator targetedNodes prohibitedNodes primerNodes
     primingProhibitedNodes =
     (if Prime (Spec upgradeAccelerator) then
        (if length targetedNodes > 0 then
           (if length primerNodes = 0 then
              (targetedNodes,
               pick_primer prohibitedNodes primingProhibitedNodes targetedNodes primerNodes)
            else
              (add_primers prohibitedNodes primingProhibitedNodes primerNodes targetedNodes,
               primerNodes))
         else if length primerNodes > 0 then
           (if length primerNodes > 1
            then (sortSliceOfStrings primerNodes, sortSliceOfStrings primerNodes)
            else (primerNodes, primerNodes))
         else (targetedNodes, primerNodes))
      else (targetedNodes, []))"

section \<open>Targeted nodes\<close>

text \<open>The exit of every failing call: two condition updates, then the error.\<close>

definition determine_failed :: "env \<Rightarrow> string \<Rightarrow> string list \<Rightarrow> error \<Rightarrow> (error + 'a) go" where
  "determine_failed E reason typeNames err = do {
     _ \<leftarrow> setConditionFailure E reason (Error err);
     _ \<leftarrow> deleteConditions E typeNames;
     State_Monad.return (Inl err)
   }"

definition failed_conditions :: "string list" where
  "failed_conditions =
     [CONDITION_TYPE_SUCCESSFUL, CONDITION_TYPE_PRIMER, CONDITION_TYPE_PRIMING_IN_PROGRESS,
      CONDITION_TYPE_SETUP_COMPLETE]"

definition List_Nodes :: "env \<Rightarrow> smap \<Rightarrow> (error + Node list) go" where
  "List_Nodes E labels = perform (ListNodes labels) (\<lambda>tr. on_ListNodes E tr labels)"

fun append_new :: "string list \<Rightarrow> Node list \<Rightarrow> string list" where
  "append_new targetedNodes [] = targetedNodes"
| "append_new targetedNodes (node # nodes) =
     append_new
       (if \<not> slices_Contains targetedNodes (node_Name node)
        then targetedNodes @ [node_Name node] else targetedNodes) nodes"

text \<open>The first loop merges the spec's selector into every pool's, in place.\<close>

fun merge_selectors ::
  "env \<Rightarrow> LabelSelector \<Rightarrow> string list \<Rightarrow> (string \<times> LabelSelector) list \<Rightarrow>
   error + (string \<times> LabelSelector) list" where
  "merge_selectors E nodeSelector [] selectors = Inr selectors"
| "merge_selectors E nodeSelector (pool # pools) selectors =
     (case map_of selectors pool of
        None \<Rightarrow> merge_selectors E nodeSelector pools selectors
      | Some selector \<Rightarrow>
          (case mergo_Merge E selector nodeSelector of
             Inl err \<Rightarrow> Inl err
           | Inr merged \<Rightarrow>
               merge_selectors E nodeSelector pools (map_put pool merged selectors)))"

text \<open>The second lists the nodes of every merged selector.\<close>

fun collect_pools ::
  "env \<Rightarrow> (string \<times> LabelSelector) list \<Rightarrow> string list \<Rightarrow> string list \<Rightarrow>
   (error + string list) go" where
  "collect_pools E selectors [] targetedNodes = State_Monad.return (Inr targetedNodes)"
| "collect_pools E selectors (pool # pools) targetedNodes =
     (case map_of selectors pool of
        None \<Rightarrow> collect_pools E selectors pools targetedNodes
      | Some selector \<Rightarrow> do {
          r \<leftarrow> List_Nodes E (MatchLabels selector);
          case r of
            Inl err \<Rightarrow>
              determine_failed E CONDITION_REASON_FAILURE_GET_NODES failed_conditions err
          | Inr items \<Rightarrow> collect_pools E selectors pools (append_new targetedNodes items)
        })"

definition target_by_pools ::
  "env \<Rightarrow> LabelSelector \<Rightarrow> (string \<times> LabelSelector) list \<Rightarrow> string list \<Rightarrow>
   (error + string list) go" where
  "target_by_pools E nodeSelector selectors targetedNodes = do {
     tr \<leftarrow> get_trace;
     case merge_selectors E nodeSelector (map_range E 0 tr (map fst selectors)) selectors of
       Inl err \<Rightarrow> determine_failed E CONDITION_REASON_FAILURE_SETUP failed_conditions err
     | Inr merged \<Rightarrow>
         collect_pools E merged (map_range E 1 tr (map fst merged)) targetedNodes
   }"

definition target_by_labels ::
  "env \<Rightarrow> LabelSelector \<Rightarrow> string list \<Rightarrow> (error + string list) go" where
  "target_by_labels E nodeSelector targetedNodes = do {
     r \<leftarrow> List_Nodes E (MatchLabels nodeSelector);
     case r of
       Inl err \<Rightarrow> determine_failed E CONDITION_REASON_FAILURE_GET_NODES failed_conditions err
     | Inr items \<Rightarrow>
         State_Monad.return
           (Inr (append_new targetedNodes
                   (filter (\<lambda>node. \<not> label_is node disable_preheat_label ''true'') items)))
   }"

text \<open>The pools of the spec that exist and have a selector; the list call is made when any is named.\<close>

definition get_pool_selectors ::
  "env \<Rightarrow> SelectorType \<Rightarrow> (error + (string \<times> LabelSelector) list) go" where
  "get_pool_selectors E selector =
     (if length (MachineConfigPools selector) > 0 then do {
        r \<leftarrow> perform ListMachineConfigPools (\<lambda>tr. on_ListMachineConfigPools E tr);
        case r of
          Inl err \<Rightarrow>
            determine_failed E CONDITION_REASON_FAILURE_GET_MACHINECONFIGPOOLS failed_conditions err
        | Inr machineConfigPools \<Rightarrow>
            State_Monad.return
              (Inr (determineValidMachineConfigPools (MachineConfigPools selector) machineConfigPools))
      }
      else State_Monad.return (Inr []))"

definition sort_if_many :: "string list \<Rightarrow> string list" where
  "sort_if_many nodes = (if length nodes > 1 then sortSliceOfStrings nodes else nodes)"

text \<open>The end of the function, after the selectors have been applied.\<close>

definition finish_targets ::
  "UpgradeAccelerator \<Rightarrow> string list \<times> string list \<times> string list \<Rightarrow> string list \<Rightarrow>
   string list \<times> string list \<times> string list \<times> string list" where
  "finish_targets upgradeAccelerator labeled targetedNodes =
     (case labeled of (prohibitedNodes, primerNodes, primingProhibitedNodes) \<Rightarrow>
        case determinePrimerNodes upgradeAccelerator (sort_if_many targetedNodes) prohibitedNodes
               primerNodes primingProhibitedNodes of
          (targetedNodes, primerNodes) \<Rightarrow>
            (targetedNodes, sort_if_many prohibitedNodes, sort_if_many primerNodes,
             sort_if_many primingProhibitedNodes))"

definition default_targets :: "SelectorType \<Rightarrow> Node list \<Rightarrow> string list \<Rightarrow> string list" where
  "default_targets selector nodes prohibitedNodes =
     (if NodeSelector selector = None \<and> length (MachineConfigPools selector) = 0
      then filter (\<lambda>name. \<not> slices_Contains prohibitedNodes name) (map node_Name nodes)
      else [])"

text \<open>Targeted, prohibited, primer and priming-prohibited nodes, or the error.\<close>

definition determineTargetedNodes ::
  "env \<Rightarrow> (error + string list \<times> string list \<times> string list \<times> string list) go" where
  "determineTargetedNodes E = do {
     upgradeAccelerator \<leftarrow> get_obj;
     let selector = Selector (Spec upgradeAccelerator);
     r \<leftarrow> List_Nodes E [];
     case r of
       Inl err \<Rightarrow>
         determine_failed E CONDITION_REASON_FAILURE_GET_NODES
           [CONDITION_TYPE_SUCCESSFUL, CONDITION_TYPE_RUNNING, CONDITION_TYPE_PRIMER,
            CONDITION_TYPE_PRIMING_IN_PROGRESS, CONDITION_TYPE_SETUP_COMPLETE] err
     | Inr nodes \<Rightarrow> do {
         let labeled = determineLabeledNodes nodes;
         let targetedNodes = default_targets selector nodes (fst labeled);
         r \<leftarrow> get_pool_selectors E selector;
         case r of
           Inl err \<Rightarrow> State_Monad.return (Inl err)
         | Inr selectors \<Rightarrow> do {
             r \<leftarrow> (case NodeSelector selector of
                     None \<Rightarrow> State_Monad.return (Inr targetedNodes)
                   | Some nodeSelector \<Rightarrow>
                       if length selectors > 0
                       then target_by_pools E nodeSelector selectors targetedNodes
                       else target_by_labels E nodeSelector targetedNodes);
             State_Monad.return (map_sum id (finish_targets upgradeAccelerator labeled) r)
           }
       }
   }"

section \<open>What the lists hold\<close>

definition names_with :: "(Node \<Rightarrow> bool) \<Rightarrow> Node list \<Rightarrow> string list" where
  "names_with Q nodes = map node_Name (filter Q nodes)"

definition preheat_disabled :: "Node \<Rightarrow> bool" where
  "preheat_disabled node = label_is node disable_preheat_label ''true''"

definition priming_disabled :: "Node \<Rightarrow> bool" where
  "priming_disabled node = label_is node primer_node_label ''false''"

lemma set_names_with: "set (names_with Q nodes) = node_Name ` {n \<in> set nodes. Q n}"
  by (auto simp: names_with_def)

lemma labeled_nodes_eq:
  "labeled_nodes nodes (prohibited, primers, excluded) =
     (prohibited @ names_with preheat_disabled nodes,
      primers @ names_with (\<lambda>n. \<not> preheat_disabled n \<and> \<not> priming_disabled n) nodes,
      excluded @ names_with priming_disabled nodes)"
  by (induction nodes arbitrary: prohibited primers excluded)
     (auto simp: Let_def names_with_def preheat_disabled_def priming_disabled_def)

lemma determineLabeledNodes_eq:
  "determineLabeledNodes nodes =
     (names_with preheat_disabled nodes,
      names_with (\<lambda>n. \<not> preheat_disabled n \<and> \<not> priming_disabled n) nodes,
      names_with priming_disabled nodes)"
  by (simp add: determineLabeledNodes_def labeled_nodes_eq)

text \<open>determineLabeledNodes partitions by labels: it returns, in list order, the
nodes labelled disable-preheat=true, those with neither that label nor primer-node=false, and
those labelled primer-node=false, values compared in any letter case.\<close>

theorem determineLabeledNodes_spec:
  "determineLabeledNodes nodes =
     (names_with preheat_disabled nodes,
      names_with (\<lambda>n. \<not> preheat_disabled n \<and> \<not> priming_disabled n) nodes,
      names_with priming_disabled nodes)"
  by (rule determineLabeledNodes_eq)

lemma pick_primer_eq:
  "pick_primer prohibited excluded nodes primers =
     primers @ take 1 (filter (\<lambda>n. n \<notin> set excluded \<and> n \<notin> set prohibited) nodes)"
  by (induction nodes) auto

lemma add_primers_set:
  "set (add_primers prohibited excluded primers targets) =
     set targets \<union> (set primers - set excluded - set prohibited)"
  by (induction primers arbitrary: targets) auto

lemma add_primers_distinct:
  "distinct targets \<Longrightarrow> distinct (add_primers prohibited excluded primers targets)"
  by (induction primers arbitrary: targets) auto

lemma append_new_set: "set (append_new targets nodes) = set targets \<union> node_Name ` set nodes"
  by (induction nodes arbitrary: targets) auto

lemma append_new_distinct: "distinct targets \<Longrightarrow> distinct (append_new targets nodes)"
  by (induction nodes arbitrary: targets) auto

lemma sort_if_many_mset [simp]: "mset (sort_if_many xs) = mset xs"
  by (simp add: sort_if_many_def go_sort.srt_permutes)

lemma sort_if_many_Nil [simp]: "sort_if_many [] = []"
  by (simp add: sort_if_many_def)

lemma sort_if_many_set [simp]: "set (sort_if_many xs) = set xs"
  by (simp add: sort_if_many_def)

lemma sort_if_many_distinct [simp]: "distinct (sort_if_many xs) = distinct xs"
  by (simp add: sort_if_many_def)

lemma sort_if_many_sorted: "sorted (map strings_ToUpper (sort_if_many xs))"
  by (cases xs; cases "tl xs") (auto simp: sort_if_many_def go_sort.srt_ascends)

lemma sort_if_many_cong:
  assumes "mset xs = mset ys" and "distinct (map strings_ToUpper xs)"
  shows "sort_if_many xs = sort_if_many ys"
proof -
  have len: "length xs = length ys" by (rule mset_eq_length [OF assms(1)])
  show ?thesis
  proof (cases "length xs > 1")
    case True
    with len sortSliceOfStrings_cong [OF assms] show ?thesis by (simp add: sort_if_many_def)
  next
    case False
    with len assms(1) have "xs = ys"
      by (cases xs; cases ys; cases "tl xs"; cases "tl ys") auto
    with False len show ?thesis by simp
  qed
qed

section \<open>Pools\<close>

lemma map_put_keys:
  "map fst (map_put k v m) = (if k \<in> fst ` set m then map fst m else map fst m @ [k])"
  by (auto simp: map_put_def comp_def split_beta)

lemma map_put_distinct: "distinct (map fst m) \<Longrightarrow> distinct (map fst (map_put k v m))"
  by (auto simp: map_put_keys)

lemma map_of_map_put: "map_of (map_put k v m) = (map_of m)(k \<mapsto> v)"
proof (cases "k \<in> fst ` set m")
  case True
  have "map_of (map (\<lambda>(k', v'). (k', if k' = k then v else v')) m) x =
          (if x = k then map_option (\<lambda>_. v) (map_of m k) else map_of m x)" for x
    by (induction m) auto
  moreover have "map_of m k \<noteq> None" using True by (simp add: map_of_eq_None_iff)
  ultimately show ?thesis using True by (auto simp: map_put_def fun_eq_iff)
next
  case False
  then have "map_of m k = None" by (simp add: map_of_eq_None_iff)
  with False show ?thesis
    by (auto simp: map_put_def fun_eq_iff map_add_def split: option.splits)
qed

lemma valid_pools_distinct:
  "distinct (map fst m) \<Longrightarrow> distinct (map fst (valid_pools defined pools m))"
  by (induction pools arbitrary: m) (auto intro!: map_put_distinct split: option.splits)

lemma determineValidMachineConfigPools_spec:
  "distinct (map fst (determineValidMachineConfigPools defined pools)) \<and>
   map_of (determineValidMachineConfigPools defined pools) =
     map_of (rev (map (\<lambda>p. (mcp_Name p, the (mcp_NodeSelector p)))
       (filter (\<lambda>p. mcp_Name p \<in> set defined \<and> mcp_NodeSelector p \<noteq> None) pools)))"
proof -
  have "map_of (valid_pools defined pools m) =
          map_of m ++ map_of (rev (map (\<lambda>p. (mcp_Name p, the (mcp_NodeSelector p)))
            (filter (\<lambda>p. mcp_Name p \<in> set defined \<and> mcp_NodeSelector p \<noteq> None) pools)))" for m
    by (induction pools arbitrary: m)
       (auto simp: map_of_map_put fun_eq_iff map_add_def split: option.splits)
  then show ?thesis
    by (simp add: determineValidMachineConfigPools_def valid_pools_distinct)
qed

lemma valid_pool_selector:
  assumes "distinct (map mcp_Name pools)" and "pool \<in> set pools" and "mcp_Name pool \<in> set defined"
    and "mcp_NodeSelector pool = Some selector"
  shows "map_of (determineValidMachineConfigPools defined pools) (mcp_Name pool) = Some selector"
proof -
  let ?sel = "map (\<lambda>p. (mcp_Name p, the (mcp_NodeSelector p)))
    (filter (\<lambda>p. mcp_Name p \<in> set defined \<and> mcp_NodeSelector p \<noteq> None) pools)"
  have "(mcp_Name pool, selector) \<in> set ?sel" using assms(2-4) by (force simp: image_iff)
  moreover have "distinct (map fst ?sel)" using assms(1) by (simp add: comp_def distinct_map_filter)
  ultimately have "map_of (rev ?sel) (mcp_Name pool) = Some selector"
    by (intro map_of_is_SomeI) (simp_all add: rev_map [symmetric])
  then show ?thesis by (simp add: determineValidMachineConfigPools_spec)
qed

section \<open>Runs\<close>

text \<open>
  Calls of the determination besides status updates: lists of nodes and pools. A run that
  succeeds makes no other call and leaves the held object alone.
\<close>

definition list_call :: "api_call \<Rightarrow> bool" where
  "list_call c \<longleftrightarrow> c = ListMachineConfigPools \<or> (\<exists>labels. c = ListNodes labels)"

definition reads_only :: "go_state \<Rightarrow> go_state \<Rightarrow> bool" where
  "reads_only s s' \<longleftrightarrow>
     obj s' = obj s \<and> (\<exists>cs. trace s' = trace s @ cs \<and> (\<forall>c \<in> set cs. list_call c))"

lemma reads_only_refl [simp]: "reads_only s s"
  by (simp add: reads_only_def)

lemma reads_only_trans: "reads_only s t \<Longrightarrow> reads_only t u \<Longrightarrow> reads_only s u"
  by (auto simp: reads_only_def)

lemma determine_failed_Inl:
  "run_state (determine_failed E reason ts err) s = (r, s') \<Longrightarrow> r = Inl err"
  by (auto simp: determine_failed_def split: prod.splits)

lemma run_List_Nodes [simp]:
  "run_state (List_Nodes E labels) s =
     (on_ListNodes E (trace s) labels, s\<lparr>trace := trace s @ [ListNodes labels]\<rparr>)"
  by (simp add: List_Nodes_def)

lemma reads_only_call: "list_call c \<Longrightarrow> reads_only s (s\<lparr>trace := trace s @ [c]\<rparr>)"
  by (simp add: reads_only_def)

lemma list_call_simps [simp]: "list_call (ListNodes labels)" "list_call ListMachineConfigPools"
  by (simp_all add: list_call_def)

lemma list_call_plain: "list_call c \<Longrightarrow> is_plain c"
  by (auto simp: list_call_def)

lemma collect_pools_success:
  "run_state (collect_pools E selectors ks targets) s = (Inr r, s') \<Longrightarrow>
     reads_only s s' \<and> set targets \<subseteq> set r \<and> (distinct targets \<longrightarrow> distinct r)"
proof (induction ks arbitrary: targets s)
  case Nil
  then show ?case by simp
next
  case (Cons k ks)
  show ?case
  proof (cases "map_of selectors k")
    case None
    with Cons show ?thesis by simp
  next
    case (Some sel)
    let ?call = "ListNodes (MatchLabels sel)"
    from Some Cons.prems obtain items where
      rest: "run_state (collect_pools E selectors ks (append_new targets items))
               (s\<lparr>trace := trace s @ [?call]\<rparr>) = (Inr r, s')"
      by (auto split: sum.splits dest: determine_failed_Inl)
    have "reads_only s (s\<lparr>trace := trace s @ [?call]\<rparr>)" by (simp add: reads_only_call)
    with Cons.IH [OF rest] show ?thesis
      by (auto simp: append_new_set append_new_distinct intro: reads_only_trans)
  qed
qed

lemma target_by_pools_success:
  assumes "run_state (target_by_pools E ns selectors targets) s = (Inr r, s')"
  shows "reads_only s s' \<and> set targets \<subseteq> set r \<and> (distinct targets \<longrightarrow> distinct r)"
  using assms
  by (auto simp: target_by_pools_def split: sum.splits
      dest: determine_failed_Inl dest!: collect_pools_success)

lemma target_by_labels_success:
  assumes "run_state (target_by_labels E ns targets) s = (Inr r, s')"
  shows "\<exists>items. on_ListNodes E (trace s) (MatchLabels ns) = Inr items \<and>
           s' = s\<lparr>trace := trace s @ [ListNodes (MatchLabels ns)]\<rparr> \<and>
           r = append_new targets (filter (\<lambda>n. \<not> preheat_disabled n) items)"
  using assms
  by (auto simp: target_by_labels_def preheat_disabled_def split: sum.splits
      dest: determine_failed_Inl)

lemma get_pool_selectors_success:
  assumes "run_state (get_pool_selectors E sel) s = (Inr r, s')"
  shows "reads_only s s' \<and> distinct (map fst r) \<and> (MachineConfigPools sel = [] \<longrightarrow> r = [] \<and> s' = s)"
  using assms
  by (auto simp: get_pool_selectors_def reads_only_call determineValidMachineConfigPools_def
      split: sum.splits if_splits dest: determine_failed_Inl intro: valid_pools_distinct)

lemma default_targets_Some [simp]: "NodeSelector sel = Some ns \<Longrightarrow> default_targets sel nodes p = []"
  by (simp add: default_targets_def)

lemma map_sum_Inr: "map_sum f g r = Inr y \<longleftrightarrow> (\<exists>x. r = Inr x \<and> y = g x)"
  by (cases r) auto

text \<open>The targets before the primers are considered, and what they depend on.\<close>

lemma determineTargetedNodes_success:
  assumes "run_state (determineTargetedNodes E) s = (Inr r, s')"
  shows "\<exists>nodes selectors targets t u.
           on_ListNodes E (trace s) [] = Inr nodes \<and>
           run_state (get_pool_selectors E (Selector (Spec (obj s)))) t = (Inr selectors, u) \<and>
           t = s\<lparr>trace := trace s @ [ListNodes []]\<rparr> \<and>
           (case NodeSelector (Selector (Spec (obj s))) of
              None \<Rightarrow>
                s' = u \<and> targets = default_targets (Selector (Spec (obj s))) nodes
                                    (names_with preheat_disabled nodes)
            | Some ns \<Rightarrow>
                if selectors \<noteq> []
                then run_state (target_by_pools E ns selectors []) u = (Inr targets, s')
                else run_state (target_by_labels E ns []) u = (Inr targets, s')) \<and>
           r = finish_targets (obj s) (determineLabeledNodes nodes) targets"
proof -
  let ?sel = "Selector (Spec (obj s))"
  from assms obtain nodes where nodes: "on_ListNodes E (trace s) [] = Inr nodes"
    by (auto simp: determineTargetedNodes_def Let_def split: sum.splits dest: determine_failed_Inl)
  let ?t = "s\<lparr>trace := trace s @ [ListNodes []]\<rparr>"
  obtain x u where g: "run_state (get_pool_selectors E ?sel) ?t = (x, u)" by fastforce
  have "\<exists>selectors. x = Inr selectors"
    using assms g nodes
    by (cases x) (auto simp: determineTargetedNodes_def Let_def)
  then obtain selectors where x: "x = Inr selectors" ..
  from assms nodes g x show ?thesis
    by (cases "NodeSelector ?sel")
       (auto simp: determineTargetedNodes_def Let_def determineLabeledNodes_eq map_sum_Inr
         split: prod.splits if_splits)
qed

lemma determined_cases:
  assumes "run_state (determineTargetedNodes E) s = (Inr r, s')"
    and "on_ListNodes E (trace s) [] = Inr nodes"
  obtains
    (Default) "NodeSelector (Selector (Spec (obj s))) = None"
      "r = finish_targets (obj s) (determineLabeledNodes nodes)
             (default_targets (Selector (Spec (obj s))) nodes (names_with preheat_disabled nodes))"
  | (Pools) ns selectors T u where "NodeSelector (Selector (Spec (obj s))) = Some ns"
      "run_state (get_pool_selectors E (Selector (Spec (obj s))))
         (s\<lparr>trace := trace s @ [ListNodes []]\<rparr>) = (Inr selectors, u)"
      "selectors \<noteq> []" "run_state (target_by_pools E ns selectors []) u = (Inr T, s')"
      "r = finish_targets (obj s) (determineLabeledNodes nodes) T"
  | (Labelled) ns T u where "NodeSelector (Selector (Spec (obj s))) = Some ns"
      "run_state (get_pool_selectors E (Selector (Spec (obj s))))
         (s\<lparr>trace := trace s @ [ListNodes []]\<rparr>) = (Inr [], u)"
      "run_state (target_by_labels E ns []) u = (Inr T, s')"
      "r = finish_targets (obj s) (determineLabeledNodes nodes) T"
  using determineTargetedNodes_success [OF assms(1)] assms(2)
  by (cases "NodeSelector (Selector (Spec (obj s)))") (force split: if_splits)+

section \<open>The result\<close>

lemma sort_if_many_sort_key: "sort_if_many xs = sort_key strings_ToUpper xs"
  by (cases xs; cases "tl xs") (auto simp: sort_if_many_def sortSliceOfStrings_stable)

lemma names_with_not_prohibited:
  assumes "distinct (map node_Name nodes)"
  shows "filter (\<lambda>name. name \<notin> set (names_with Q nodes)) (map node_Name nodes) =
         names_with (\<lambda>n. \<not> Q n) nodes"
proof -
  have "node_Name n \<notin> node_Name ` {m \<in> set nodes. Q m} \<longleftrightarrow> \<not> Q n" if "n \<in> set nodes" for n
    using assms that by (auto simp: distinct_map dest: inj_onD)
  then show ?thesis
    by (simp add: names_with_def filter_map comp_def cong: filter_cong)
qed

text \<open>C19: Without selectors and with priming off, determineTargetedNodes makes one list
call and returns the nodes that are not labelled disable-preheat=true, the nodes that are, no
primers, and the nodes labelled primer-node=false, each list sorted by its upper-cased
names.\<close>

theorem determineTargetedNodes_default:
  assumes "NodeSelector (Selector (Spec (obj s))) = None"
    and "MachineConfigPools (Selector (Spec (obj s))) = []"
    and "\<not> Prime (Spec (obj s))"
    and "on_ListNodes E (trace s) [] = Inr nodes"
    and "distinct (map node_Name nodes)"
  shows "run_state (determineTargetedNodes E) s =
     (Inr (sort_key strings_ToUpper (names_with (\<lambda>n. \<not> preheat_disabled n) nodes),
           sort_key strings_ToUpper (names_with preheat_disabled nodes),
           [],
           sort_key strings_ToUpper (names_with priming_disabled nodes)),
      s\<lparr>trace := trace s @ [ListNodes []]\<rparr>)"
  using assms
  by (simp add: determineTargetedNodes_def Let_def get_pool_selectors_def default_targets_def
      determineLabeledNodes_eq finish_targets_def determinePrimerNodes_def
      sort_if_many_sort_key names_with_not_prohibited)

lemma finish_targets_prime:
  assumes "Prime (Spec u)"
    and "finish_targets u (determineLabeledNodes nodes) T = (targeted, prohibited, primers, excluded)"
    and "distinct (map node_Name nodes)"
    and "n \<in> set nodes" and "\<not> preheat_disabled n" and "\<not> priming_disabled n"
  shows "node_Name n \<in> set targeted \<and>
         primers = sort_key strings_ToUpper
           (names_with (\<lambda>n. \<not> preheat_disabled n \<and> \<not> priming_disabled n) nodes)"
proof -
  have mem: "node_Name n \<in> set (names_with (\<lambda>n. \<not> preheat_disabled n \<and> \<not> priming_disabled n) nodes)"
    using assms(4-6) by (auto simp: set_names_with)
  have "node_Name n \<noteq> node_Name m" if "m \<in> set nodes" "preheat_disabled m \<or> priming_disabled m" for m
    using assms(3-6) that by (auto simp: distinct_map dest: inj_onD)
  then have "node_Name n \<notin> set (names_with preheat_disabled nodes)"
    "node_Name n \<notin> set (names_with priming_disabled nodes)"
    by (auto simp: set_names_with)
  with mem assms(1,2) show ?thesis
    by (auto simp: finish_targets_def determinePrimerNodes_def determineLabeledNodes_eq
        add_primers_set sort_if_many_sort_key sortSliceOfStrings_stable sort_key_id_if_sorted
        split: if_splits)
qed

text \<open>C21: With priming on, every node that carries neither label is a primer and is
targeted, whatever selectors the spec sets: the primers are all nodes without
disable-preheat=true and primer-node=false, since a missing primer-node label counts as
true.\<close>

theorem determineTargetedNodes_prime:
  assumes "run_state (determineTargetedNodes E) s = (Inr (targeted, prohibited, primers, excluded), s')"
    and "Prime (Spec (obj s))"
    and "on_ListNodes E (trace s) [] = Inr nodes"
    and "distinct (map node_Name nodes)"
    and "n \<in> set nodes" and "\<not> preheat_disabled n" and "\<not> priming_disabled n"
  shows "node_Name n \<in> set targeted \<and>
         primers = sort_key strings_ToUpper
           (names_with (\<lambda>n. \<not> preheat_disabled n \<and> \<not> priming_disabled n) nodes)"
proof -
  from determineTargetedNodes_success [OF assms(1)] assms(3) obtain T where
    "(targeted, prohibited, primers, excluded) =
       finish_targets (obj s) (determineLabeledNodes nodes) T" by auto
  from finish_targets_prime [OF assms(2) this [symmetric] assms(4-7)] show ?thesis .
qed

text \<open>C22: A spec that names machine config pools and no node selector, with priming off,
targets no node at all: the selectors of the pools are collected and then used only where a node
selector is set.\<close>

theorem determineTargetedNodes_pools_only:
  assumes "run_state (determineTargetedNodes E) s = (Inr (targeted, prohibited, primers, excluded), s')"
    and "NodeSelector (Selector (Spec (obj s))) = None"
    and "MachineConfigPools (Selector (Spec (obj s))) \<noteq> []"
    and "\<not> Prime (Spec (obj s))"
  shows "targeted = [] \<and> primers = []"
  using determineTargetedNodes_success [OF assms(1)] assms(2-4)
  by (auto simp: finish_targets_def determinePrimerNodes_def default_targets_def sort_if_many_def
      determineLabeledNodes_eq)

lemma default_targets_distinct:
  "distinct (map node_Name nodes) \<Longrightarrow> distinct (default_targets sel nodes p)"
  by (simp add: default_targets_def)

lemma target_by_labels_distinct:
  "run_state (target_by_labels E ns []) s = (Inr r, s') \<Longrightarrow> distinct r"
  by (auto dest!: target_by_labels_success intro: append_new_distinct)

text \<open>With priming off, the targeted nodes have no duplicates and are sorted by
upper-cased name, and there are no primers.\<close>

theorem determineTargetedNodes_sorted:
  assumes "run_state (determineTargetedNodes E) s = (Inr (targeted, prohibited, primers, excluded), s')"
    and "\<not> Prime (Spec (obj s))"
    and "on_ListNodes E (trace s) [] = Inr nodes"
    and "distinct (map node_Name nodes)"
  shows "distinct targeted \<and> sorted (map strings_ToUpper targeted) \<and> primers = []"
proof -
  from assms(1,3) obtain T where
    r: "(targeted, prohibited, primers, excluded) =
          finish_targets (obj s) (determineLabeledNodes nodes) T" and "distinct T"
  proof (cases rule: determined_cases)
    case Default
    then show ?thesis by (auto intro: that default_targets_distinct assms(4))
  next
    case Pools
    then show ?thesis by (auto intro: that dest: target_by_pools_success)
  next
    case Labelled
    then show ?thesis by (auto intro: that dest: target_by_labels_distinct)
  qed
  with assms(2) show ?thesis
    by (auto simp: finish_targets_def determinePrimerNodes_def sort_if_many_sorted
        split: prod.splits)
qed

text \<open>
  One snapshot of the cluster: every list call answers from the same nodes. The determination
  then honours the exclusion label, unless pools and a node selector are combined.
\<close>

definition node_snapshot :: "env \<Rightarrow> (smap \<Rightarrow> Node \<Rightarrow> bool) \<Rightarrow> Node list \<Rightarrow> bool" where
  "node_snapshot E matches nodes \<longleftrightarrow>
     (\<forall>tr labels. on_ListNodes E tr labels = Inr (filter (matches labels) nodes)) \<and>
     (\<forall>n. matches [] n) \<and> distinct (map node_Name nodes)"

lemma determinePrimerNodes_allowed:
  assumes "determinePrimerNodes u T prohibited primers excluded = (targeted, primers')"
    and "set T \<inter> set prohibited = {}" and "set primers \<inter> set prohibited = {}"
  shows "set targeted \<inter> set prohibited = {} \<and> set primers' \<inter> set prohibited = {}"
proof -
  have "set (pick_primer prohibited excluded T primers) \<inter> set prohibited = {}"
    using assms(3) by (auto simp: pick_primer_eq dest: in_set_takeD)
  with assms show ?thesis
    by (auto simp: determinePrimerNodes_def add_primers_set split: if_splits)
qed

lemma determined_targets_enabled:
  assumes "node_snapshot E matches nodes"
    and "run_state (target_by_labels E ns []) s = (Inr T, s')"
  shows "set T \<inter> set (names_with preheat_disabled nodes) = {}"
proof -
  from target_by_labels_success [OF assms(2)] assms(1)
  have "set T = node_Name ` {n \<in> set nodes. matches (MatchLabels ns) n \<and> \<not> preheat_disabled n}"
    by (auto simp: node_snapshot_def append_new_set)
  with assms(1) show ?thesis
    by (auto simp: node_snapshot_def set_names_with distinct_map dest: inj_onD)
qed

text \<open>C18: A node labelled disable-preheat=true is neither targeted nor a primer and is
reported as prohibited, whenever the node selector and the machine config pools are not both set
and all list calls answer from one snapshot of the nodes.\<close>

theorem disabled_nodes_untouched:
  assumes "run_state (determineTargetedNodes E) s = (Inr (targeted, prohibited, primers, excluded), s')"
    and "node_snapshot E matches nodes"
    and "NodeSelector (Selector (Spec (obj s))) = None \<or> MachineConfigPools (Selector (Spec (obj s))) = []"
    and "n \<in> set nodes" and "preheat_disabled n"
  shows "node_Name n \<notin> set targeted \<and> node_Name n \<notin> set primers \<and> node_Name n \<in> set prohibited"
proof -
  let ?bad = "names_with preheat_disabled nodes"
  let ?fine = "names_with (\<lambda>n. \<not> preheat_disabled n \<and> \<not> priming_disabled n) nodes"
  have all: "on_ListNodes E (trace s) [] = Inr nodes" and dist: "distinct (map node_Name nodes)"
    using assms(2) by (auto simp: node_snapshot_def)
  have "set ?fine \<inter> set ?bad = {}"
    using dist by (auto simp: set_names_with distinct_map dest: inj_onD)
  moreover from assms(1) all obtain T where
    "(targeted, prohibited, primers, excluded) =
        finish_targets (obj s) (determineLabeledNodes nodes) T"
    and "set (sort_if_many T) \<inter> set ?bad = {}"
  proof (cases rule: determined_cases)
    case Default
    then show ?thesis by (intro that) (auto simp: default_targets_def)
  next
    case (Pools ns)
    with assms(3) show ?thesis by (auto dest: get_pool_selectors_success)
  next
    case Labelled
    from determined_targets_enabled [OF assms(2) Labelled(3)] Labelled(4)
    show ?thesis by (intro that) simp_all
  qed
  ultimately have "set targeted \<inter> set ?bad = {} \<and> set primers \<inter> set ?bad = {} \<and>
                   set prohibited = set ?bad"
    using determinePrimerNodes_allowed
    by (fastforce simp: finish_targets_def determineLabeledNodes_eq split: prod.splits)
  moreover have "node_Name n \<in> set ?bad" using assms(4,5) by (auto simp: set_names_with)
  ultimately show ?thesis by auto
qed

text \<open>
  With pools and a node selector the label is not looked at: a node that carries it is targeted.
\<close>

definition worker :: "string \<Rightarrow> smap \<Rightarrow> Node" where
  "worker name extra = \<lparr>node_Name = name, node_Labels = (''role'', ''worker'') # extra\<rparr>"

definition worker_selector :: LabelSelector where
  "worker_selector = \<lparr>MatchLabels = [(''role'', ''worker'')], MatchExpressions = []\<rparr>"

definition labels_match :: "smap \<Rightarrow> Node \<Rightarrow> bool" where
  "labels_match labels node = list_all (\<lambda>(k, v). map_of (node_Labels node) k = Some v) labels"

definition cluster_env :: "Node list \<Rightarrow> env" where
  "cluster_env nodes = idle_env\<lparr>
     on_ListNodes := (\<lambda>tr labels. Inr (filter (labels_match labels) nodes)),
     on_ListMachineConfigPools :=
       (\<lambda>tr. Inr [\<lparr>mcp_Name = ''worker'', mcp_NodeSelector = Some worker_selector\<rparr>,
               \<lparr>mcp_Name = ''infra'', mcp_NodeSelector =
                  Some \<lparr>MatchLabels = [(''role'', ''infra'')], MatchExpressions = []\<rparr>\<rparr>])\<rparr>"

definition selecting :: "LabelSelector option \<Rightarrow> string list \<Rightarrow> bool \<Rightarrow> UpgradeAccelerator" where
  "selecting nodeSelector pools prime = zero_UpgradeAccelerator
     \<lparr>Spec := zero_Spec\<lparr>Selector := \<lparr>NodeSelector = nodeSelector, MachineConfigPools = pools\<rparr>,
                        Prime := prime\<rparr>\<rparr>"

lemmas concrete_defs = worker_def worker_selector_def labels_match_def cluster_env_def
  selecting_def start_def idle_env_def zero_defs

lemma node_snapshot_cluster:
  "distinct (map node_Name nodes) \<Longrightarrow> node_snapshot (cluster_env nodes) labels_match nodes"
  by (simp add: node_snapshot_def cluster_env_def labels_match_def)

section \<open>The order of map iteration\<close>

lemma merge_selectors_Inr:
  assumes "merge_selectors E ns ks sels = Inr m" and "distinct ks" and "set ks \<subseteq> fst ` set sels"
  shows "map fst m = map fst sels \<and>
         map_of m = (\<lambda>k. if k \<in> set ks
                         then map_option (\<lambda>v. projr (mergo_Merge E v ns)) (map_of sels k)
                         else map_of sels k)"
  using assms
proof (induction ks arbitrary: sels)
  case Nil
  then show ?case by auto
next
  case (Cons k ks)
  then obtain v where v: "map_of sels k = Some v"
    by (metis insert_subset list.simps(15) map_of_eq_None_iff option.exhaust set_map)
  with Cons.prems obtain w where w: "mergo_Merge E v ns = Inr w"
    and rest: "merge_selectors E ns ks (map_put k w sels) = Inr m"
    by (auto split: sum.splits)
  have keys: "map fst (map_put k w sels) = map fst sels"
    using Cons.prems(3) by (simp add: map_put_keys)
  then have sub: "set ks \<subseteq> fst ` set (map_put k w sels)"
    using Cons.prems(3) by (metis insert_subset list.simps(15) set_map)
  from Cons.IH [OF rest _ sub] Cons.prems(2) keys v w show ?case
    by (auto simp: map_of_map_put fun_eq_iff)
qed

lemma collect_pools_set:
  assumes "\<And>tr labels. on_ListNodes E tr labels = Inr (answer labels)"
    and "run_state (collect_pools E m ks T) s = (Inr r, s')"
  shows "set r = set T \<union> (\<Union>k \<in> set ks. \<Union>sel \<in> set_option (map_of m k).
                            node_Name ` set (answer (MatchLabels sel)))"
  using assms(2)
proof (induction ks arbitrary: T s)
  case (Cons k ks)
  then show ?case
    by (cases "map_of m k") (auto simp: assms(1) append_new_set)
qed simp

lemma target_by_pools_set:
  assumes "\<And>tr labels. on_ListNodes E tr labels = Inr (answer labels)"
    and "\<And>n tr ks. mset (map_range E n tr ks) = mset ks"
    and "distinct (map fst sels)"
    and "run_state (target_by_pools E ns sels []) s = (Inr T, s')"
  shows "set T = (\<Union>k \<in> fst ` set sels. \<Union>sel \<in> set_option (map_of sels k).
                    node_Name ` set (answer (MatchLabels (projr (mergo_Merge E sel ns)))))"
proof -
  let ?ks = "map_range E 0 (trace s) (map fst sels)"
  have ks: "distinct ?ks" "set ?ks = fst ` set sels"
    using mset_eq_imp_distinct_iff [OF assms(2)] mset_eq_setD [OF assms(2)] assms(3) by simp_all
  from assms(4) obtain m where m: "merge_selectors E ns ?ks sels = Inr m"
    and c: "run_state (collect_pools E m (map_range E 1 (trace s) (map fst m)) []) s = (Inr T, s')"
    by (auto simp: target_by_pools_def split: sum.splits dest: determine_failed_Inl)
  note merged = merge_selectors_Inr [OF m ks(1)] ks(2)
  have "set (map_range E 1 (trace s) (map fst m)) = fst ` set sels"
    using merged mset_eq_setD [OF assms(2)] by (metis order_refl set_map)
  moreover have "map_of m = (\<lambda>k. if k \<in> fst ` set sels
      then map_option (\<lambda>v. projr (mergo_Merge E v ns)) (map_of sels k) else map_of sels k)"
    using merged by simp
  ultimately show ?thesis
    using collect_pools_set [OF assms(1) c] by (simp add: option.set_map)
qed

lemma get_pool_selectors_range:
  assumes "run_state (get_pool_selectors (E\<lparr>map_range := \<rho>\<rparr>) sel) s = (Inr r, s')"
  shows "run_state (get_pool_selectors E sel) s = (Inr r, s')"
  using assms
  by (auto simp: get_pool_selectors_def split: sum.splits if_splits dest: determine_failed_Inl)

lemma same_set_same_order:
  assumes "set xs = set ys" and "distinct xs" and "distinct ys" and "inj_on strings_ToUpper (set xs)"
  shows "sort_if_many xs = sort_if_many ys"
  using assms
  by (intro sort_if_many_cong) (auto simp: distinct_map set_eq_iff_mset_eq_distinct)

text \<open>C17: The result of determineTargetedNodes does not depend on the order in which Go
ranges over the map of pool selectors: two runs that differ in that order only and both return
give the same four lists, when node names do not collide in upper case and the API server
answers list calls by their labels.\<close>

theorem determineTargetedNodes_range_order:
  assumes "run_state (determineTargetedNodes (E\<lparr>map_range := \<rho>1\<rparr>)) s = (Inr r1, s1)"
    and "run_state (determineTargetedNodes (E\<lparr>map_range := \<rho>2\<rparr>)) s = (Inr r2, s2)"
    and "\<And>n tr ks. mset (\<rho>1 n tr ks) = mset ks" and "\<And>n tr ks. mset (\<rho>2 n tr ks) = mset ks"
    and "\<And>tr labels. on_ListNodes E tr labels = Inr (answer labels)"
    and "inj_on strings_ToUpper (\<Union>labels. node_Name ` set (answer labels))"
  shows "r1 = r2"
proof -
  let ?sel = "Selector (Spec (obj s))"
  have same: "sort_if_many T1 = sort_if_many T2"
    if ns: "run_state (target_by_pools (E\<lparr>map_range := \<rho>1\<rparr>) ns sels []) u = (Inr T1, s1)"
      "run_state (target_by_pools (E\<lparr>map_range := \<rho>2\<rparr>) ns sels []) u = (Inr T2, s2)"
      "distinct (map fst sels)" for ns sels u T1 T2
  proof (rule same_set_same_order)
    let ?U = "\<Union>k \<in> fst ` set sels. \<Union>sel \<in> set_option (map_of sels k).
                node_Name ` set (answer (MatchLabels (projr (mergo_Merge E sel ns))))"
    have T1: "set T1 = ?U"
      using target_by_pools_set [OF _ _ ns(3,1), of answer] assms(3,5) by simp
    have T2: "set T2 = ?U"
      using target_by_pools_set [OF _ _ ns(3,2), of answer] assms(4,5) by simp
    show "set T1 = set T2" using T1 T2 by simp
    show "distinct T1" "distinct T2" using ns(1,2) by (auto dest!: target_by_pools_success)
    have "?U \<subseteq> (\<Union>labels. node_Name ` set (answer labels))" by blast
    with T1 show "inj_on strings_ToUpper (set T1)" using inj_on_subset [OF assms(6)] by simp
  qed
  have all: "on_ListNodes (E\<lparr>map_range := \<rho>\<rparr>) (trace s) [] = Inr (answer [])" for \<rho>
    by (simp add: assms(5))
  from assms(1) all show ?thesis
  proof (cases rule: determined_cases)
    case Default
    from assms(2) all show ?thesis by (cases rule: determined_cases) (simp_all add: Default)
  next
    case one: (Pools ns sels T u)
    from assms(2) all show ?thesis
    proof (cases rule: determined_cases)
      case two: (Pools ns' sels' T' u')
      from get_pool_selectors_range [OF one(2)] get_pool_selectors_range [OF two(2)] one(1) two(1)
      have "sels' = sels" "u' = u" "ns' = ns" by auto
      moreover have "distinct (map fst sels)"
        using get_pool_selectors_success [OF one(2)] by simp
      ultimately have "sort_if_many T = sort_if_many T'" using same one(4) two(4) by simp
      with one(5) two(5) show ?thesis by (simp add: finish_targets_def)
    next
      case two: Labelled
      from get_pool_selectors_range [OF one(2)] get_pool_selectors_range [OF two(2)] one(3)
      show ?thesis by simp
    qed (use one in simp)
  next
    case one: (Labelled ns T u)
    from assms(2) all show ?thesis
    proof (cases rule: determined_cases)
      case two: Pools
      from get_pool_selectors_range [OF one(2)] get_pool_selectors_range [OF two(2)] two(3)
      show ?thesis by simp
    next
      case two: (Labelled ns' T' u')
      from get_pool_selectors_range [OF one(2)] get_pool_selectors_range [OF two(2)] one(1) two(1)
      have "u' = u" "ns' = ns" by auto
      with target_by_labels_success [OF one(3)] target_by_labels_success [OF two(3)] one(4) two(4)
      show ?thesis by auto
    qed (use one in simp)
  qed
qed

section \<open>Pools and a node selector\<close>

lemma finish_targets_keeps:
  assumes "finish_targets u (determineLabeledNodes nodes) T = (targeted, prohibited, primers, excluded)"
    and "x \<in> set T"
  shows "x \<in> set targeted \<and> set prohibited = set (names_with preheat_disabled nodes)"
proof -
  have "sort_if_many T \<noteq> []"
    using assms(2) by (metis empty_iff empty_set sort_if_many_set)
  with assms show ?thesis
    by (auto simp: finish_targets_def determinePrimerNodes_def determineLabeledNodes_eq
        add_primers_set split: prod.splits if_splits)
qed


section \<open>Concrete runs\<close>

definition sample_nodes :: "Node list" where
  "sample_nodes = [worker ''b'' [], worker ''c'' [(disable_preheat_label, ''True'')],
     worker ''a'' [(primer_node_label, ''false'')]]"

abbreviation (input) run_sample where
  "run_sample nodeSelector pools prime \<equiv>
     run_state (determineTargetedNodes (cluster_env sample_nodes))
       (start (selecting nodeSelector pools prime))"

lemma run_sample_prime:
  "run_sample None [''worker''] True =
   (Inr ([''b''], [''c''], [''b''], [''a'']),
    (start (selecting None [''worker''] True))\<lparr>trace := [ListNodes [], ListMachineConfigPools]\<rparr>)"
  by code_simp

lemma run_sample_pools:
  "run_sample None [''worker''] False =
   (Inr ([], [''c''], [], [''a'']),
    (start (selecting None [''worker''] False))\<lparr>trace := [ListNodes [], ListMachineConfigPools]\<rparr>)"
  by code_simp

lemma run_sample_labels:
  "run_sample (Some worker_selector) [] False =
   (Inr ([''a'', ''b''], [''c''], [], [''a'']),
    (start (selecting (Some worker_selector) [] False))
      \<lparr>trace := [ListNodes [], ListNodes [(''role'', ''worker'')]]\<rparr>)"
  by code_simp

lemma run_sample_both:
  "run_sample (Some worker_selector) [''worker''] False =
   (Inr ([''a'', ''b'', ''c''], [''c''], [], [''a'']),
    (start (selecting (Some worker_selector) [''worker''] False))
      \<lparr>trace := [ListNodes [], ListMachineConfigPools, ListNodes [(''role'', ''worker'')]]\<rparr>)"
  by code_simp

lemma snapshot_sample: "node_snapshot (cluster_env sample_nodes) labels_match sample_nodes"
  by (rule node_snapshot_cluster) code_simp

theorem determineTargetedNodes_default_witness:
  "run_sample None [] False =
     (Inr (sort_key strings_ToUpper (names_with (\<lambda>n. \<not> preheat_disabled n) sample_nodes),
           sort_key strings_ToUpper (names_with preheat_disabled sample_nodes), [],
           sort_key strings_ToUpper (names_with priming_disabled sample_nodes)),
      (start (selecting None [] False))\<lparr>trace := trace (start (selecting None [] False)) @ [ListNodes []]\<rparr>)"
  by (rule determineTargetedNodes_default) code_simp+

theorem determineTargetedNodes_prime_witness:
  "node_Name (worker ''b'' []) \<in> set [''b''] \<and>
   [''b''] = sort_key strings_ToUpper
     (names_with (\<lambda>n. \<not> preheat_disabled n \<and> \<not> priming_disabled n) sample_nodes)"
  by (rule determineTargetedNodes_prime [OF run_sample_prime]) code_simp+

theorem determineTargetedNodes_pools_only_witness:
  "\<exists>targeted prohibited primers excluded s'.
     run_sample None [''worker''] False = (Inr (targeted, prohibited, primers, excluded), s') \<and>
     targeted = [] \<and> primers = []"
proof (intro exI conjI)
  show "([] :: string list) = []" "([] :: string list) = []"
    using determineTargetedNodes_pools_only [OF run_sample_pools]
    by (simp_all add: start_def selecting_def)
qed (rule run_sample_pools)

theorem determineTargetedNodes_sorted_witness:
  "\<exists>targeted prohibited primers excluded s'.
     run_sample (Some worker_selector) [] False = (Inr (targeted, prohibited, primers, excluded), s') \<and>
     distinct targeted \<and> sorted (map strings_ToUpper targeted) \<and> primers = []"
proof -
  have "distinct [''a'', ''b''] \<and> sorted (map strings_ToUpper [''a'', ''b'']) \<and> ([] :: string list) = []"
    by (rule determineTargetedNodes_sorted [OF run_sample_labels]) code_simp+
  with run_sample_labels show ?thesis by blast
qed

theorem disabled_nodes_untouched_witness:
  "node_Name (worker ''c'' [(disable_preheat_label, ''True'')]) \<notin> set [''a'', ''b''] \<and>
   node_Name (worker ''c'' [(disable_preheat_label, ''True'')]) \<notin> set [] \<and>
   node_Name (worker ''c'' [(disable_preheat_label, ''True'')]) \<in> set [''c'']"
  by (rule disabled_nodes_untouched [OF run_sample_labels snapshot_sample]) code_simp+


theorem determineTargetedNodes_range_order_witness:
  "([''a'', ''b'', ''c''], [''c''], [] :: string list, [''a'']) =
   ([''a'', ''b'', ''c''], [''c''], [], [''a''])"
proof (rule determineTargetedNodes_range_order)
  show "run_state (determineTargetedNodes
         ((cluster_env sample_nodes)\<lparr>map_range := \<lambda>n tr ks. ks\<rparr>))
         (start (selecting (Some worker_selector) [''worker'', ''infra''] False)) =
       (Inr ([''a'', ''b'', ''c''], [''c''], [], [''a'']),
        (start (selecting (Some worker_selector) [''worker'', ''infra''] False))
      \<lparr>trace := [ListNodes [], ListMachineConfigPools, ListNodes [(''role'', ''worker'')], ListNodes [(''role'', ''infra'')]]\<rparr>)"
    by code_simp
  show "run_state (determineTargetedNodes
         ((cluster_env sample_nodes)\<lparr>map_range := \<lambda>n tr ks. rev ks\<rparr>))
         (start (selecting (Some worker_selector) [''worker'', ''infra''] False)) =
       (Inr ([''a'', ''b'', ''c''], [''c''], [], [''a'']),
        (start (selecting (Some worker_selector) [''worker'', ''infra''] False))
      \<lparr>trace := [ListNodes [], ListMachineConfigPools, ListNodes [(''role'', ''infra'')], ListNodes [(''role'', ''worker'')]]\<rparr>)"
    by code_simp
  show "on_ListNodes (cluster_env sample_nodes) tr labels = Inr (filter (labels_match labels) sample_nodes)"
    for tr labels by (simp add: cluster_env_def)
  have "inj_on strings_ToUpper (node_Name ` set sample_nodes)" by code_simp
  then show "inj_on strings_ToUpper
      (\<Union>labels. node_Name ` set (filter (labels_match labels) sample_nodes))"
    by (rule inj_on_subset) auto
qed simp_all

section \<open>Invariants\<close>

context query_invariant
begin

lemma I_determine_failed: "keeps I (determine_failed E reason typeNames err)"
  unfolding determine_failed_def setConditionFailure_def by (intro I_rules)

lemma I_List_Nodes: "keeps I (List_Nodes E labels)"
  unfolding List_Nodes_def by (intro I_plain) simp

lemma I_collect_pools: "keeps I (collect_pools E selectors ks targets)"
  by (induction ks arbitrary: targets)
     (auto intro!: I_rules I_determine_failed I_List_Nodes)

lemma I_determineTargetedNodes: "keeps I (determineTargetedNodes E)"
  unfolding determineTargetedNodes_def get_pool_selectors_def target_by_pools_def
    target_by_labels_def
  by (intro I_rules I_determine_failed I_List_Nodes I_collect_pools I_plain) simp

end

end
