(* ===== verification/Setup.thy ===== *)
theory Setup
  imports NodeDetermination
begin

text \<open>
  The resources a run needs before it schedules jobs: \<open>createOperatorNamespace\<close> of
  \<open>internal/controller/upgradeaccelerator_func.go\<close>, the two config maps of
  \<open>internal/controller/upgradeaccelerator_configmap.go\<close> and \<open>setupResources\<close> of
  \<open>internal/controller/upgradeaccelerator_setup.go\<close>. The locale \<open>ensure_contract\<close> states what
  all get-or-create operations share: one read, at most one write, the held object untouched.
\<close>

section \<open>The namespace\<close>

definition target_namespace :: "UpgradeAccelerator \<Rightarrow> string" where
  "target_namespace upgradeAccelerator =
     (if sched_Namespace (Scheduling (Config (Spec upgradeAccelerator))) \<noteq> []
      then sched_Namespace (Scheduling (Config (Spec upgradeAccelerator)))
      else UpgradeAcceleratorDefaultNamespace)"

definition createOperatorNamespace :: "env \<Rightarrow> (error + string) go" where
  "createOperatorNamespace E = do {
     upgradeAccelerator \<leftarrow> get_obj;
     let targetNamespace = target_namespace upgradeAccelerator;
     let namespace = \<lparr>ns_Name = targetNamespace, ns_Labels = [(''app'', ''upgrade-accelerator'')]\<rparr>;
     let key = \<lparr>nn_Namespace = [], nn_Name = targetNamespace\<rparr>;
     r \<leftarrow> perform (GetNamespace key) (\<lambda>tr. on_GetNamespace E tr key);
     case r of
       Inl err \<Rightarrow>
         if IsNotFound err then do {
           e \<leftarrow> perform (CreateNamespace namespace) (\<lambda>tr. on_CreateNamespace E tr namespace);
           State_Monad.return (case e of Some err \<Rightarrow> Inl err | None \<Rightarrow> Inr targetNamespace)
         }
         else State_Monad.return (Inl err)
     | Inr _ \<Rightarrow> State_Monad.return (Inr targetNamespace)
   }"

section \<open>The config maps\<close>

definition DefaultPullBinary :: string where
  "DefaultPullBinary = ''crictl''"

definition DefaultPullerScript :: string where
  "DefaultPullerScript = concat (map (\<lambda>line. line @ [CHR 0x0A])
     [''#!/bin/bash'',
      ''set -euo pipefail'',
      ''export TOTAL_RELEASE_IMAGE_LIST=$(cat /etc/upgrade-accelerator/release/total_release_image_list.json)'',
      ''export FILTERED_RELEASE_IMAGE_LIST=$(cat /etc/upgrade-accelerator/release/filtered_release_image_list.json)'',
      [],
      ''chroot /host /bin/bash <<EOT'',
      ''export PULL_BINARY='' @ DefaultPullBinary,
      ''export KUBECONFIG=/etc/kubernetes/static-pod-resources/kube-apiserver-certs/secrets/node-kubeconfigs/localhost.kubeconfig;'',
      ''oc whoami;'',
      ''echo '' @ [CHR 0x27] @ ''${FILTERED_RELEASE_IMAGE_LIST}'' @ [CHR 0x27] @ '' | jq -r '' @ [CHR 0x27] @ ''.[] | [.name, .from] | @tsv'' @ [CHR 0x27] @ '' | '' @ [CHR 0x5C],
      ''  while IFS='' @ [CHR 0x5C] @ ''$'' @ [CHR 0x27, CHR 0x5C] @ ''t'' @ [CHR 0x27] @ '' read -r name from; do'',
      ''    echo '' @ [CHR 0x22] @ ''Processing image '' @ [CHR 0x5C] @ ''$name: '' @ [CHR 0x5C] @ ''$from'' @ [CHR 0x22],
      [CHR 0x09, CHR 0x09, CHR 0x5C] @ ''$PULL_BINARY pull '' @ [CHR 0x5C] @ ''$from'',
      ''  done'',
      ''EOT'',
      [],
      ''echo '' @ [CHR 0x22] @ ''===== PULLER SCRIPT FINISHED ====='' @ [CHR 0x22]])"

text \<open>\<open>reflect.DeepEqual\<close> of two maps with string keys and values, the second not nil.\<close>

definition DeepEqual :: "smap \<Rightarrow> smap \<Rightarrow> bool" where
  "DeepEqual a b \<longleftrightarrow>
     list_all (\<lambda>(k, v). map_of b k = Some v) a \<and> list_all (\<lambda>(k, v). map_of a k = Some v) b"

definition controller_ref :: "env \<Rightarrow> UpgradeAccelerator \<Rightarrow> OwnerReference" where
  "controller_ref E upgradeAccelerator =
     NewControllerRef E (Metadata upgradeAccelerator) (apiVersion_of GroupVersion)
       ''UpgradeAccelerator''"

text \<open>
  The end of both functions. A \<open>Get\<close> error other than not-found leaves the test object empty,
  so the comparison fails and the map is updated.
\<close>

definition write_config_map :: "env \<Rightarrow> ConfigMap \<Rightarrow> error option go" where
  "write_config_map E configMap = do {
     let key = \<lparr>nn_Namespace = Namespace (cm_Metadata configMap),
                nn_Name = Name (cm_Metadata configMap)\<rparr>;
     r \<leftarrow> perform (GetConfigMap key) (\<lambda>tr. on_GetConfigMap E tr key);
     case r of
       Inl err \<Rightarrow>
         if IsNotFound err
         then perform (CreateConfigMap configMap) (\<lambda>tr. on_CreateConfigMap E tr configMap)
         else if \<not> DeepEqual [] (cm_Data configMap)
         then perform (UpdateConfigMap configMap) (\<lambda>tr. on_UpdateConfigMap E tr configMap)
         else State_Monad.return None
     | Inr testConfigMap \<Rightarrow>
         if \<not> DeepEqual (cm_Data testConfigMap) (cm_Data configMap)
         then perform (UpdateConfigMap configMap) (\<lambda>tr. on_UpdateConfigMap E tr configMap)
         else State_Monad.return None
   }"

definition release_config_map ::
  "env \<Rightarrow> UpgradeAccelerator \<Rightarrow> string \<Rightarrow> string \<Rightarrow> ConfigMap" where
  "release_config_map E upgradeAccelerator totalList filteredList =
     \<lparr>cm_Metadata = zero_ObjectMeta\<lparr>
        Name := ''release-'' @ hashString (DesiredVersion (Status upgradeAccelerator)),
        Namespace := target_namespace upgradeAccelerator,
        Labels := [(''app'', ''upgrade-accelerator''),
                   (''upgrade-accelerator/releaseVersion'', DesiredVersion (Status upgradeAccelerator)),
                   (''upgrade-accelerator/name'', Name (Metadata upgradeAccelerator))],
        OwnerReferences := [controller_ref E upgradeAccelerator]\<rparr>,
      cm_Data = [(''total_release_image_list.json'', totalList),
                 (''filtered_release_image_list.json'', filteredList)]\<rparr>"

definition createReleaseConfigMap :: "env \<Rightarrow> string \<Rightarrow> string \<Rightarrow> error option go" where
  "createReleaseConfigMap E totalList filteredList = do {
     upgradeAccelerator \<leftarrow> get_obj;
     write_config_map E (release_config_map E upgradeAccelerator totalList filteredList)
   }"

definition script_config_map :: "env \<Rightarrow> UpgradeAccelerator \<Rightarrow> ConfigMap" where
  "script_config_map E upgradeAccelerator =
     \<lparr>cm_Metadata = zero_ObjectMeta\<lparr>
        Name := ''release-puller-script-'' @ hashString (DesiredVersion (Status upgradeAccelerator)),
        Namespace := target_namespace upgradeAccelerator,
        Labels := [(''app'', ''upgrade-accelerator''),
                   (''upgrade-accelerator/name'', Name (Metadata upgradeAccelerator)),
                   (''upgrade-accelerator/util'', ''puller-script''),
                   (''upgrade-accelerator/release'', DesiredVersion (Status upgradeAccelerator))],
        OwnerReferences := [controller_ref E upgradeAccelerator]\<rparr>,
      cm_Data = [(''puller.sh'', DefaultPullerScript)]\<rparr>"

definition createPullerScriptConfigMap :: "env \<Rightarrow> error option go" where
  "createPullerScriptConfigMap E = do {
     upgradeAccelerator \<leftarrow> get_obj;
     write_config_map E (script_config_map E upgradeAccelerator)
   }"

section \<open>setupResources\<close>

definition setup_failed_conditions :: "string list" where
  "setup_failed_conditions =
     [CONDITION_TYPE_RUNNING, CONDITION_TYPE_SUCCESSFUL, CONDITION_TYPE_PRIMER,
      CONDITION_TYPE_PRIMING_IN_PROGRESS, CONDITION_TYPE_SETUP_COMPLETE]"

definition config_map_failed :: "env \<Rightarrow> error \<Rightarrow> (error + 'a) go" where
  "config_map_failed E err = do {
     _ \<leftarrow> setConditionSetupConfigMapFailure E (Error err);
     _ \<leftarrow> setConditionFailure E CONDITION_REASON_FAILURE_SETUP (Error err);
     _ \<leftarrow> deleteConditions E setup_failed_conditions;
     State_Monad.return (Inl err)
   }"

text \<open>
  The marshalling of the two lists and the release config map. \<open>json.Marshal\<close> has no error for a
  list of structs of strings; the code's branches for one are kept.
\<close>

definition Marshal_images :: "ReleaseImageTags list option \<Rightarrow> error + string" where
  "Marshal_images imgs = Inr (json_Marshal imgs)"

definition setup_release ::
  "env \<Rightarrow> ReleaseImageTags list option \<Rightarrow> ReleaseImageTags list option \<Rightarrow> (error + unit) go" where
  "setup_release E releaseImages filteredReleaseImages =
     (case Marshal_images releaseImages of
        Inl err \<Rightarrow> config_map_failed E err
      | Inr releaseImagesJSON \<Rightarrow>
          (case Marshal_images filteredReleaseImages of
             Inl err \<Rightarrow> config_map_failed E err
           | Inr filteredReleaseImagesJSON \<Rightarrow> do {
               e \<leftarrow> createReleaseConfigMap E releaseImagesJSON filteredReleaseImagesJSON;
               case e of
                 Some err \<Rightarrow> config_map_failed E err
               | None \<Rightarrow> State_Monad.return (Inr ())
             }))"

definition setup_script :: "env \<Rightarrow> (error + unit) go" where
  "setup_script E = do {
     upgradeAccelerator \<leftarrow> get_obj;
     if PullScriptConfigMapName (Config (Spec upgradeAccelerator)) = [] then do {
       e \<leftarrow> createPullerScriptConfigMap E;
       case e of
         Some err \<Rightarrow> do {
           _ \<leftarrow> setConditionFailure E CONDITION_REASON_FAILURE_SETUP (Error err);
           _ \<leftarrow> deleteConditions E setup_failed_conditions;
           _ \<leftarrow> setConditionSetupConfigMapFailure E (Error err);
           State_Monad.return (Inl err)
         }
       | None \<Rightarrow> State_Monad.return (Inr ())
     }
     else State_Monad.return (Inr ())
   }"

text \<open>The operator namespace, or the error.\<close>

definition setupResources :: "env \<Rightarrow> OpenShiftClusterVersionState \<Rightarrow> (error + string) go" where
  "setupResources E clusterVersionState = do {
     r \<leftarrow> GetReleaseImages E (cvs_DesiredImage clusterVersionState);
     case r of
       Inl err \<Rightarrow> do {
         _ \<leftarrow> setConditionFailure E CONDITION_REASON_FAILURE_GET_RELEASE_IMAGES (Error err);
         _ \<leftarrow> deleteConditions E setup_failed_conditions;
         State_Monad.return (Inl err)
       }
     | Inr releaseImages \<Rightarrow> do {
         upgradeAccelerator \<leftarrow> get_obj;
         let filteredReleaseImages =
           FilterReleaseImages releaseImages (ClusterInfrastructure (Status upgradeAccelerator));
         r \<leftarrow> createOperatorNamespace E;
         case r of
           Inl err \<Rightarrow> do {
             _ \<leftarrow> setConditionSetupNamespaceFailure E (Error err);
             _ \<leftarrow> setConditionFailure E CONDITION_REASON_FAILURE_SETUP (Error err);
             _ \<leftarrow> deleteConditions E setup_failed_conditions;
             State_Monad.return (Inl err)
           }
         | Inr operatorNamespace \<Rightarrow> do {
             r \<leftarrow> setup_release E releaseImages filteredReleaseImages;
             case r of
               Inl err \<Rightarrow> State_Monad.return (Inl err)
             | Inr _ \<Rightarrow> do {
                 r \<leftarrow> setup_script E;
                 State_Monad.return
                   (case r of Inl err \<Rightarrow> Inl err | Inr _ \<Rightarrow> Inr operatorNamespace)
               }
           }
       }
   }"

section \<open>The contract of get-or-create\<close>

text \<open>
  One read, then at most the write that \<open>writes\<close> names for the state before the operation; the
  held object is not touched. An operation that finds nothing to write is settled: it only
  reads, and so does the next run in a state that again needs no write.
\<close>

locale ensure_contract =
  fixes ensure :: "env \<Rightarrow> 'r go"
    and get :: "UpgradeAccelerator \<Rightarrow> api_call"
    and writes :: "env \<Rightarrow> go_state \<Rightarrow> api_call option"
  assumes ensure_run: "snd (run_state (ensure E) s) =
    s\<lparr>trace := trace s @ get (obj s) # (case writes E s of None \<Rightarrow> [] | Some c \<Rightarrow> [c])\<rparr>"
begin

lemma ensure_obj: "run_state (ensure E) s = (r, s') \<Longrightarrow> obj s' = obj s"
  using ensure_run [of E s] by simp

lemma ensure_calls:
  "run_state (ensure E) s = (r, s') \<Longrightarrow>
     trace s' = trace s @ get (obj s) # (case writes E s of None \<Rightarrow> [] | Some c \<Rightarrow> [c])"
  using ensure_run [of E s] by simp

lemma ensure_at_most_two: "run_state (ensure E) s = (r, s') \<Longrightarrow> length (trace s') \<le> length (trace s) + 2"
  by (auto dest!: ensure_calls split: option.split)

lemma ensure_settled:
  assumes "run_state (ensure E) s = (r, s')" and "writes E s' = None"
  shows "snd (run_state (ensure E) s') = s'\<lparr>trace := trace s' @ [get (obj s)]\<rparr>"
  using assms by (simp add: ensure_run ensure_obj)

lemma ensure_keeps:
  assumes get: "\<And>s u. I s \<Longrightarrow> I (s\<lparr>trace := trace s @ [get u]\<rparr>)"
    and writes: "\<And>s t c. I t \<Longrightarrow> obj t = obj s \<Longrightarrow> writes E s = Some c \<Longrightarrow> I (t\<lparr>trace := trace t @ [c]\<rparr>)"
  shows "keeps I (ensure E)"
proof (rule keepsI)
  fix s a s'
  assume I: "I s" and run: "run_state (ensure E) s = (a, s')"
  let ?t = "s\<lparr>trace := trace s @ [get (obj s)]\<rparr>"
  from ensure_run [of E s] run
  have "s' = ?t\<lparr>trace := trace ?t @ (case writes E s of None \<Rightarrow> [] | Some c \<Rightarrow> [c])\<rparr>" by simp
  with get [OF I, of "obj s"] writes [of ?t s] show "I s'" by (cases "writes E s") auto
qed

end

definition namespace_write :: "env \<Rightarrow> go_state \<Rightarrow> api_call option" where
  "namespace_write E s =
     (case on_GetNamespace E (trace s) \<lparr>nn_Namespace = [], nn_Name = target_namespace (obj s)\<rparr> of
        Inl err \<Rightarrow>
          if IsNotFound err
          then Some (CreateNamespace \<lparr>ns_Name = target_namespace (obj s),
                                      ns_Labels = [(''app'', ''upgrade-accelerator'')]\<rparr>)
          else None
      | Inr _ \<Rightarrow> None)"

definition config_map_key :: "ConfigMap \<Rightarrow> NamespacedName" where
  "config_map_key cm = \<lparr>nn_Namespace = Namespace (cm_Metadata cm), nn_Name = Name (cm_Metadata cm)\<rparr>"

definition config_map_write :: "(UpgradeAccelerator \<Rightarrow> ConfigMap) \<Rightarrow> env \<Rightarrow> go_state \<Rightarrow> api_call option" where
  "config_map_write cm E s =
     (case on_GetConfigMap E (trace s) (config_map_key (cm (obj s))) of
        Inl err \<Rightarrow>
          if IsNotFound err then Some (CreateConfigMap (cm (obj s)))
          else if \<not> DeepEqual [] (cm_Data (cm (obj s))) then Some (UpdateConfigMap (cm (obj s)))
          else None
      | Inr found \<Rightarrow>
          if \<not> DeepEqual (cm_Data found) (cm_Data (cm (obj s)))
          then Some (UpdateConfigMap (cm (obj s))) else None)"

lemma run_write_config_map:
  "snd (run_state (write_config_map E (cm (obj s))) s) =
     s\<lparr>trace := trace s @ GetConfigMap (config_map_key (cm (obj s))) #
         (case config_map_write cm E s of None \<Rightarrow> [] | Some c \<Rightarrow> [c])\<rparr>"
  by (auto simp: write_config_map_def config_map_write_def config_map_key_def Let_def
      split: sum.split)

interpretation operator_namespace: ensure_contract createOperatorNamespace
  "\<lambda>u. GetNamespace \<lparr>nn_Namespace = [], nn_Name = target_namespace u\<rparr>" namespace_write
  by unfold_locales (auto simp: createOperatorNamespace_def namespace_write_def Let_def split: sum.split)

definition release_key :: "UpgradeAccelerator \<Rightarrow> NamespacedName" where
  "release_key u = \<lparr>nn_Namespace = target_namespace u,
                    nn_Name = ''release-'' @ hashString (DesiredVersion (Status u))\<rparr>"

definition script_key :: "UpgradeAccelerator \<Rightarrow> NamespacedName" where
  "script_key u = \<lparr>nn_Namespace = target_namespace u,
                   nn_Name = ''release-puller-script-'' @ hashString (DesiredVersion (Status u))\<rparr>"

lemma config_map_keys [simp]:
  "config_map_key (release_config_map E u totalList filteredList) = release_key u"
  "config_map_key (script_config_map E u) = script_key u"
  by (simp_all add: config_map_key_def release_config_map_def script_config_map_def release_key_def
      script_key_def)

interpretation release_map: ensure_contract
  "\<lambda>E. createReleaseConfigMap E totalList filteredList" "\<lambda>u. GetConfigMap (release_key u)"
  "\<lambda>E. config_map_write (\<lambda>u. release_config_map E u totalList filteredList) E"
  for totalList filteredList
  using run_write_config_map [where cm = "\<lambda>u. release_config_map E u totalList filteredList" for E]
  by unfold_locales (simp add: createReleaseConfigMap_def)

interpretation script_map: ensure_contract createPullerScriptConfigMap
  "\<lambda>u. GetConfigMap (script_key u)" "\<lambda>E. config_map_write (script_config_map E) E"
  using run_write_config_map [where cm = "script_config_map E" for E]
  by unfold_locales (simp add: createPullerScriptConfigMap_def)

section \<open>What the operations do\<close>

lemma DeepEqual_iff:
  assumes "distinct (map fst a)" and "distinct (map fst b)"
  shows "DeepEqual a b \<longleftrightarrow> map_of a = map_of b"
proof -
  have half: "list_all (\<lambda>(k, v). map_of y k = Some v) x \<longleftrightarrow> map_of x \<subseteq>\<^sub>m map_of y"
    if "distinct (map fst x)" for x y :: smap
    using that by (auto simp: list_all_iff map_le_def dom_def intro: map_of_SomeD)
  show ?thesis
    unfolding DeepEqual_def half [OF assms(1)] half [OF assms(2)] by (auto intro: map_le_antisym)
qed

lemma createReleaseConfigMap_run:
  "run_state (createReleaseConfigMap E totalList filteredList) s =
     (let cm = release_config_map E (obj s) totalList filteredList;
          read = GetConfigMap (release_key (obj s));
          after = trace s @ [read];
          create = (on_CreateConfigMap E after cm, s\<lparr>trace := after @ [CreateConfigMap cm]\<rparr>);
          update = (on_UpdateConfigMap E after cm, s\<lparr>trace := after @ [UpdateConfigMap cm]\<rparr>)
      in case on_GetConfigMap E (trace s) (release_key (obj s)) of
           Inl err \<Rightarrow> if IsNotFound err then create else update
         | Inr found \<Rightarrow>
             if DeepEqual (cm_Data found)
                  [(''total_release_image_list.json'', totalList),
                   (''filtered_release_image_list.json'', filteredList)]
             then (None, s\<lparr>trace := after\<rparr>) else update)"
  by (auto simp: createReleaseConfigMap_def write_config_map_def release_config_map_def release_key_def
      DeepEqual_def Let_def split: sum.split)

text \<open>C30: createReleaseConfigMap settles: after a successful call, when the API server
returns a config map with the data that was asked for (in any order of its keys), a second call
reads it and writes nothing.\<close>

theorem createReleaseConfigMap_settles:
  assumes "run_state (createReleaseConfigMap E totalList filteredList) s = (None, s')"
    and "on_GetConfigMap E (trace s') (release_key (obj s)) = Inr found"
    and "distinct (map fst (cm_Data found))"
    and "map_of (cm_Data found) =
           map_of (cm_Data (release_config_map E (obj s) totalList filteredList))"
  shows "run_state (createReleaseConfigMap E totalList filteredList) s' =
           (None, s'\<lparr>trace := trace s' @ [GetConfigMap (release_key (obj s))]\<rparr>)"
proof -
  have same: "obj s' = obj s" by (rule release_map.ensure_obj [OF assms(1)])
  have "DeepEqual (cm_Data found) (cm_Data (release_config_map E (obj s) totalList filteredList))"
    using assms(3,4) by (subst DeepEqual_iff) (auto simp: release_config_map_def)
  with assms(2) same show ?thesis
    by (simp add: createReleaseConfigMap_run Let_def release_config_map_def)
qed

lemma createOperatorNamespace_result:
  "run_state (createOperatorNamespace E) s = (Inr ns, s') \<Longrightarrow> ns = target_namespace (obj s)"
  by (auto simp: createOperatorNamespace_def Let_def split: sum.splits if_splits option.splits)

lemma GetReleaseImages_obj: "run_state (GetReleaseImages E releaseImage) s = (r, s') \<Longrightarrow> obj s' = obj s"
  by (auto simp: GetReleaseImages_def runOCCommand_def split: prod.splits)

text \<open>
  After a failed step the held object reports the failure and none of the conditions that
  a run in progress carries.
\<close>

definition reports_failure :: "string set \<Rightarrow> UpgradeAccelerator \<Rightarrow> bool" where
  "reports_failure reasons u \<longleftrightarrow>
     getConditionReason u CONDITION_TYPE_FAILURE \<in> reasons \<and>
     (\<forall>t \<in> {CONDITION_TYPE_RUNNING, CONDITION_TYPE_SUCCESSFUL, CONDITION_TYPE_PRIMER,
            CONDITION_TYPE_PRIMING_IN_PROGRESS}. getConditionReason u t = [])"

lemmas reason_after = getConditionReason_appendCondition getConditionReason_deleteConditions

lemma config_map_failed_reports:
  assumes "run_state (config_map_failed E err) s = (r, s')"
  shows "r = Inl err \<and> reports_failure {CONDITION_REASON_FAILURE_SETUP} (obj s')"
  using assms
  by (auto simp: config_map_failed_def set_condition_defs setup_failed_conditions_def
      reports_failure_def condition_type_defs split: prod.splits dest!: reason_after)

lemma setup_release_outcome:
  assumes "run_state (setup_release E imgs filtered) s = (r, s')"
  shows "case r of
           Inr _ \<Rightarrow> obj s' = obj s
         | Inl err \<Rightarrow> reports_failure {CONDITION_REASON_FAILURE_SETUP} (obj s')"
  using assms release_map.ensure_obj config_map_failed_reports
  by (force simp: setup_release_def split: sum.splits prod.splits option.splits)

lemma setup_script_outcome:
  assumes "run_state (setup_script E) s = (r, s')"
  shows "case r of
           Inr _ \<Rightarrow> obj s' = obj s
         | Inl err \<Rightarrow> reports_failure {CONDITION_REASON_FAILURE_SETUP} (obj s')"
  using assms
  by (auto simp: setup_script_def set_condition_defs setup_failed_conditions_def
      reports_failure_def condition_type_defs split: sum.splits prod.splits option.splits if_splits
      dest!: reason_after script_map.ensure_obj)

lemma setupResources_result:
  assumes "run_state (setupResources E cvs) s = (r, s')"
  shows "case r of
           Inr ns \<Rightarrow> ns = target_namespace (obj s) \<and> obj s' = obj s
         | Inl err \<Rightarrow> reports_failure {CONDITION_REASON_FAILURE_GET_RELEASE_IMAGES,
                                     CONDITION_REASON_FAILURE_SETUP} (obj s')"
proof -
  obtain imgs s1 where get: "run_state (GetReleaseImages E (cvs_DesiredImage cvs)) s = (imgs, s1)"
    by fastforce
  obtain ns s2 where create: "run_state (createOperatorNamespace E) s1 = (ns, s2)" by fastforce
  note objs = GetReleaseImages_obj [OF get] operator_namespace.ensure_obj [OF create]
  show ?thesis
  proof (cases imgs)
    case (Inl err)
    with assms get show ?thesis
      by (auto simp: setupResources_def set_condition_defs setup_failed_conditions_def
          reports_failure_def condition_type_defs split: prod.splits dest!: reason_after)
  next
    case imgs: (Inr imgs')
    show ?thesis
    proof (cases ns)
      case (Inl err)
      with assms get create imgs show ?thesis
        by (auto simp: setupResources_def set_condition_defs setup_failed_conditions_def Let_def
            reports_failure_def condition_type_defs split: prod.splits dest!: reason_after)
    next
      case (Inr n)
      with createOperatorNamespace_result [of E s1 n s2] create objs
      have "n = target_namespace (obj s)" by simp
      with assms get create imgs Inr objs show ?thesis
        by (auto simp: setupResources_def Let_def reports_failure_def
            split: prod.splits sum.splits dest!: setup_release_outcome setup_script_outcome)
    qed
  qed
qed

text \<open>C15: setupResources either returns the target namespace and leaves the object as it
was, or returns an error and the object carries a Failure condition with the reason
GetReleaseImages or Setup, on each of its error paths.\<close>

theorem setupResources_outcome:
  assumes "run_state (setupResources E cvs) s = (r, s')"
  shows "case r of
           Inr ns \<Rightarrow> ns = target_namespace (obj s) \<and> obj s' = obj s
         | Inl err \<Rightarrow> reports_failure {CONDITION_REASON_FAILURE_GET_RELEASE_IMAGES,
                                     CONDITION_REASON_FAILURE_SETUP} (obj s')"
  using assms by (rule setupResources_result)

section \<open>The image lists survive the config map\<close>

text \<open>A run appends status updates after the write of the release config map, if anything.\<close>

definition writes_config_map :: "api_call \<Rightarrow> ConfigMap \<Rightarrow> bool" where
  "writes_config_map c cm \<longleftrightarrow> c = CreateConfigMap cm \<or> c = UpdateConfigMap cm"

lemma config_map_write_writes:
  "config_map_write cm E s = Some c \<Longrightarrow> writes_config_map c cm' \<Longrightarrow> cm' = cm (obj s)"
  by (auto simp: config_map_write_def writes_config_map_def split: sum.splits if_splits)

lemma only_conditions_config_map_failed:
  "run_state (config_map_failed E err) s = (r, s') \<Longrightarrow> only_conditions s s'"
  by (auto simp: config_map_failed_def set_condition_defs split: prod.splits
      dest!: only_conditions_intros) (blast intro: only_conditions_trans)

lemma setup_release_writes:
  assumes "run_state (setup_release E imgs filtered) s = (r, s')" and "trace s' = trace s @ calls"
    and "c \<in> set calls" and "writes_config_map c cm"
  shows "cm = release_config_map E (obj s) (json_Marshal imgs) (json_Marshal filtered)"
proof -
  obtain e t where create:
    "run_state (createReleaseConfigMap E (json_Marshal imgs) (json_Marshal filtered)) s = (e, t)"
    by fastforce
  with assms(1) have "only_conditions t s'"
    by (auto simp: setup_release_def Marshal_images_def split: option.splits
        intro: only_conditions_config_map_failed)
  then obtain us where "trace s' = trace t @ map UpdateStatus us" by (auto simp: only_conditions_def)
  with release_map.ensure_calls [OF create] assms(2-4)
  have "config_map_write (\<lambda>u. release_config_map E u (json_Marshal imgs) (json_Marshal filtered)) E s = Some c"
    by (auto simp: writes_config_map_def split: option.splits)
  from config_map_write_writes [OF this assms(4)] show ?thesis .
qed

text \<open>C14: What the setup writes for the jobs is what they read: every config map a run of
setup_release sends to the API server holds, under its two keys, texts that encoding/json
decodes to the two image lists it was given, order, nil and empty lists and escaped characters
included (for names and references in valid UTF-8).\<close>

theorem release_map_roundtrip:
  assumes "list_all valid_item (slice_elements imgs)" and "list_all valid_item (slice_elements filtered)"
    and "run_state (setup_release E imgs filtered) s = (r, s')" and "trace s' = trace s @ calls"
    and "c \<in> set calls" and "c = CreateConfigMap cm \<or> c = UpdateConfigMap cm"
  shows "\<exists>total filtered_text.
           cm_Data cm = [(''total_release_image_list.json'', total),
                         (''filtered_release_image_list.json'', filtered_text)] \<and>
           json_Unmarshal total = Some imgs \<and> json_Unmarshal filtered_text = Some filtered"
  using setup_release_writes [OF assms(3-5)] assms(6)
    unmarshal_marshal [OF assms(1)] unmarshal_marshal [OF assms(2)]
  by (auto simp: writes_config_map_def release_config_map_def)

section \<open>Invariants\<close>

text \<open>
  What an invariant of the calls has to promise of the objects \<open>setupResources\<close> writes: their
  namespace is the target namespace of the held object.
\<close>

locale setup_invariant = run_invariant +
  assumes I_CreateNamespace:
      "I s \<Longrightarrow> ns_Name ns = target_namespace (obj s) \<Longrightarrow> I (s\<lparr>trace := trace s @ [CreateNamespace ns]\<rparr>)"
    and I_CreateConfigMap:
      "I s \<Longrightarrow> Namespace (cm_Metadata cm) = target_namespace (obj s) \<Longrightarrow>
       I (s\<lparr>trace := trace s @ [CreateConfigMap cm]\<rparr>)"
    and I_UpdateConfigMap:
      "I s \<Longrightarrow> Namespace (cm_Metadata cm) = target_namespace (obj s) \<Longrightarrow>
       I (s\<lparr>trace := trace s @ [UpdateConfigMap cm]\<rparr>)"
begin

lemma I_createOperatorNamespace: "keeps I (createOperatorNamespace E)"
  by (rule operator_namespace.ensure_keeps)
     (auto simp: namespace_write_def I_call split: sum.splits if_splits intro: I_CreateNamespace)

lemma I_config_map_write:
  "I t \<Longrightarrow> Namespace (cm_Metadata (cm (obj t))) = target_namespace (obj t) \<Longrightarrow> obj t = obj s \<Longrightarrow>
     config_map_write cm E s = Some c \<Longrightarrow> I (t\<lparr>trace := trace t @ [c]\<rparr>)"
  by (auto simp: config_map_write_def split: sum.splits if_splits
      intro: I_CreateConfigMap I_UpdateConfigMap)

lemma I_createReleaseConfigMap: "keeps I (createReleaseConfigMap E totalList filteredList)"
  by (rule release_map.ensure_keeps)
     (auto simp: I_call release_config_map_def elim!: I_config_map_write [rotated 3])

lemma I_createPullerScriptConfigMap: "keeps I (createPullerScriptConfigMap E)"
  by (rule script_map.ensure_keeps)
     (auto simp: I_call script_config_map_def elim!: I_config_map_write [rotated 3])

lemma I_setupResources: "keeps I (setupResources E cvs)"
  unfolding setupResources_def GetReleaseImages_def runOCCommand_def setup_release_def
    setup_script_def config_map_failed_def set_condition_defs
  by (intro I_rules I_run_command I_createOperatorNamespace I_createReleaseConfigMap
      I_createPullerScriptConfigMap)

end

interpretation unique_types: setup_invariant E unique_types_sent for E
  by unfold_locales (auto intro: calls_ok_call)

section \<open>Concrete runs\<close>

lemma idle_config_maps [simp]:
  "on_GetConfigMap idle_env tr key = Inl not_found"
  "on_CreateConfigMap idle_env tr cm = None"
  "on_UpdateConfigMap idle_env tr cm = None"
  by (simp_all add: idle_env_def)

text \<open>A server that holds the release config map once it was created.\<close>

definition storing_env :: env where
  "storing_env = idle_env\<lparr>on_GetConfigMap := (\<lambda>tr key.
     if tr = [] then Inl not_found
     else Inr (release_config_map idle_env zero_UpgradeAccelerator ''all'' ''some''))\<rparr>"

theorem createReleaseConfigMap_settles_witness:
  "\<exists>s'. run_state (createReleaseConfigMap storing_env ''all'' ''some'') (start zero_UpgradeAccelerator) =
          (None, s') \<and>
        run_state (createReleaseConfigMap storing_env ''all'' ''some'') s' =
          (None, s'\<lparr>trace := trace s' @
             [GetConfigMap (release_key (obj (start zero_UpgradeAccelerator)))]\<rparr>)"
proof -
  let ?s' = "(start zero_UpgradeAccelerator)\<lparr>trace := [GetConfigMap (release_key zero_UpgradeAccelerator),
     CreateConfigMap (release_config_map storing_env zero_UpgradeAccelerator ''all'' ''some'')]\<rparr>"
  have run: "run_state (createReleaseConfigMap storing_env ''all'' ''some'') (start zero_UpgradeAccelerator) =
          (None, ?s')"
    by (simp add: createReleaseConfigMap_run Let_def storing_env_def start_def not_found_def)
  have "run_state (createReleaseConfigMap storing_env ''all'' ''some'') ?s' =
          (None, ?s'\<lparr>trace := trace ?s' @
             [GetConfigMap (release_key (obj (start zero_UpgradeAccelerator)))]\<rparr>)"
    by (rule createReleaseConfigMap_settles [OF run,
          of "release_config_map idle_env zero_UpgradeAccelerator ''all'' ''some''"])
       (simp_all add: storing_env_def release_config_map_def)
  with run show ?thesis by blast
qed

definition some_release :: OpenShiftClusterVersionState where
  "some_release = \<lparr>cvs_CurrentVersion = ''4.18.1'', cvs_DesiredVersion = ''4.18.2'',
     cvs_DesiredImage = ''quay.io/release''\<rparr>"

theorem setupResources_outcome_witness:
  "case fst (run_state (setupResources idle_env some_release) (start zero_UpgradeAccelerator)) of
     Inr ns \<Rightarrow> ns = target_namespace zero_UpgradeAccelerator \<and>
       obj (snd (run_state (setupResources idle_env some_release) (start zero_UpgradeAccelerator))) =
         zero_UpgradeAccelerator
   | Inl err \<Rightarrow> reports_failure {CONDITION_REASON_FAILURE_GET_RELEASE_IMAGES, CONDITION_REASON_FAILURE_SETUP}
       (obj (snd (run_state (setupResources idle_env some_release) (start zero_UpgradeAccelerator))))"
  using setupResources_outcome [of idle_env some_release "start zero_UpgradeAccelerator", OF surjective_pairing]
  by (simp add: start_def split: sum.splits)

definition quoted_images :: "ReleaseImageTags list option" where
  "quoted_images = Some [\<lparr>rit_Name = ''aws-<x>'', rit_From = [CHR 0x22]\<rparr>]"

theorem release_map_roundtrip_witness:
  "\<exists>total filtered_text.
     cm_Data (release_config_map idle_env zero_UpgradeAccelerator (json_Marshal quoted_images)
       (json_Marshal None)) =
       [(''total_release_image_list.json'', total), (''filtered_release_image_list.json'', filtered_text)] \<and>
     json_Unmarshal total = Some quoted_images \<and> json_Unmarshal filtered_text = Some None"
proof -
  let ?cm = "release_config_map idle_env zero_UpgradeAccelerator (json_Marshal quoted_images) (json_Marshal None)"
  have valid: "list_all valid_item (slice_elements quoted_images)" "list_all valid_item (slice_elements None)"
    by code_simp+
  have run: "run_state (setup_release idle_env quoted_images None) (start zero_UpgradeAccelerator) =
      (Inr (), (start zero_UpgradeAccelerator)\<lparr>trace :=
         [GetConfigMap (release_key zero_UpgradeAccelerator), CreateConfigMap ?cm]\<rparr>)"
    by (simp add: setup_release_def Marshal_images_def createReleaseConfigMap_run Let_def idle_env_def
        start_def not_found_def)
  show ?thesis
    by (rule release_map_roundtrip [OF valid run, where c = "CreateConfigMap ?cm" and
          calls = "[GetConfigMap (release_key zero_UpgradeAccelerator), CreateConfigMap ?cm]"])
       (simp_all add: start_def)
qed

end
