(* ===== verification/Jobs.thy ===== *)
theory Jobs
  imports Setup
begin

text \<open>
  \<open>internal/controller/upgradeaccelerator_job.go\<close>: the pull job of a node, its creation when
  it does not exist yet, and the list of the nodes whose jobs succeeded.
\<close>

section \<open>The job\<close>

definition puller_image :: "UpgradeAccelerator \<Rightarrow> string" where
  "puller_image upgradeAccelerator =
     (if JobImage (Config (Spec upgradeAccelerator)) \<noteq> []
      then JobImage (Config (Spec upgradeAccelerator))
      else UpgradeAcceleratorDefaultJobPullerImage)"

definition release_map_name :: "UpgradeAccelerator \<Rightarrow> PullJob \<Rightarrow> string" where
  "release_map_name upgradeAccelerator pullJob =
     (if pj_ReleaseConfigMapName pullJob \<noteq> [] then pj_ReleaseConfigMapName pullJob
      else ''release-'' @ hashString (DesiredVersion (Status upgradeAccelerator)))"

definition script_map_name :: "UpgradeAccelerator \<Rightarrow> string" where
  "script_map_name upgradeAccelerator =
     (if PullScriptConfigMapName (Config (Spec upgradeAccelerator)) \<noteq> []
      then PullScriptConfigMapName (Config (Spec upgradeAccelerator))
      else ''release-puller-script-'' @ hashString (DesiredVersion (Status upgradeAccelerator)))"

definition job_tolerations :: "UpgradeAccelerator \<Rightarrow> Toleration list" where
  "job_tolerations upgradeAccelerator =
     (if length (Tolerations (Scheduling (Config (Spec upgradeAccelerator)))) > 0
      then Tolerations (Scheduling (Config (Spec upgradeAccelerator)))
      else UpgradeAcceleratorDefaultJobTolerations)"

definition job_metadata :: "env \<Rightarrow> UpgradeAccelerator \<Rightarrow> PullJob \<Rightarrow> ObjectMeta" where
  "job_metadata E upgradeAccelerator pullJob = zero_ObjectMeta\<lparr>
     Name := pj_Name pullJob,
     Namespace := pj_Namespace pullJob,
     Labels :=
       [(''app'', UpgradeAcceleratorDefaultAppLabelValue),
        (''upgrade-accelerator/name'', Name (Metadata upgradeAccelerator)),
        (''pull-job/release'', DesiredVersion (Status upgradeAccelerator)),
        (''pull-job/name'', pj_Name pullJob),
        (''pull-job/namespace'', pj_Namespace pullJob),
        (''pull-job/targetNodeName'', pj_TargetNodeName pullJob)],
     OwnerReferences := [controller_ref E upgradeAccelerator]\<rparr>"

definition job_env :: "env \<Rightarrow> UpgradeAccelerator \<Rightarrow> PullJob \<Rightarrow> EnvVar list" where
  "job_env E upgradeAccelerator pullJob =
     [\<lparr>ev_Name = ''PULL_JOB_NAME'', ev_Value = pj_Name pullJob\<rparr>,
      \<lparr>ev_Name = ''PULL_JOB_NAMESPACE'', ev_Value = pj_Namespace pullJob\<rparr>,
      \<lparr>ev_Name = ''PULL_JOB_IMAGE'', ev_Value = puller_image upgradeAccelerator\<rparr>,
      \<lparr>ev_Name = ''PULL_JOB_RELEASE_CONFIGMAP'', ev_Value = release_map_name upgradeAccelerator pullJob\<rparr>,
      \<lparr>ev_Name = ''PULL_JOB_SCRIPT_CONFIGMAP'', ev_Value = script_map_name upgradeAccelerator\<rparr>]
     @ ReadProxyVarsFromEnv E"

definition job_container :: "env \<Rightarrow> UpgradeAccelerator \<Rightarrow> PullJob \<Rightarrow> Container" where
  "job_container E upgradeAccelerator pullJob =
     \<lparr>ctr_Name = ''preheater'',
      ctr_Image = puller_image upgradeAccelerator,
      ctr_Command = [''/bin/sh''],
      ctr_Args = [''-c'', ''--'', ''sh /opt/upgrade-accelerator/puller.sh;''],
      ctr_Env = job_env E upgradeAccelerator pullJob,
      ctr_TTY = True,
      ctr_SecurityContext =
        \<lparr>sc_Privileged = True, sc_RunAsUser = 0, sc_SeccompProfile = ''Unconfined''\<rparr>,
      ctr_VolumeMounts =
        [\<lparr>vm_Name = ''release'', vm_MountPath = ''/etc/upgrade-accelerator/release'', vm_ReadOnly = True\<rparr>,
         \<lparr>vm_Name = ''pull-script'', vm_MountPath = ''/opt/upgrade-accelerator'', vm_ReadOnly = True\<rparr>,
         \<lparr>vm_Name = ''host'', vm_MountPath = ''/host'', vm_ReadOnly = False\<rparr>]\<rparr>"

definition jobConstructor :: "env \<Rightarrow> UpgradeAccelerator \<Rightarrow> PullJob \<Rightarrow> Job" where
  "jobConstructor E upgradeAccelerator pullJob =
     \<lparr>job_Metadata = job_metadata E upgradeAccelerator pullJob,
      TTLSecondsAfterFinished = Some UpgradeAcceleratorDefaultJobTTL,
      job_PodSpec =
        \<lparr>RestartPolicy = ''Never'',
         HostPID = True,
         HostNetwork = True,
         HostIPC = True,
         NodeName = pj_TargetNodeName pullJob,
         pod_Tolerations = job_tolerations upgradeAccelerator,
         Containers = [job_container E upgradeAccelerator pullJob],
         Volumes =
           [\<lparr>vol_Name = ''release'',
             vol_Source = ConfigMapVolume (release_map_name upgradeAccelerator pullJob)\<rparr>,
            \<lparr>vol_Name = ''pull-script'',
             vol_Source = ConfigMapVolume (script_map_name upgradeAccelerator)\<rparr>,
            \<lparr>vol_Name = ''host'', vol_Source = HostPathVolume ''/'' ''Directory''\<rparr>]\<rparr>,
      job_Succeeded = 0\<rparr>"

section \<open>The operations\<close>

definition job_key :: "PullJob \<Rightarrow> NamespacedName" where
  "job_key pullJob = \<lparr>nn_Namespace = pj_Namespace pullJob, nn_Name = pj_Name pullJob\<rparr>"

text \<open>Whether a job was created, or the error.\<close>

definition createPullJob :: "env \<Rightarrow> PullJob \<Rightarrow> (error + bool) go" where
  "createPullJob E pullJob = do {
     upgradeAccelerator \<leftarrow> get_obj;
     let job = jobConstructor E upgradeAccelerator pullJob;
     r \<leftarrow> perform (GetJob (job_key pullJob)) (\<lambda>tr. on_GetJob E tr (job_key pullJob));
     case r of
       Inl err \<Rightarrow>
         if IsNotFound err then do {
           e \<leftarrow> perform (CreateJob job) (\<lambda>tr. on_CreateJob E tr job);
           State_Monad.return (case e of Some err \<Rightarrow> Inl err | None \<Rightarrow> Inr True)
         }
         else State_Monad.return (Inl err)
     | Inr _ \<Rightarrow> State_Monad.return (Inr False)
   }"

definition job_succeeded :: "Job \<Rightarrow> bool" where
  "job_succeeded job \<longleftrightarrow> sint (job_Succeeded job) > 0"

fun completed_nodes :: "Job list \<Rightarrow> string list \<Rightarrow> string list" where
  "completed_nodes [] completedNodes = completedNodes"
| "completed_nodes (job # jobs) completedNodes =
     completed_nodes jobs
       (if job_succeeded job then completedNodes @ [NodeName (job_PodSpec job)] else completedNodes)"

definition getCompletedJobNodeList :: "env \<Rightarrow> string \<Rightarrow> string \<Rightarrow> (error + string list) go" where
  "getCompletedJobNodeList E upgradeAcceleratorName releaseVersion = do {
     let labels = [(''app'', UpgradeAcceleratorDefaultAppLabelValue),
                   (''upgrade-accelerator/name'', upgradeAcceleratorName),
                   (''pull-job/release'', releaseVersion)];
     r \<leftarrow> perform (ListJobs [] labels) (\<lambda>tr. on_ListJobs E tr [] labels);
     State_Monad.return
       (case r of Inl err \<Rightarrow> Inl err | Inr jobs \<Rightarrow> Inr (completed_nodes jobs []))
   }"

section \<open>Get-or-create\<close>

definition job_write :: "PullJob \<Rightarrow> env \<Rightarrow> go_state \<Rightarrow> api_call option" where
  "job_write pullJob E s =
     (case on_GetJob E (trace s) (job_key pullJob) of
        Inl err \<Rightarrow>
          if IsNotFound err then Some (CreateJob (jobConstructor E (obj s) pullJob)) else None
      | Inr _ \<Rightarrow> None)"

interpretation pull_job: ensure_contract "\<lambda>E. createPullJob E pullJob" "\<lambda>u. GetJob (job_key pullJob)"
  "job_write pullJob" for pullJob
  by unfold_locales (auto simp: createPullJob_def job_write_def Let_def split: sum.split)

lemma createPullJob_created:
  assumes "run_state (createPullJob E pullJob) s = (Inr b, s')"
  shows "b \<longleftrightarrow> trace s' = trace s @ [GetJob (job_key pullJob),
                             CreateJob (jobConstructor E (obj s) pullJob)]"
  using assms
  by (auto simp: createPullJob_def Let_def split: sum.splits if_splits option.splits)

text \<open>createPullJob creates a job at most once: after a call that reports a creation
(which the API server accepted), a call that finds the job reads it, reports no creation and
sends nothing else.\<close>

theorem createPullJob_once:
  assumes "run_state (createPullJob E pullJob) s = (Inr True, s')"
    and "on_GetJob E (trace s') (job_key pullJob) = Inr job"
  shows "run_state (createPullJob E pullJob) s' =
           (Inr False, s'\<lparr>trace := trace s' @ [GetJob (job_key pullJob)]\<rparr>) \<and>
         on_CreateJob E (trace s @ [GetJob (job_key pullJob)])
           (jobConstructor E (obj s) pullJob) = None"
  using assms
  by (auto simp: createPullJob_def Let_def split: sum.splits if_splits option.splits)

text \<open>
  What a container of the job finds in its config map volumes, for the config maps there are: a
  volume resolves to the map of its name in the namespace of the job, and each key of the map is
  a file below the mount path.
\<close>

definition mounted_files :: "ConfigMap list \<Rightarrow> Job \<Rightarrow> Container \<Rightarrow> smap" where
  "mounted_files configMaps job c = concat (map (\<lambda>m.
     case map_of (map (\<lambda>v. (vol_Name v, vol_Source v)) (Volumes (job_PodSpec job))) (vm_Name m) of
       Some (ConfigMapVolume name) \<Rightarrow>
         concat (map (\<lambda>cm.
           if Name (cm_Metadata cm) = name \<and> Namespace (cm_Metadata cm) = Namespace (job_Metadata job)
           then map (\<lambda>(file, content). (vm_MountPath m @ ''/'' @ file, content)) (cm_Data cm)
           else []) configMaps)
     | _ \<Rightarrow> []) (ctr_VolumeMounts c))"

text \<open>The files a shell script reads with \<open>$(cat <path>)\<close>, in order.\<close>

fun cat_paths :: "string \<Rightarrow> string list" where
  "cat_paths [] = []"
| "cat_paths (c # cs) =
     (if take 6 (c # cs) = ''$(cat '' then [takeWhile (\<lambda>d. d \<noteq> CHR '')'') (drop 5 cs)] else []) @
     cat_paths cs"

lemma cat_paths_script:
  "cat_paths DefaultPullerScript =
     [''/etc/upgrade-accelerator/release/total_release_image_list.json'',
      ''/etc/upgrade-accelerator/release/filtered_release_image_list.json'']"
  by code_simp

lemma mounted_files_setup:
  assumes "pj_ReleaseConfigMapName pullJob = []" and "pj_Namespace pullJob = target_namespace u"
    and "PullScriptConfigMapName (Config (Spec u)) = []"
  shows "mounted_files [release_config_map E u totalList filteredList, script_config_map E u]
           (jobConstructor E u pullJob) (job_container E u pullJob) =
         [(''/etc/upgrade-accelerator/release/total_release_image_list.json'', totalList),
          (''/etc/upgrade-accelerator/release/filtered_release_image_list.json'', filteredList),
          (''/opt/upgrade-accelerator/puller.sh'', DefaultPullerScript)]"
proof -
  have "''puller-script-'' @ h \<noteq> h" "h \<noteq> ''puller-script-'' @ h" for h :: string
    by (auto dest: arg_cong [of _ _ length])
  with assms show ?thesis
    by (simp add: mounted_files_def jobConstructor_def job_container_def job_metadata_def
        release_map_name_def script_map_name_def release_config_map_def script_config_map_def)
qed

text \<open>C31: A pull job finds what the setup wrote: in the namespace and under the default
names of the two config maps of the same object, its one container runs a mounted file, which is
the puller script; the files this script reads are mounted too and hold the total and the
filtered image list, in this order; and the root of the node is mounted at /host.\<close>

theorem pull_job_uses_setup:
  assumes "pj_ReleaseConfigMapName pullJob = []" and "pj_Namespace pullJob = target_namespace u"
    and "PullScriptConfigMapName (Config (Spec u)) = []"
  shows "\<exists>c command script. Containers (job_PodSpec (jobConstructor E u pullJob)) = [c] \<and>
           (let files = mounted_files
                  [release_config_map E u totalList filteredList, script_config_map E u]
                  (jobConstructor E u pullJob) c
            in ctr_Command c = [''/bin/sh''] \<and>
               ctr_Args c = [''-c'', ''--'', ''sh '' @ command @ '';''] \<and>
               map_of files command = Some script \<and> script = DefaultPullerScript \<and>
               map (map_of files) (cat_paths script) = [Some totalList, Some filteredList]) \<and>
           (\<exists>m \<in> set (ctr_VolumeMounts c). vm_MountPath m = ''/host'' \<and>
              map_of (map (\<lambda>v. (vol_Name v, vol_Source v))
                 (Volumes (job_PodSpec (jobConstructor E u pullJob)))) (vm_Name m) =
                Some (HostPathVolume ''/'' ''Directory''))"
proof (intro exI conjI)
  let ?job = "jobConstructor E u pullJob" and ?c = "job_container E u pullJob"
  show "Containers (job_PodSpec ?job) = [?c]" by (simp add: jobConstructor_def)
  show "let files = mounted_files
              [release_config_map E u totalList filteredList, script_config_map E u] ?job ?c
        in ctr_Command ?c = [''/bin/sh''] \<and>
           ctr_Args ?c = [''-c'', ''--'', ''sh '' @ ''/opt/upgrade-accelerator/puller.sh'' @ '';''] \<and>
           map_of files ''/opt/upgrade-accelerator/puller.sh'' = Some DefaultPullerScript \<and>
           DefaultPullerScript = DefaultPullerScript \<and>
           map (map_of files) (cat_paths DefaultPullerScript) = [Some totalList, Some filteredList]"
    unfolding mounted_files_setup [OF assms] Let_def cat_paths_script by (simp add: job_container_def)
  show "\<exists>m \<in> set (ctr_VolumeMounts ?c). vm_MountPath m = ''/host'' \<and>
          map_of (map (\<lambda>v. (vol_Name v, vol_Source v)) (Volumes (job_PodSpec ?job))) (vm_Name m) =
            Some (HostPathVolume ''/'' ''Directory'')"
    by (simp add: jobConstructor_def job_container_def)
qed

lemma completed_nodes_eq:
  "completed_nodes jobs acc = acc @ map (\<lambda>job. NodeName (job_PodSpec job)) (filter job_succeeded jobs)"
  by (induction jobs arbitrary: acc) auto

lemma getCompletedJobNodeList_run:
  "run_state (getCompletedJobNodeList E name version) s =
     (let labels = [(''app'', ''upgrade-accelerator''), (''upgrade-accelerator/name'', name),
                    (''pull-job/release'', version)]
      in (map_sum id (\<lambda>jobs. map (\<lambda>job. NodeName (job_PodSpec job)) (filter job_succeeded jobs))
            (on_ListJobs E (trace s) [] labels),
          s\<lparr>trace := trace s @ [ListJobs [] labels]\<rparr>))"
  by (auto simp: getCompletedJobNodeList_def completed_nodes_eq Let_def
      UpgradeAcceleratorDefaultAppLabelValue_def split: sum.split)

section \<open>Invariants\<close>

text \<open>
  The last obligation of an invariant over the calls: the jobs created, in a namespace that
  \<open>ok_ns\<close> admits because it was the target namespace of the object.
\<close>

text \<open>What a listed job is: one some list call of the run answered with.\<close>

definition job_listed :: "env \<Rightarrow> api_call list \<Rightarrow> Job \<Rightarrow> bool" where
  "job_listed E tr job \<longleftrightarrow>
     (\<exists>pre ns labels post jobs. tr = pre @ ListJobs ns labels # post \<and>
        on_ListJobs E pre ns labels = Inr jobs \<and> job \<in> set jobs)"

lemma job_listed_append: "job_listed E tr job \<Longrightarrow> job_listed E (tr @ ext) job"
  by (auto simp: job_listed_def) blast

lemma job_listed_now:
  "on_ListJobs E tr ns labels = Inr jobs \<Longrightarrow> job \<in> set jobs \<Longrightarrow> job_listed E (tr @ [ListJobs ns labels]) job"
  by (auto simp: job_listed_def)

definition warm :: "string \<Rightarrow> UpgradeAccelerator \<Rightarrow> UpgradeAccelerator" where
  "warm n u = u\<lparr>Status := Status u\<lparr>NodesWarming := NodesWarming (Status u) @ [n]\<rparr>\<rparr>"

definition preheat :: "string \<Rightarrow> UpgradeAccelerator \<Rightarrow> UpgradeAccelerator" where
  "preheat n u = u\<lparr>Status := Status u\<lparr>NodesPreheated := NodesPreheated (Status u) @ [n]\<rparr>\<rparr>"

text \<open>
  The rest of the contract: creating a job is fine in a namespace the invariant vouches for; a
  node may be marked warming after its job was created, preheated after a succeeded job of it
  was listed.
\<close>

locale job_invariant = setup_invariant +
  fixes ok_ns :: "string \<Rightarrow> bool"
  assumes I_namespace: "I s \<Longrightarrow> ok_ns (target_namespace (obj s))"
    and I_CreateJob:
      "I s \<Longrightarrow> ok_ns (pj_Namespace pullJob) \<Longrightarrow>
       I (s\<lparr>trace := trace s @ [CreateJob (jobConstructor E (obj s) pullJob)]\<rparr>)"
    and I_warm:
      "I s \<Longrightarrow> run_state (createPullJob E pullJob) s = (Inr True, s') \<Longrightarrow> I s' \<Longrightarrow>
       I (s'\<lparr>obj := warm (pj_TargetNodeName pullJob) (obj s')\<rparr>)"
    and I_preheat:
      "I s \<Longrightarrow> job_listed E (trace s) job \<Longrightarrow> job_succeeded job \<Longrightarrow>
       I (s\<lparr>obj := preheat (NodeName (job_PodSpec job)) (obj s)\<rparr>)"
begin

lemma I_createPullJob: "ok_ns (pj_Namespace pullJob) \<Longrightarrow> keeps I (createPullJob E pullJob)"
  by (rule pull_job.ensure_keeps)
     (auto simp: I_call job_write_def split: sum.splits if_splits dest: I_CreateJob)

end

interpretation unique_types: job_invariant E unique_types_sent "\<lambda>_. True" for E
  by unfold_locales
     (auto simp: warm_def preheat_def distinct_types_def calls_ok_def)

text \<open>
  The second instance: every object written by a run lies in the namespace \<open>ns\<close>, as long as
  the custom resource names it.
\<close>

fun writes_in :: "string \<Rightarrow> api_call \<Rightarrow> bool" where
  "writes_in ns (CreateNamespace n) = (ns_Name n = ns)"
| "writes_in ns (CreateConfigMap cm) = (Namespace (cm_Metadata cm) = ns)"
| "writes_in ns (UpdateConfigMap cm) = (Namespace (cm_Metadata cm) = ns)"
| "writes_in ns (CreateJob job) = (Namespace (job_Metadata job) = ns)"
| "writes_in ns _ = True"

lemma target_namespace_map_Conditions [simp]:
  "target_namespace (map_Conditions f u) = target_namespace u"
  by (simp add: target_namespace_def)

lemma target_namespace_other [simp]:
  "target_namespace (set_ResourceVersion rv u) = target_namespace u"
  "target_namespace (u\<lparr>Status := st\<rparr>) = target_namespace u"
  by (simp_all add: target_namespace_def)

abbreviation writes_sent_in :: "string \<Rightarrow> go_state \<Rightarrow> bool" where
  "writes_sent_in ns \<equiv> calls_ok (writes_in ns) (\<lambda>u. target_namespace u = ns)"

interpretation one_namespace: job_invariant E "writes_sent_in ns" "\<lambda>n. n = ns" for E ns
proof unfold_locales
  show "writes_sent_in ns (s\<lparr>trace := trace s @ [c]\<rparr>)" if "is_plain c" "writes_sent_in ns s" for c s
    using that by (cases c) (auto intro: calls_ok_call)
qed (auto simp: jobConstructor_def job_metadata_def warm_def preheat_def calls_ok_def
       intro!: keeps_Status_Update keeps_modify_status)

section \<open>Concrete runs\<close>

definition sample_pull_job :: PullJob where
  "sample_pull_job = \<lparr>pj_Name = ''a-ua-puller'', pj_Namespace = ''ns'', pj_TargetNodeName = ''a'',
     pj_ReleaseConfigMapName = []\<rparr>"

definition second_look :: "Job \<Rightarrow> env" where
  "second_look job = idle_env\<lparr>on_GetJob := (\<lambda>tr key. if tr = [] then Inl not_found else Inr job)\<rparr>"

definition some_job :: Job where
  "some_job = jobConstructor idle_env zero_UpgradeAccelerator sample_pull_job"

theorem createPullJob_once_witness:
  "\<exists>s'. run_state (createPullJob (second_look some_job) sample_pull_job) (start zero_UpgradeAccelerator) =
          (Inr True, s') \<and>
        run_state (createPullJob (second_look some_job) sample_pull_job) s' =
          (Inr False, s'\<lparr>trace := trace s' @ [GetJob (job_key sample_pull_job)]\<rparr>)"
proof -
  obtain s' where run:
    "run_state (createPullJob (second_look some_job) sample_pull_job) (start zero_UpgradeAccelerator) =
       (Inr True, s')" and "trace s' \<noteq> []"
    by (simp add: createPullJob_def Let_def second_look_def idle_env_def start_def not_found_def)
  moreover have "on_GetJob (second_look some_job) (trace s') (job_key sample_pull_job) = Inr some_job"
    using \<open>trace s' \<noteq> []\<close> by (simp add: second_look_def)
  ultimately show ?thesis using createPullJob_once [OF run] by blast
qed

theorem pull_job_uses_setup_witness:
  "\<exists>c. Containers (job_PodSpec (jobConstructor idle_env zero_UpgradeAccelerator
           (sample_pull_job\<lparr>pj_Namespace := UpgradeAcceleratorDefaultNamespace\<rparr>))) = [c] \<and>
       (\<exists>m \<in> set (ctr_VolumeMounts c). vm_MountPath m = ''/host'')"
proof -
  let ?pj = "sample_pull_job\<lparr>pj_Namespace := UpgradeAcceleratorDefaultNamespace\<rparr>"
  have "pj_ReleaseConfigMapName ?pj = []" "pj_Namespace ?pj = target_namespace zero_UpgradeAccelerator"
    "PullScriptConfigMapName (Config (Spec zero_UpgradeAccelerator)) = []"
    by (simp_all add: sample_pull_job_def target_namespace_def zero_defs)
  from pull_job_uses_setup [OF this, of idle_env "''[]''" "''[]''"] show ?thesis by blast
qed

end
