(* ===== verification/Phases.thy ===== *)
theory Phases
  imports Jobs
begin

text \<open>
  The first half of \<open>Reconcile\<close> (\<open>internal/controller/upgradeaccelerator_controller.go\<close>, up to
  the setup of the resources), one definition per commented section of the function. A section
  that returns stops the chain with an outcome; a Go panic (nil pointer, index or slice bounds
  out of range) is the outcome \<open>Panicked\<close>.
\<close>

section \<open>Outcomes\<close>

datatype outcome = Returned ctrl_Result "error option" | Panicked string

type_synonym 'a phase = "(outcome, 'a) ctl go"

definition requeue_30s :: "error option \<Rightarrow> outcome" where
  "requeue_30s err = Returned \<lparr>RequeueAfter = time_Second * 30\<rparr> err"

definition requeue_1m :: "outcome" where
  "requeue_1m = Returned \<lparr>RequeueAfter = time_Minute * 1\<rparr> None"

definition leave :: "outcome \<Rightarrow> 'a phase" where
  "leave r = State_Monad.return (Stop r)"

definition go_on :: "'a \<Rightarrow> 'a phase" where
  "go_on a = State_Monad.return (Next a)"

text \<open>The two blocks that recur: update the status or refetch the object, leaving on an error.\<close>

definition update_status :: "env \<Rightarrow> unit phase" where
  "update_status E = do {
     e \<leftarrow> Status_Update E;
     case e of Some err \<Rightarrow> leave (requeue_30s (Some err)) | None \<Rightarrow> go_on ()
   }"

definition refetch :: "env \<Rightarrow> NamespacedName \<Rightarrow> unit phase" where
  "refetch E req = do {
     e \<leftarrow> Get_UpgradeAccelerator E req;
     case e of Some err \<Rightarrow> leave (requeue_30s (Some err)) | None \<Rightarrow> go_on ()
   }"

section \<open>Fetching and the disabled state\<close>

definition fetch :: "env \<Rightarrow> NamespacedName \<Rightarrow> unit phase" where
  "fetch E req = do {
     e \<leftarrow> Get_UpgradeAccelerator E req;
     case e of Some err \<Rightarrow> leave (requeue_30s (IgnoreNotFound err)) | None \<Rightarrow> go_on ()
   }"

definition reset_nodes :: "UpgradeAcceleratorStatus \<Rightarrow> UpgradeAcceleratorStatus" where
  "reset_nodes st =
     st\<lparr>NodesPreheated := [], NodesSelected := [], NodesWaiting := [], NodesWarming := [],
        PrimerNodes := []\<rparr>"

definition check_disabled :: "env \<Rightarrow> unit phase" where
  "check_disabled E = do {
     upgradeAccelerator \<leftarrow> get_obj;
     if strings_ToLower (spec_State (Spec upgradeAccelerator)) = ''disabled'' then do {
       modify_status reset_nodes;
       _ \<leftarrow> setConditionNotRunning E CONDITION_REASON_RUNNING_DISABLED
             ''UpgradeAccelerator is disabled'';
       _ \<leftarrow> deleteConditions E
             [CONDITION_TYPE_FAILURE, CONDITION_TYPE_SUCCESSFUL, CONDITION_TYPE_INFRASTRUCTURE_FOUND,
              CONDITION_TYPE_PRIMER, CONDITION_TYPE_PRIMING_IN_PROGRESS, CONDITION_TYPE_SETUP_COMPLETE];
       leave (requeue_30s None)
     }
     else go_on ()
   }"

section \<open>Infrastructure and cluster version\<close>

definition find_infrastructure :: "env \<Rightarrow> NamespacedName \<Rightarrow> unit phase" where
  "find_infrastructure E req = do {
     r \<leftarrow> getOpenShiftInfrastructureType E;
     case r of
       Panic p \<Rightarrow> leave (Panicked p)
     | Err err \<Rightarrow> do {
         _ \<leftarrow> setConditionInfrastructureNotFound E err;
         _ \<leftarrow> setConditionFailure E CONDITION_REASON_FAILURE_GET_INFRASTRUCTURE (Error err);
         _ \<leftarrow> deleteConditions E
               [CONDITION_TYPE_SUCCESSFUL, CONDITION_TYPE_PRIMER, CONDITION_TYPE_PRIMING_IN_PROGRESS,
                CONDITION_TYPE_SETUP_COMPLETE];
         leave (requeue_30s (Some err))
       }
     | Ok clusterInfrastructureType \<Rightarrow> do {
         upgradeAccelerator \<leftarrow> get_obj;
         if ClusterInfrastructure (Status upgradeAccelerator) \<noteq> clusterInfrastructureType then do {
           modify_status (\<lambda>st. st\<lparr>ClusterInfrastructure := clusterInfrastructureType\<rparr>);
           _ \<leftarrow> setConditionInfrastructureFound E clusterInfrastructureType;
           refetch E req
         }
         else go_on ()
       }
   }"

definition find_cluster_version :: "env \<Rightarrow> NamespacedName \<Rightarrow> OpenShiftClusterVersionState phase" where
  "find_cluster_version E req = do {
     r \<leftarrow> setupClusterVersion E;
     case r of
       Inl err \<Rightarrow> do {
         _ \<leftarrow> setConditionFailure E CONDITION_REASON_FAILURE_SETUP (Error err);
         _ \<leftarrow> deleteConditions E
               [CONDITION_TYPE_RUNNING, CONDITION_TYPE_SUCCESSFUL, CONDITION_TYPE_PRIMER,
                CONDITION_TYPE_PRIMING_IN_PROGRESS, CONDITION_TYPE_SETUP_COMPLETE];
         leave (requeue_30s (Some err))
       }
     | Inr (clusterVersionState, changed) \<Rightarrow>
         if changed then and_then (refetch E req) (\<lambda>_. go_on clusterVersionState)
         else go_on clusterVersionState
   }"

section \<open>Targeted nodes\<close>

definition find_targets :: "env \<Rightarrow> (string list \<times> string list) phase" where
  "find_targets E = do {
     r \<leftarrow> determineTargetedNodes E;
     case r of
       Inl err \<Rightarrow> leave (requeue_30s (Some err))
     | Inr (targetedNodes, prohibitedNodes, primerNodes, primingProhibitedNodes) \<Rightarrow>
         go_on (targetedNodes, primerNodes)
   }"

definition no_targets :: "env \<Rightarrow> unit phase" where
  "no_targets E = do {
     modify_status reset_nodes;
     _ \<leftarrow> setConditionNotRunning E CONDITION_REASON_RUNNING_NO_NODES_SELECTED
           ''No targeted nodes found'';
     _ \<leftarrow> deleteConditions E
           [CONDITION_TYPE_SUCCESSFUL, CONDITION_TYPE_PRIMER, CONDITION_TYPE_PRIMING_IN_PROGRESS,
            CONDITION_TYPE_SETUP_COMPLETE];
     leave (requeue_30s None)
   }"

fun still_waiting :: "string list \<Rightarrow> string list \<Rightarrow> bool" where
  "still_waiting preheated [] = False"
| "still_waiting preheated (pn # rest) =
     (if \<not> slices_Contains preheated pn then True else still_waiting preheated rest)"

definition primer_checks :: "env \<Rightarrow> string list \<Rightarrow> unit go" where
  "primer_checks E primerNodes =
     (if length primerNodes = 0 then do {
        _ \<leftarrow> setConditionPrimerSkipped E ''Priming effectively disabled'';
        State_Monad.return ()
      }
      else do {
        upgradeAccelerator \<leftarrow> get_obj;
        if \<not> still_waiting (NodesPreheated (Status upgradeAccelerator)) primerNodes then do {
          _ \<leftarrow> setConditionPrimerCompleted E ''All primer nodes are preheated'';
          State_Monad.return ()
        }
        else State_Monad.return ()
      })"

definition lists_complete :: "UpgradeAcceleratorStatus \<Rightarrow> bool" where
  "lists_complete st \<longleftrightarrow>
     length (NodesSelected st) = length (NodesPreheated st) \<and> length (NodesWaiting st) = 0"

definition record_targets ::
  "env \<Rightarrow> NamespacedName \<Rightarrow> string list \<Rightarrow> string list \<Rightarrow> unit phase" where
  "record_targets E req targetedNodes primerNodes = do {
     modify_status (\<lambda>st. st\<lparr>NodesSelected := targetedNodes, PrimerNodes := primerNodes\<rparr>);
     primer_checks E primerNodes;
     upgradeAccelerator \<leftarrow> get_obj;
     if lists_complete (Status upgradeAccelerator) then do {
       _ \<leftarrow> setConditionNotRunning E CONDITION_REASON_RUNNING_RECONCILIATION_COMPLETED
             CONDITION_MESSAGE_COMPLETED;
       _ \<leftarrow> setConditionCompleted E CONDITION_MESSAGE_COMPLETED;
       leave requeue_1m
     }
     else and_then (update_status E) (\<lambda>_. refetch E req)
   }"

definition check_targets ::
  "env \<Rightarrow> NamespacedName \<Rightarrow> string list \<Rightarrow> string list \<Rightarrow> unit phase" where
  "check_targets E req targetedNodes primerNodes =
     (if length targetedNodes = 0 then no_targets E
      else record_targets E req targetedNodes primerNodes)"

section \<open>Setup\<close>

definition setup_phase :: "env \<Rightarrow> OpenShiftClusterVersionState \<Rightarrow> string phase" where
  "setup_phase E clusterVersionState = do {
     r \<leftarrow> setupResources E clusterVersionState;
     case r of
       Inl err \<Rightarrow> do {
         _ \<leftarrow> setConditionFailure E CONDITION_REASON_FAILURE_SETUP (Error err);
         _ \<leftarrow> deleteConditions E setup_failed_conditions;
         leave (requeue_30s (Some err))
       }
     | Inr operatorNamespace \<Rightarrow> do {
         _ \<leftarrow> setConditionSetupComplete E;
         go_on operatorNamespace
       }
   }"

section \<open>Running and leaving\<close>

lemma run_leave [simp]: "run_state (leave r) s = (Stop r, s)"
  by (simp add: leave_def)

lemma run_go_on [simp]: "run_state (go_on a) s = (Next a, s)"
  by (simp add: go_on_def)

lemma keeps_leave [keeps_rules]: "keeps I (leave r)"
  by (rule keepsI) simp

lemma keeps_go_on [keeps_rules]: "keeps I (go_on a)"
  by (rule keepsI) simp

lemma stops_leave [stops_rules]: "Q r \<Longrightarrow> stops_with Q (leave r)"
  by (simp add: stops_with_def)

lemma stops_go_on [stops_rules]: "stops_with Q (go_on a)"
  by (simp add: stops_with_def)

lemma stops_case_result [stops_rules]:
  "(\<And>x. v = Ok x \<Longrightarrow> stops_with Q (f x)) \<Longrightarrow> (\<And>e. v = Err e \<Longrightarrow> stops_with Q (g e)) \<Longrightarrow>
   (\<And>p. v = Panic p \<Longrightarrow> stops_with Q (h p)) \<Longrightarrow>
   stops_with Q (case v of Ok x \<Rightarrow> f x | Err e \<Rightarrow> g e | Panic p \<Rightarrow> h p)"
  by (cases v) auto

lemma keeps_case_result [keeps_rules]:
  "(\<And>x. v = Ok x \<Longrightarrow> keeps I (f x)) \<Longrightarrow> (\<And>e. v = Err e \<Longrightarrow> keeps I (g e)) \<Longrightarrow>
   (\<And>p. v = Panic p \<Longrightarrow> keeps I (h p)) \<Longrightarrow>
   keeps I (case v of Ok x \<Rightarrow> f x | Err e \<Rightarrow> g e | Panic p \<Rightarrow> h p)"
  by (cases v) auto

text \<open>The requests for another run: in 30 seconds, or in a minute and then without an error.\<close>

definition requeues :: "outcome \<Rightarrow> bool" where
  "requeues out =
     (case out of
        Returned res err \<Rightarrow>
          RequeueAfter res = 30 * time_Second \<or> (RequeueAfter res = 60 * time_Second \<and> err = None)
      | Panicked _ \<Rightarrow> True)"

lemma requeues_simps [simp]: "requeues (requeue_30s err)" "requeues requeue_1m" "requeues (Panicked p)"
  by (simp_all add: requeues_def requeue_30s_def requeue_1m_def time_Minute_def)

lemma stops_update_status: "(\<And>err. Q (requeue_30s err)) \<Longrightarrow> stops_with Q (update_status E)"
  unfolding update_status_def by (intro stops_rules)

lemma stops_refetch: "(\<And>err. Q (requeue_30s err)) \<Longrightarrow> stops_with Q (refetch E req)"
  unfolding refetch_def by (intro stops_rules)

lemma run_update_status:
  "run_state (update_status E) s =
     (case on_UpdateStatus E (trace s) (obj s) of
        Inl err \<Rightarrow> (Stop (requeue_30s (Some err)), s\<lparr>trace := trace s @ [UpdateStatus (obj s)]\<rparr>)
      | Inr rv \<Rightarrow> (Next (), s\<lparr>trace := trace s @ [UpdateStatus (obj s)],
                             obj := set_ResourceVersion rv (obj s)\<rparr>))"
  by (simp add: update_status_def run_Status_Update set_ResourceVersion_def split: sum.split)

section \<open>The disabled state\<close>

definition no_nodes :: "UpgradeAcceleratorStatus \<Rightarrow> bool" where
  "no_nodes st \<longleftrightarrow> NodesSelected st = [] \<and> NodesPreheated st = [] \<and> NodesWaiting st = [] \<and>
     NodesWarming st = [] \<and> PrimerNodes st = []"

lemma check_disabled_run:
  "if strings_ToLower (spec_State (Spec (obj s))) = ''disabled''
   then \<exists>s' us. run_state (check_disabled E) s = (Stop (requeue_30s None), s') \<and>
          no_nodes (Status (obj s')) \<and>
          getConditionReason (obj s') CONDITION_TYPE_RUNNING = CONDITION_REASON_RUNNING_DISABLED \<and>
          getConditionReason (obj s') CONDITION_TYPE_FAILURE = [] \<and>
          getConditionReason (obj s') CONDITION_TYPE_PRIMER = [] \<and>
          trace s' = trace s @ map UpdateStatus us \<and> us \<noteq> []
   else run_state (check_disabled E) s = (Next (), s)"
proof (cases "strings_ToLower (spec_State (Spec (obj s))) = ''disabled''")
  case True
  let ?s0 = "s\<lparr>obj := obj s\<lparr>Status := reset_nodes (Status (obj s))\<rparr>\<rparr>"
  let ?ts = "[CONDITION_TYPE_FAILURE, CONDITION_TYPE_SUCCESSFUL, CONDITION_TYPE_INFRASTRUCTURE_FOUND,
              CONDITION_TYPE_PRIMER, CONDITION_TYPE_PRIMING_IN_PROGRESS, CONDITION_TYPE_SETUP_COMPLETE]"
  obtain r1 s1 where one: "run_state (setConditionNotRunning E CONDITION_REASON_RUNNING_DISABLED
      ''UpgradeAccelerator is disabled'') ?s0 = (r1, s1)" by fastforce
  obtain r2 s2 where two: "run_state (deleteConditions E ?ts) s1 = (r2, s2)" by fastforce
  note one' = one [unfolded setConditionNotRunning_def]
  have only: "only_conditions ?s0 s2"
    using only_conditions_appendCondition [OF one'] only_conditions_deleteConditions [OF two]
    by (rule only_conditions_trans)
  from run_appendCondition [OF one'] obtain u where "trace s1 = trace s @ [UpdateStatus u]" by auto
  moreover from only_conditions_deleteConditions [OF two] obtain us where
    "trace s2 = trace s1 @ map UpdateStatus us" by (auto simp: only_conditions_def)
  ultimately have "trace s2 = trace s @ map UpdateStatus (u # us)" by simp
  then have "\<exists>us. trace s2 = trace s @ map UpdateStatus us \<and> us \<noteq> []" by blast
  moreover have "run_state (check_disabled E) s = (Stop (requeue_30s None), s2)"
    using True one two by (simp add: check_disabled_def)
  moreover have "no_nodes (Status (obj s2))"
    using only_conditionsD [OF only] by (simp add: no_nodes_def reset_nodes_def)
  moreover have "getConditionReason (obj s2) t =
      (if t \<in> set ?ts then []
       else if t = CONDITION_TYPE_RUNNING then CONDITION_REASON_RUNNING_DISABLED
       else getConditionReason (obj ?s0) t)" for t
    using reason_after(1) [OF one'] reason_after(2) [OF two] by simp
  ultimately show ?thesis using True by (auto simp: condition_type_defs)
qed (simp add: check_disabled_def)

section \<open>Completion as the lists see it\<close>

lemma still_waiting_iff: "still_waiting preheated nodes \<longleftrightarrow> \<not> set nodes \<subseteq> set preheated"
  by (induction nodes) auto

lemma only_conditions_primer_checks:
  "run_state (primer_checks E primers) s = (r, s') \<Longrightarrow> only_conditions s s'"
  by (auto simp: primer_checks_def set_condition_defs split: prod.splits if_splits
      intro: only_conditions_intros)

lemma record_targets_completes:
  assumes "length targeted = length (NodesPreheated (Status (obj s)))"
    and "NodesWaiting (Status (obj s)) = []"
  shows "\<exists>s' us. run_state (record_targets E req targeted primers) s = (Stop requeue_1m, s') \<and>
           trace s' = trace s @ map UpdateStatus us \<and>
           DesiredVersion (Status (obj s')) = DesiredVersion (Status (obj s)) \<and>
           NodesPreheated (Status (obj s')) = NodesPreheated (Status (obj s)) \<and>
           LastCompletedVersion (Status (obj s')) = LastCompletedVersion (Status (obj s)) \<and>
           getConditionReason (obj s') CONDITION_TYPE_COMPLETED =
             CONDITION_REASON_RUNNING_RECONCILIATION_COMPLETED"
proof -
  let ?s0 = "s\<lparr>obj := obj s\<lparr>Status := Status (obj s)
               \<lparr>NodesSelected := targeted, PrimerNodes := primers\<rparr>\<rparr>\<rparr>"
  obtain r1 s1 where one: "run_state (primer_checks E primers) ?s0 = (r1, s1)" by (metis surj_pair)
  obtain r2 s2 where two: "run_state (setConditionNotRunning E
      CONDITION_REASON_RUNNING_RECONCILIATION_COMPLETED CONDITION_MESSAGE_COMPLETED) s1 = (r2, s2)"
    by fastforce
  obtain r3 s3 where three:
    "run_state (setConditionCompleted E CONDITION_MESSAGE_COMPLETED) s2 = (r3, s3)" by fastforce
  note two' = two [unfolded setConditionNotRunning_def]
    and three' = three [unfolded setConditionCompleted_def]
  note c1 = only_conditions_primer_checks [OF one]
  have only: "only_conditions ?s0 s3"
    using c1 only_conditions_appendCondition [OF two'] only_conditions_appendCondition [OF three']
    by (blast intro: only_conditions_trans)
  then obtain us where "trace s3 = trace s @ map UpdateStatus us"
    by (auto simp: only_conditions_def)
  moreover have "lists_complete (Status (obj s1))"
    using assms only_conditionsD [OF c1] by (simp add: lists_complete_def)
  with one two three have "run_state (record_targets E req targeted primers) s = (Stop requeue_1m, s3)"
    by (simp add: record_targets_def)
  moreover have "getConditionReason (obj s3) CONDITION_TYPE_COMPLETED =
      CONDITION_REASON_RUNNING_RECONCILIATION_COMPLETED"
    using reason_after(1) [OF three'] by simp
  ultimately show ?thesis using only_conditionsD [OF only] by auto
qed

text \<open>C27: When as many nodes are targeted as are preheated and none waits, the section
that records the targets reports completion and ends the run after status updates only, keeping
the preheated nodes and LastCompletedVersion, whichever release the preheated nodes belong
to.\<close>

theorem record_targets_complete:
  assumes "length targeted = length (NodesPreheated (Status (obj s)))"
    and "NodesWaiting (Status (obj s)) = []"
  shows "\<exists>s' us. run_state (record_targets E req targeted primers) s = (Stop requeue_1m, s') \<and>
           trace s' = trace s @ map UpdateStatus us \<and>
           DesiredVersion (Status (obj s')) = DesiredVersion (Status (obj s)) \<and>
           NodesPreheated (Status (obj s')) = NodesPreheated (Status (obj s)) \<and>
           LastCompletedVersion (Status (obj s')) = LastCompletedVersion (Status (obj s)) \<and>
           getConditionReason (obj s') CONDITION_TYPE_COMPLETED =
             CONDITION_REASON_RUNNING_RECONCILIATION_COMPLETED"
  using assms by (rule record_targets_completes)

section \<open>What stops the phases, and what they keep\<close>

lemma stops_phases:
  "stops_with requeues (fetch E req)"
  "stops_with requeues (check_disabled E)"
  "stops_with requeues (find_infrastructure E req)"
  "stops_with requeues (find_cluster_version E req)"
  "stops_with requeues (find_targets E)"
  "stops_with requeues (check_targets E req targeted primers)"
  "stops_with requeues (setup_phase E cvs)"
  unfolding fetch_def check_disabled_def find_infrastructure_def find_cluster_version_def
    find_targets_def check_targets_def no_targets_def record_targets_def setup_phase_def
  by (intro stops_rules stops_refetch stops_update_status; simp)+

text \<open>The sections before the targets are recorded stop after an error or a panic only.\<close>

lemma stops_head:
  assumes "\<And>err. Q (requeue_30s err)" and "\<And>p. Q (Panicked p)"
  shows "stops_with Q (find_infrastructure E req)" "stops_with Q (find_cluster_version E req)"
    "stops_with Q (find_targets E)"
  unfolding find_infrastructure_def find_cluster_version_def find_targets_def
  by (intro stops_rules stops_refetch assms)+

text \<open>When the Infrastructure object has no platformStatus, the run panics on the nil
pointer right after fetching it.\<close>

theorem find_infrastructure_nil_platform:
  assumes "on_GetInfrastructure E (trace s) \<lparr>nn_Namespace = [], nn_Name = ''cluster''\<rparr> = Inr infra"
    and "infra_PlatformStatus infra = None"
  shows "run_state (find_infrastructure E req) s =
           (Stop (Panicked ''nil pointer dereference''),
            s\<lparr>trace := trace s @ [GetInfrastructure \<lparr>nn_Namespace = [], nn_Name = ''cluster''\<rparr>]\<rparr>)"
  using assms
  by (simp add: find_infrastructure_def getOpenShiftInfrastructureType_def Let_def)

lemma setup_phase_namespace:
  "run_state (setup_phase E cvs) s = (Next ns, s') \<Longrightarrow> ns = target_namespace (obj s)"
  by (auto simp: setup_phase_def split: prod.splits sum.splits dest!: setupResources_result)

context query_invariant
begin

lemmas query_rules = keeps_rules I_rules I_setupClusterVersion I_determineTargetedNodes
  I_getOpenShiftInfrastructureType

lemma I_update_status: "keeps I (update_status E)"
  unfolding update_status_def by (intro query_rules)

lemma I_refetch: "keeps I (Get_UpgradeAccelerator E req) \<Longrightarrow> keeps I (refetch E req)"
  unfolding refetch_def by (intro query_rules)

lemma I_head:
  assumes fetched: "keeps I (Get_UpgradeAccelerator E req)"
  shows "keeps I (fetch E req)" "keeps I (find_infrastructure E req)"
    "keeps I (find_cluster_version E req)" "keeps I (find_targets E)"
    "keeps I (record_targets E req targeted primers)"
proof -
  show "keeps I (fetch E req)"
    unfolding fetch_def by (intro query_rules fetched)
  show "keeps I (find_infrastructure E req)" "keeps I (find_cluster_version E req)"
    "keeps I (find_targets E)" "keeps I (record_targets E req targeted primers)"
    unfolding find_infrastructure_def find_cluster_version_def find_targets_def record_targets_def
      primer_checks_def set_condition_defs
    by (intro query_rules I_same_lists I_refetch I_update_status fetched; simp add: same_lists_def)+
qed

end

context job_invariant
begin

lemmas phase_rules = query_rules I_setupResources

lemma I_phases:
  assumes fetched: "keeps I (Get_UpgradeAccelerator E req)"
  shows "keeps I (fetch E req)" "keeps I (check_disabled E)" "keeps I (find_infrastructure E req)"
    "keeps I (find_cluster_version E req)" "keeps I (find_targets E)"
    "keeps I (check_targets E req targeted primers)" "keeps I (setup_phase E cvs)"
proof -
  show "keeps I (check_targets E req targeted primers)"
    unfolding check_targets_def no_targets_def set_condition_defs
    by (intro phase_rules I_modify_status I_head [OF fetched])
       (simp add: reset_nodes_def shrinks_def)
  show "keeps I (check_disabled E)" "keeps I (setup_phase E cvs)"
    unfolding check_disabled_def setup_phase_def set_condition_defs
    by (intro phase_rules I_modify_status; simp add: reset_nodes_def shrinks_def)+
qed (intro I_head [OF fetched])+

end

section \<open>Concrete runs\<close>

theorem find_infrastructure_nil_platform_witness:
  "run_state (find_infrastructure
      (idle_env\<lparr>on_GetInfrastructure := (\<lambda>tr key. Inr \<lparr>infra_PlatformStatus = None\<rparr>)\<rparr>)
      \<lparr>nn_Namespace = [], nn_Name = ''ua''\<rparr>) (start zero_UpgradeAccelerator) =
     (Stop (Panicked ''nil pointer dereference''),
      (start zero_UpgradeAccelerator)\<lparr>trace := trace (start zero_UpgradeAccelerator) @
         [GetInfrastructure \<lparr>nn_Namespace = [], nn_Name = ''cluster''\<rparr>]\<rparr>)"
  by (rule find_infrastructure_nil_platform [where infra = "\<lparr>infra_PlatformStatus = None\<rparr>"]) simp_all

theorem record_targets_complete_witness:
  "\<exists>s' us. run_state (record_targets idle_env \<lparr>nn_Namespace = [], nn_Name = ''ua''\<rparr> [''b''] [])
       (start (zero_UpgradeAccelerator\<lparr>Status := zero_Status\<lparr>NodesPreheated := [''a'']\<rparr>\<rparr>)) =
       (Stop requeue_1m, s') \<and> NodesPreheated (Status (obj s')) = [''a'']"
proof -
  let ?s = "start (zero_UpgradeAccelerator\<lparr>Status := zero_Status\<lparr>NodesPreheated := [''a'']\<rparr>\<rparr>)"
  have "length [''b''] = length (NodesPreheated (Status (obj ?s)))" "NodesWaiting (Status (obj ?s)) = []"
    by (simp_all add: start_def zero_defs)
  from record_targets_complete [OF this] show ?thesis by (fastforce simp: start_def)
qed

end
