(* ===== verification/Scheduling.thy ===== *)
theory Scheduling
  imports Phases
begin

text \<open>
  The scheduling sections of \<open>Reconcile\<close>: filling the waiting list, the jobs of the primer
  nodes, and the jobs of the remaining nodes once priming is over.
\<close>

section \<open>The waiting list\<close>

fun fill_waiting ::
  "string list \<Rightarrow> string list \<Rightarrow> string list \<Rightarrow> string list \<times> bool \<Rightarrow> string list \<times> bool" where
  "fill_waiting warming preheated [] acc = acc"
| "fill_waiting warming preheated (tNode # rest) (nodesWaiting, changed) =
     fill_waiting warming preheated rest
       (if \<not> slices_Contains warming tNode \<and> \<not> slices_Contains preheated tNode
           \<and> \<not> slices_Contains nodesWaiting tNode
        then (nodesWaiting @ [tNode], True) else (nodesWaiting, changed))"

definition waiting_phase :: "env \<Rightarrow> string list \<Rightarrow> unit phase" where
  "waiting_phase E targetedNodes = do {
     upgradeAccelerator \<leftarrow> get_obj;
     let st = Status upgradeAccelerator;
     case fill_waiting (NodesWarming st) (NodesPreheated st) targetedNodes (NodesWaiting st, False) of
       (nodesWaiting, changed) \<Rightarrow>
         if changed then do {
           modify_status (\<lambda>st. st\<lparr>NodesWaiting := nodesWaiting\<rparr>);
           update_status E
         }
         else go_on ()
   }"

section \<open>Scheduling\<close>

definition pull_job_for :: "UpgradeAccelerator \<Rightarrow> string \<Rightarrow> string \<Rightarrow> PullJob" where
  "pull_job_for upgradeAccelerator operatorNamespace pNode =
     \<lparr>pj_Name = pNode @ ''-ua-puller-'' @ hashString (DesiredVersion (Status upgradeAccelerator)),
      pj_Namespace = operatorNamespace,
      pj_TargetNodeName = pNode,
      pj_ReleaseConfigMapName = []\<rparr>"

definition slice_bounds :: outcome where
  "slice_bounds = Panicked ''slice bounds out of range [:-1]''"

definition remove_waiting :: "string \<Rightarrow> unit phase" where
  "remove_waiting pNode = do {
     upgradeAccelerator \<leftarrow> get_obj;
     let waiting = NodesWaiting (Status upgradeAccelerator);
     case slice_delete waiting (slices_Index waiting pNode) of
       None \<Rightarrow> leave slice_bounds
     | Some nodesWaiting \<Rightarrow> do {
         modify_status (\<lambda>st. st\<lparr>NodesWaiting := nodesWaiting\<rparr>);
         go_on ()
       }
   }"

text \<open>The primers' version: a single waiting node resets the list, an empty list stays.\<close>

definition remove_waiting_primer :: "string \<Rightarrow> unit phase" where
  "remove_waiting_primer pNode = do {
     upgradeAccelerator \<leftarrow> get_obj;
     let waiting = NodesWaiting (Status upgradeAccelerator);
     if length waiting = 1 \<and> slices_Contains waiting pNode then do {
       modify_status (\<lambda>st. st\<lparr>NodesWaiting := []\<rparr>);
       go_on ()
     }
     else if length waiting > 1 then remove_waiting pNode
     else go_on ()
   }"

text \<open>
  The body both loops share: create the job and, when it was created, mark the node warming,
  remove it from the waiting list and update the status. The result tells whether it was.
\<close>

definition start_job :: "env \<Rightarrow> string \<Rightarrow> (string \<Rightarrow> unit phase) \<Rightarrow> string \<Rightarrow> bool phase" where
  "start_job E operatorNamespace remove pNode = do {
     upgradeAccelerator \<leftarrow> get_obj;
     if \<not> slices_Contains (NodesWarming (Status upgradeAccelerator)) pNode \<or>
        \<not> slices_Contains (NodesPreheated (Status upgradeAccelerator)) pNode
     then do {
       r \<leftarrow> createPullJob E (pull_job_for upgradeAccelerator operatorNamespace pNode);
       case r of
         Inl err \<Rightarrow> leave (requeue_30s (Some err))
       | Inr createdJob \<Rightarrow>
           if createdJob then do {
             modify_status (\<lambda>st. st\<lparr>NodesWarming := NodesWarming st @ [pNode]\<rparr>);
             and_then (remove pNode) (\<lambda>_. and_then (update_status E) (\<lambda>_. go_on True))
           }
           else go_on False
     }
     else go_on False
   }"

definition schedule_primer ::
  "env \<Rightarrow> string \<Rightarrow> string \<Rightarrow> bool \<times> bool \<Rightarrow> (bool \<times> bool) phase" where
  "schedule_primer E operatorNamespace pNode flags = do {
     upgradeAccelerator \<leftarrow> get_obj;
     case flags of (primerJobScheduled, primerJobStillRunning) \<Rightarrow>
       and_then (start_job E operatorNamespace remove_waiting_primer pNode) (\<lambda>created. go_on
         (primerJobScheduled \<or> created,
          primerJobStillRunning \<or> slices_Contains (NodesWarming (Status upgradeAccelerator)) pNode))
   }"

definition primer_conditions :: "env \<Rightarrow> string list \<Rightarrow> bool \<times> bool \<Rightarrow> unit phase" where
  "primer_conditions E primerNodes flags =
     (case flags of (primerJobScheduled, primerJobStillRunning) \<Rightarrow> do {
        (if primerJobScheduled then do {
           _ \<leftarrow> setConditionPrimerInProgress E
                 (''Primer nodes warming in progress: '' @ strings_Join primerNodes '', '');
           State_Monad.return ()
         } else State_Monad.return ());
        (if primerJobStillRunning then do {
           _ \<leftarrow> setConditionRunning E CONDITION_REASON_RUNNING_JOBS_SCHEDULED
                 (''Following primer nodes currently warming: '' @ strings_Join primerNodes '', '');
           State_Monad.return ()
         } else State_Monad.return ());
        (if \<not> primerJobStillRunning \<and> \<not> primerJobScheduled then do {
           _ \<leftarrow> setConditionPrimerCompleted E
                 (''Primer nodes warming completed: '' @ strings_Join primerNodes '', '');
           State_Monad.return ()
         } else State_Monad.return ());
        go_on ()
      })"

definition primer_phase :: "env \<Rightarrow> string \<Rightarrow> string list \<Rightarrow> unit phase" where
  "primer_phase E operatorNamespace primerNodes = do {
     upgradeAccelerator \<leftarrow> get_obj;
     if Prime (Spec upgradeAccelerator) \<and> length primerNodes > 0 then
       and_then (for_range (schedule_primer E operatorNamespace) primerNodes (False, False))
         (primer_conditions E primerNodes)
     else go_on ()
   }"

text \<open>
  One batch: \<open>Parallelism\<close> times, the head of the waiting list moves to the batch; an empty list
  panics.
\<close>

fun take_batch :: "nat \<Rightarrow> string list \<Rightarrow> string list \<Rightarrow> (string list \<times> string list) option" where
  "take_batch 0 nodesWaiting next = Some (next, nodesWaiting)"
| "take_batch (Suc k) [] next = None"
| "take_batch (Suc k) (node # nodesWaiting) next = take_batch k nodesWaiting (next @ [node])"

text \<open>
  The next nodes, the waiting list that remains, and whether the two slices share their array,
  as they do when the whole list is taken.
\<close>

definition next_nodes ::
  "UpgradeAccelerator \<Rightarrow> (string list \<times> string list \<times> bool) option" where
  "next_nodes upgradeAccelerator =
     (let waiting = NodesWaiting (Status upgradeAccelerator);
          parallelism = Parallelism (Spec upgradeAccelerator)
      in if length waiting > 0 then
           (if parallelism = 0 then Some (waiting, waiting, True)
            else map_option (\<lambda>(next, rest). (next, rest, False))
                   (take_batch (nat (sint parallelism)) waiting []))
         else Some ([], waiting, False))"

text \<open>
  The loop reads cell \<open>i\<close> of the batch's array when it gets there. Deleting from a waiting list
  that shares the array shifts its cells: the array then holds the shorter list and its old
  last cells behind it.
\<close>

definition schedule_remaining ::
  "env \<Rightarrow> string \<Rightarrow> bool \<Rightarrow> nat \<Rightarrow> string list \<Rightarrow> string list phase" where
  "schedule_remaining E operatorNamespace shared i nextNodes =
     and_then (start_job E operatorNamespace remove_waiting (nextNodes ! i)) (\<lambda>created. do {
       upgradeAccelerator \<leftarrow> get_obj;
       let waiting = NodesWaiting (Status upgradeAccelerator);
       go_on (if created \<and> shared then waiting @ drop (length waiting) nextNodes else nextNodes)
     })"

definition remaining_phase :: "env \<Rightarrow> string \<Rightarrow> unit phase" where
  "remaining_phase E operatorNamespace = do {
     upgradeAccelerator \<leftarrow> get_obj;
     let primerCondition = getConditionReason upgradeAccelerator CONDITION_TYPE_PRIMER;
     if primerCondition = CONDITION_REASON_PRIMER_SKIPPED \<or>
        primerCondition = CONDITION_REASON_PRIMER_COMPLETED
     then
       (case next_nodes upgradeAccelerator of
          None \<Rightarrow> leave (Panicked ''index out of range [0] with length 0'')
        | Some (nextNodesToProcess, waiting, shared) \<Rightarrow> do {
            modify_status (\<lambda>st. st\<lparr>NodesWaiting := waiting\<rparr>);
            and_then
              (for_range (schedule_remaining E operatorNamespace shared)
                 [0..<length nextNodesToProcess] nextNodesToProcess)
              (\<lambda>nextNodesToProcess. do {
                 _ \<leftarrow> setConditionRunning E CONDITION_REASON_RUNNING_JOBS_SCHEDULED
                       (''Following nodes currently warming: '' @ strings_Join nextNodesToProcess '', '');
                 go_on ()
               })
          })
     else go_on ()
   }"

section \<open>The waiting list covers the targets\<close>

lemma fill_waiting_spec:
  "\<exists>new. fill_waiting warming preheated targets (w, b) = (w @ new, b \<or> new \<noteq> []) \<and>
     set new = set targets - set warming - set preheated - set w \<and> distinct new"
proof (induction targets arbitrary: w b)
  case Nil
  then show ?case by simp
next
  case (Cons t targets)
  show ?case
  proof (cases "t \<in> set warming \<or> t \<in> set preheated \<or> t \<in> set w")
    case True
    with Cons.IH [of w b] show ?thesis by auto
  next
    case False
    from Cons.IH [of "w @ [t]" True] obtain new where
      "fill_waiting warming preheated targets (w @ [t], True) = (w @ t # new, True)"
      "set new = set targets - set warming - set preheated - set (w @ [t])" "distinct new" by auto
    with False show ?thesis by (intro exI [of _ "t # new"]) auto
  qed
qed

text \<open>C6: After the waiting list has been filled every targeted node is waiting, warming
or preheated; the nodes appended to the waiting list are exactly the targeted nodes that were in
none of the three lists, each once, and the other two lists are unchanged.\<close>

theorem waiting_phase_covers:
  assumes "run_state (waiting_phase E targeted) s = (Next (), s')"
  shows "set targeted \<subseteq> set (NodesWaiting (Status (obj s'))) \<union> set (NodesWarming (Status (obj s'))) \<union>
                           set (NodesPreheated (Status (obj s'))) \<and>
         NodesWarming (Status (obj s')) = NodesWarming (Status (obj s)) \<and>
         NodesPreheated (Status (obj s')) = NodesPreheated (Status (obj s)) \<and>
         (\<exists>new. NodesWaiting (Status (obj s')) = NodesWaiting (Status (obj s)) @ new \<and> distinct new \<and>
                set new = set targeted - set (NodesWaiting (Status (obj s))) -
                            set (NodesWarming (Status (obj s))) - set (NodesPreheated (Status (obj s))))"
proof -
  let ?st = "Status (obj s)"
  from fill_waiting_spec [of "NodesWarming ?st" "NodesPreheated ?st" targeted "NodesWaiting ?st" False]
  obtain new where
    fill: "fill_waiting (NodesWarming ?st) (NodesPreheated ?st) targeted (NodesWaiting ?st, False) =
             (NodesWaiting ?st @ new, new \<noteq> [])" and
    new: "set new = set targeted - set (NodesWarming ?st) - set (NodesPreheated ?st) -
            set (NodesWaiting ?st)" "distinct new" by auto
  show ?thesis
  proof (cases "new = []")
    case True
    with assms fill have "s' = s" by (simp add: waiting_phase_def Let_def)
    with new True show ?thesis by auto
  next
    case False
    with assms fill have "Status (obj s') = ?st\<lparr>NodesWaiting := NodesWaiting ?st @ new\<rparr>"
      by (auto simp: waiting_phase_def Let_def run_update_status split: sum.splits)
    with new show ?thesis by auto
  qed
qed

section \<open>One job\<close>

lemma run_remove_waiting:
  "run_state (remove_waiting n) s =
     (if n \<in> set (NodesWaiting (Status (obj s)))
      then (Next (), s\<lparr>obj := obj s\<lparr>Status := Status (obj s)
              \<lparr>NodesWaiting := remove1 n (NodesWaiting (Status (obj s)))\<rparr>\<rparr>\<rparr>)
      else (Stop slice_bounds, s))"
  by (simp add: remove_waiting_def Let_def slice_delete_Index)

lemma run_remove_waiting_primer:
  "run_state (remove_waiting_primer n) s =
     (if n \<in> set (NodesWaiting (Status (obj s)))
      then (Next (), s\<lparr>obj := obj s\<lparr>Status := Status (obj s)
              \<lparr>NodesWaiting := remove1 n (NodesWaiting (Status (obj s)))\<rparr>\<rparr>\<rparr>)
      else if length (NodesWaiting (Status (obj s))) > 1 then (Stop slice_bounds, s)
      else (Next (), s))"
proof (cases "NodesWaiting (Status (obj s))")
  case Nil
  then show ?thesis by (simp add: remove_waiting_primer_def Let_def)
next
  case (Cons w ws)
  then show ?thesis
    by (cases ws) (auto simp: remove_waiting_primer_def Let_def run_remove_waiting)
qed

lemma jobConstructor_status [simp]:
  "DesiredVersion st = DesiredVersion (Status u) \<Longrightarrow>
     jobConstructor E (u\<lparr>Status := st\<rparr>) pullJob = jobConstructor E u pullJob"
  by (simp add: jobConstructor_def job_container_def job_env_def job_metadata_def puller_image_def
      release_map_name_def script_map_name_def job_tolerations_def controller_ref_def)

lemma pull_job_for_status [simp]:
  "DesiredVersion st = DesiredVersion (Status u) \<Longrightarrow>
     pull_job_for (u\<lparr>Status := st\<rparr>) ns n = pull_job_for u ns n"
  by (simp add: pull_job_for_def)

text \<open>The job of a node, and the two calls that create it.\<close>

abbreviation node_job :: "env \<Rightarrow> UpgradeAccelerator \<Rightarrow> string \<Rightarrow> string \<Rightarrow> Job" where
  "node_job E u ns n \<equiv> jobConstructor E u (pull_job_for u ns n)"

abbreviation node_job_calls :: "env \<Rightarrow> UpgradeAccelerator \<Rightarrow> string \<Rightarrow> string \<Rightarrow> api_call list" where
  "node_job_calls E u ns n \<equiv> [GetJob (job_key (pull_job_for u ns n)), CreateJob (node_job E u ns n)]"

lemma run_start_job:
  "run_state (start_job E ns remove n) s =
     (if n \<in> set (NodesWarming (Status (obj s))) \<and> n \<in> set (NodesPreheated (Status (obj s)))
      then (Next False, s)
      else case run_state (createPullJob E (pull_job_for (obj s) ns n)) s of
             (Inl err, t) \<Rightarrow> (Stop (requeue_30s (Some err)), t)
           | (Inr created, t) \<Rightarrow>
               if created
               then run_state (and_then (remove n) (\<lambda>_. and_then (update_status E) (\<lambda>_. go_on True)))
                      (t\<lparr>obj := warm n (obj t)\<rparr>)
               else (Next False, t))"
  by (auto simp: start_job_def warm_def split: prod.split sum.split)

lemma run_createPullJob_new:
  assumes "on_GetJob E (trace s) (job_key pullJob) = Inl err" and "IsNotFound err"
    and "on_CreateJob E (trace s @ [GetJob (job_key pullJob)]) (jobConstructor E (obj s) pullJob) = None"
  shows "run_state (createPullJob E pullJob) s =
           (Inr True, s\<lparr>trace := trace s @ [GetJob (job_key pullJob),
                                         CreateJob (jobConstructor E (obj s) pullJob)]\<rparr>)"
  using assms by (simp add: createPullJob_def Let_def)

text \<open>After the creation: the node is warming, no longer waiting, and the status was sent.\<close>

lemma run_after_creation:
  assumes "run_state (and_then (remove_waiting n) (\<lambda>_. and_then (update_status E) (\<lambda>_. go_on True))) t = (r, s')"
  shows "if n \<in> set (NodesWaiting (Status (obj t)))
         then Status (obj s') = Status (obj t)\<lparr>NodesWaiting := remove1 n (NodesWaiting (Status (obj t)))\<rparr> \<and>
              Spec (obj s') = Spec (obj t) \<and> (\<exists>u. trace s' = trace t @ [UpdateStatus u]) \<and>
              (r = Next True \<or> (\<exists>err. r = Stop (requeue_30s (Some err))))
         else r = Stop slice_bounds \<and> s' = t"
  using assms
  by (auto simp: run_and_then run_remove_waiting run_update_status split: if_splits sum.splits)

lemma start_job_new:
  assumes "run_state (start_job E ns remove_waiting n) s = (r, s')"
    and "on_GetJob E (trace s) (job_key (pull_job_for (obj s) ns n)) = Inl err" and "IsNotFound err"
    and "on_CreateJob E (trace s @ [GetJob (job_key (pull_job_for (obj s) ns n))])
           (node_job E (obj s) ns n) = None"
    and "\<not> (n \<in> set (NodesWarming (Status (obj s))) \<and> n \<in> set (NodesPreheated (Status (obj s))))"
  shows "if n \<in> set (NodesWaiting (Status (obj s)))
         then Status (obj s') = Status (obj s)
                \<lparr>NodesWarming := NodesWarming (Status (obj s)) @ [n],
                 NodesWaiting := remove1 n (NodesWaiting (Status (obj s)))\<rparr> \<and>
              (\<exists>u. trace s' = trace s @ node_job_calls E (obj s) ns n @ [UpdateStatus u]) \<and>
              (r = Next True \<or> (\<exists>err. r = Stop (requeue_30s (Some err))))
         else r = Stop slice_bounds \<and> trace s' = trace s @ node_job_calls E (obj s) ns n"
proof -
  let ?t = "s\<lparr>trace := trace s @ node_job_calls E (obj s) ns n, obj := warm n (obj s)\<rparr>"
  have "run_state (and_then (remove_waiting n) (\<lambda>_. and_then (update_status E) (\<lambda>_. go_on True))) ?t =
          (r, s')"
    using assms(1,5) run_createPullJob_new [OF assms(2-4)] by (auto simp: run_start_job split: if_splits)
  from run_after_creation [OF this] show ?thesis by (auto simp: warm_def)
qed

text \<open>
  When the job is there already, say because the status update that followed its creation
  failed, the body does not create one and leaves the node where it is: a waiting node stays in
  the waiting list for as long as the job exists.
\<close>

lemma start_job_existing:
  assumes "on_GetJob E (trace s) (job_key (pull_job_for (obj s) ns n)) = Inr job"
  shows "\<exists>cs. run_state (start_job E ns remove n) s = (Next False, s\<lparr>trace := trace s @ cs\<rparr>)"
  using assms by (auto simp: run_start_job createPullJob_def Let_def intro: exI [of _ "[]"])

text \<open>C23: When the API server has no job of the node and accepts one, the loop body
creates a job for the node exactly when the node is not both warming and preheated: the guard is
a disjunction, so a node that is only preheated gets a job again.\<close>

theorem start_job_creates_iff:
  assumes "run_state (start_job E ns remove_waiting n) s = (r, s')"
    and "on_GetJob E (trace s) (job_key (pull_job_for (obj s) ns n)) = Inl err" and "IsNotFound err"
    and "on_CreateJob E (trace s @ [GetJob (job_key (pull_job_for (obj s) ns n))])
           (node_job E (obj s) ns n) = None"
  shows "(\<exists>calls. trace s' = trace s @ node_job_calls E (obj s) ns n @ calls) \<longleftrightarrow>
           \<not> (n \<in> set (NodesWarming (Status (obj s))) \<and> n \<in> set (NodesPreheated (Status (obj s))))"
proof (cases "n \<in> set (NodesWarming (Status (obj s))) \<and> n \<in> set (NodesPreheated (Status (obj s)))")
  case True
  with assms(1) have "s' = s" by (simp add: run_start_job)
  with True show ?thesis by simp
next
  case False
  from start_job_new [OF assms this] False show ?thesis by (auto split: if_splits)
qed

text \<open>C1: Starting a job for a node of the remaining batch conserves nodes: when the loop
body continues, the multiset of waiting and warming nodes together is the one before, the
preheated nodes are untouched, and it reports a created job exactly when it sent the API server
the creation of the job of that node.\<close>

theorem start_job_conserves:
  assumes "run_state (start_job E ns remove_waiting n) s = (Next created, s')"
  shows "mset (NodesWaiting (Status (obj s'))) + mset (NodesWarming (Status (obj s'))) =
           mset (NodesWaiting (Status (obj s))) + mset (NodesWarming (Status (obj s))) \<and>
         NodesPreheated (Status (obj s')) = NodesPreheated (Status (obj s)) \<and>
         (created \<longleftrightarrow> CreateJob (node_job E (obj s) ns n) \<in> set (drop (length (trace s)) (trace s')))"
proof (cases "n \<in> set (NodesWarming (Status (obj s))) \<and> n \<in> set (NodesPreheated (Status (obj s)))")
  case True
  with assms have "s' = s \<and> \<not> created" by (simp add: run_start_job)
  then show ?thesis by simp
next
  case False
  let ?pj = "pull_job_for (obj s) ns n"
  obtain x t where c: "run_state (createPullJob E ?pj) s = (x, t)" by (metis surj_pair)
  from assms False c obtain b where x: "x = Inr b"
    by (cases x) (auto simp: run_start_job split: if_splits)
  note t = pull_job.ensure_obj [OF c]
  show ?thesis
  proof (cases b)
    case True
    with assms False c x have after: "run_state (and_then (remove_waiting n)
        (\<lambda>_. and_then (update_status E) (\<lambda>_. go_on True))) (t\<lparr>obj := warm n (obj t)\<rparr>) = (Next created, s')"
      by (auto simp: run_start_job split: if_splits)
    from run_after_creation [OF after] t createPullJob_created [OF c [unfolded x]] True
    show ?thesis by (auto simp: warm_def slice_bounds_def split: if_splits)
  next
    case False
    with assms c x \<open>\<not> (n \<in> _ \<and> _)\<close> have "s' = t \<and> \<not> created"
      by (auto simp: run_start_job split: if_splits)
    with t createPullJob_created [OF c [unfolded x]] False pull_job.ensure_calls [OF c]
    show ?thesis
      by (auto simp: job_write_def split: sum.splits if_splits option.splits)
  qed
qed

section \<open>Batches\<close>

lemma take_batch_eq:
  "take_batch k w next = (if k \<le> length w then Some (next @ take k w, drop k w) else None)"
  by (induction k w "next" rule: take_batch.induct) auto

definition may_proceed :: "UpgradeAccelerator \<Rightarrow> bool" where
  "may_proceed u \<longleftrightarrow> getConditionReason u CONDITION_TYPE_PRIMER \<in>
     {CONDITION_REASON_PRIMER_SKIPPED, CONDITION_REASON_PRIMER_COMPLETED}"

lemma remaining_phase_idle: "\<not> may_proceed (obj s) \<Longrightarrow> run_state (remaining_phase E ns) s = (Next (), s)"
  by (simp add: remaining_phase_def may_proceed_def Let_def)

lemma remaining_phase_proceed:
  "may_proceed (obj s) \<Longrightarrow>
     run_state (remaining_phase E ns) s =
       (case next_nodes (obj s) of
          None \<Rightarrow> (Stop (Panicked ''index out of range [0] with length 0''), s)
        | Some (nodes, waiting, shared) \<Rightarrow>
            run_state
              (and_then
                (for_range (schedule_remaining E ns shared) [0..<length nodes] nodes)
                (\<lambda>nodes. do {
                   _ \<leftarrow> setConditionRunning E CONDITION_REASON_RUNNING_JOBS_SCHEDULED
                         (''Following nodes currently warming: '' @ strings_Join nodes '', '');
                   go_on ()
                 }))
              (s\<lparr>obj := obj s\<lparr>Status := Status (obj s)\<lparr>NodesWaiting := waiting\<rparr>\<rparr>\<rparr>))"
  by (auto simp: remaining_phase_def may_proceed_def Let_def split: option.split)

text \<open>C24: When nodes are waiting, a parallelism (a signed 32-bit value) larger than their
number makes the batch loop index an empty slice: the run panics before it creates a job or
updates the status. The default parallelism of 5 does so on any cluster with fewer than five
waiting nodes.\<close>

theorem short_batch_panics:
  assumes "may_proceed (obj s)" and "NodesWaiting (Status (obj s)) \<noteq> []"
    and "sint (Parallelism (Spec (obj s))) > int (length (NodesWaiting (Status (obj s))))"
  shows "run_state (remaining_phase E ns) s =
           (Stop (Panicked ''index out of range [0] with length 0''), s)"
proof -
  have "Parallelism (Spec (obj s)) \<noteq> 0" using assms(3) by auto
  moreover have "\<not> nat (sint (Parallelism (Spec (obj s)))) \<le> length (NodesWaiting (Status (obj s)))"
    using assms(3) by linarith
  ultimately have "next_nodes (obj s) = None"
    using assms(2) by (simp add: next_nodes_def Let_def take_batch_eq)
  with assms(1) show ?thesis by (simp add: remaining_phase_proceed)
qed

text \<open>C25: With a positive parallelism that fits the waiting list, on an API server that
has no job of the first node yet and accepts one, that job is created and the run then panics on
a slice bound of -1, because the node was already removed from the waiting list: the status
never records the warming node.\<close>

theorem batch_panics_after_creation:
  assumes "may_proceed (obj s)"
    and "NodesWaiting (Status (obj s)) = n # rest" and "distinct (n # rest)"
    and "sint (Parallelism (Spec (obj s))) > 0"
    and "sint (Parallelism (Spec (obj s))) \<le> int (length (n # rest))"
    and "n \<notin> set (NodesWarming (Status (obj s)))"
    and "on_GetJob E (trace s) (job_key (pull_job_for (obj s) ns n)) = Inl err" and "IsNotFound err"
    and "on_CreateJob E (trace s @ [GetJob (job_key (pull_job_for (obj s) ns n))])
           (node_job E (obj s) ns n) = None"
  shows "\<exists>s'. run_state (remaining_phase E ns) s = (Stop slice_bounds, s') \<and>
              trace s' = trace s @ node_job_calls E (obj s) ns n"
proof -
  let ?k = "nat (sint (Parallelism (Spec (obj s))))"
  let ?waiting = "drop ?k (n # rest)" and ?nodes = "take ?k (n # rest)"
  have k: "0 < ?k" "?k \<le> length (n # rest)" using assms(4,5) by linarith+
  have "Parallelism (Spec (obj s)) \<noteq> 0" using assms(4) by auto
  then have nodes: "next_nodes (obj s) = Some (?nodes, ?waiting, False)"
    using assms(2) k(2) by (simp add: next_nodes_def Let_def take_batch_eq)
  obtain j where j: "?k = Suc j" using k(1) by (cases ?k) auto
  then have range: "[0..<length ?nodes] = 0 # [1..<length ?nodes]"
    using k(2) by (simp add: upt_conv_Cons del: upt_Suc)
  let ?t = "s\<lparr>obj := obj s\<lparr>Status := Status (obj s)\<lparr>NodesWaiting := ?waiting\<rparr>\<rparr>\<rparr>"
  obtain r s' where start: "run_state (start_job E ns remove_waiting n) ?t = (r, s')"
    by (metis surj_pair)
  have "n \<notin> set ?waiting" using assms(3) j by (auto dest: in_set_dropD)
  with start_job_new [OF start, of err] assms(6-9)
  have stop: "r = Stop slice_bounds" and tr: "trace s' = trace s @ node_job_calls E (obj s) ns n"
    by simp_all
  have "run_state (schedule_remaining E ns False 0 ?nodes) ?t = (Stop slice_bounds, s')"
    using start stop j by (simp add: schedule_remaining_def run_and_then)
  with assms(1) nodes range have "run_state (remaining_phase E ns) s = (Stop slice_bounds, s')"
    by (simp add: remaining_phase_proceed run_and_then)
  with tr show ?thesis by blast
qed

section \<open>Primers first\<close>

lemma primer_conditions_scheduled:
  assumes "run_state (primer_conditions E primers (True, b)) s = (r, s')"
  shows "getConditionReason (obj s') CONDITION_TYPE_PRIMER = CONDITION_REASON_PRIMER_IN_PROGRESS"
  using assms
  by (auto simp: primer_conditions_def set_condition_defs condition_type_defs
      split: prod.splits if_splits dest!: reason_after)

definition no_jobs :: "go_state \<Rightarrow> go_state \<Rightarrow> bool" where
  "no_jobs s s' \<longleftrightarrow> (\<exists>cs. trace s' = trace s @ cs \<and> (\<forall>job. CreateJob job \<notin> set cs))"

lemma no_jobs_refl [simp]: "no_jobs s s"
  by (simp add: no_jobs_def)

lemma no_jobs_trans: "no_jobs s t \<Longrightarrow> no_jobs t u \<Longrightarrow> no_jobs s u"
  by (auto simp: no_jobs_def)

lemma only_conditions_no_jobs: "only_conditions s s' \<Longrightarrow> no_jobs s s'"
  by (auto simp: only_conditions_def no_jobs_def)

lemma start_job_not_created:
  assumes "run_state (start_job E ns remove n) s = (Next False, s')"
  shows "no_jobs s s'"
proof -
  obtain x t where c: "run_state (createPullJob E (pull_job_for (obj s) ns n)) s = (x, t)"
    by (metis surj_pair)
  show ?thesis
  proof (cases "n \<in> set (NodesWarming (Status (obj s))) \<and> n \<in> set (NodesPreheated (Status (obj s)))")
    case True
    with assms have "s' = s" by (simp add: run_start_job)
    then show ?thesis by simp
  next
    case False
    from assms False c have "x = Inr False \<and> s' = t"
      by (auto simp: run_start_job run_and_then split: if_splits sum.splits prod.splits ctl.splits)
    with pull_job.ensure_calls [OF c] c show ?thesis
      by (auto simp: no_jobs_def job_write_def createPullJob_def Let_def
          split: sum.splits if_splits option.splits)
  qed
qed

lemma primer_loop_no_jobs:
  "run_state (for_range (schedule_primer E ns) primers flags) s = (Next flags', s') \<Longrightarrow>
     \<not> fst flags' \<Longrightarrow> no_jobs s s' \<and> \<not> fst flags"
proof (induction primers arbitrary: flags s)
  case Nil
  then show ?case by auto
next
  case (Cons n primers)
  from Cons.prems(1) obtain f t where
    head: "run_state (schedule_primer E ns n flags) s = (Next f, t)" and
    rest: "run_state (for_range (schedule_primer E ns) primers f) t = (Next flags', s')"
    by (auto simp: run_and_then split: prod.splits ctl.splits)
  from Cons.IH [OF rest Cons.prems(2)] have t: "no_jobs t s'" and f: "\<not> fst f" by auto
  from head f have "run_state (start_job E ns remove_waiting_primer n) s = (Next False, t) \<and> \<not> fst flags"
    by (auto simp: schedule_primer_def run_and_then split: prod.splits ctl.splits)
  with start_job_not_created t show ?case by (blast intro: no_jobs_trans)
qed

text \<open>C7: Primer nodes go first: in a run whose primer section created a job, the section
for the remaining nodes does nothing at all (no call, no change of the object), whatever the
parallelism.\<close>

theorem primers_before_the_rest:
  assumes "run_state (primer_phase E ns primers) s = (Next (), s')" and "\<not> no_jobs s s'"
  shows "run_state (remaining_phase E ns') s' = (Next (), s')"
proof -
  from assms obtain flags t where
    loop: "run_state (for_range (schedule_primer E ns) primers (False, False)) s = (Next flags, t)" and
    conds: "run_state (primer_conditions E primers flags) t = (Next (), s')"
    by (auto simp: primer_phase_def run_and_then split: if_splits prod.splits ctl.splits)
  have "only_conditions t s'"
    using conds
    by (auto simp: primer_conditions_def set_condition_defs split: prod.splits if_splits
        intro: only_conditions_intros only_conditions_trans)
  then have "no_jobs t s'" by (rule only_conditions_no_jobs)
  with assms(2) primer_loop_no_jobs [OF loop] have "fst flags" by (blast intro: no_jobs_trans)
  with conds have "getConditionReason (obj s') CONDITION_TYPE_PRIMER = CONDITION_REASON_PRIMER_IN_PROGRESS"
    by (cases flags) (auto intro: primer_conditions_scheduled)
  then have "\<not> may_proceed (obj s')" by (simp add: may_proceed_def condition_reason_defs)
  then show ?thesis by (rule remaining_phase_idle)
qed

section \<open>How the sections stop, and what they keep\<close>

lemma stops_remove_waiting: "stops_with requeues (remove_waiting n)"
  unfolding remove_waiting_def slice_bounds_def by (intro stops_rules; simp)

lemma stops_start_job:
  "stops_with requeues (remove n) \<Longrightarrow> stops_with requeues (start_job E ns remove n)"
  unfolding start_job_def by (intro stops_rules stops_update_status; simp)

lemma stops_scheduling:
  "stops_with requeues (waiting_phase E targeted)"
  "stops_with requeues (primer_phase E ns primers)"
  "stops_with requeues (remaining_phase E ns)"
proof -
  show "stops_with requeues (waiting_phase E targeted)"
    unfolding waiting_phase_def by (intro stops_rules stops_update_status; simp)
  have "stops_with requeues (remove_waiting_primer n)" for n
    unfolding remove_waiting_primer_def by (intro stops_rules stops_remove_waiting; simp)
  then show "stops_with requeues (primer_phase E ns primers)"
    unfolding primer_phase_def schedule_primer_def primer_conditions_def
    by (intro stops_rules stops_start_job; simp)
  show "stops_with requeues (remaining_phase E ns)"
    unfolding remaining_phase_def schedule_remaining_def
    by (intro stops_rules stops_start_job stops_remove_waiting; simp)
qed

context job_invariant
begin

lemma I_remove_waiting: "keeps I (remove_waiting n)" "keeps I (remove_waiting_primer n)"
  unfolding remove_waiting_primer_def remove_waiting_def
  by (intro phase_rules I_modify_status; simp add: shrinks_def)+

lemma I_start_job:
  assumes "ok_ns ns" and "keeps I (remove n)"
  shows "keeps I (start_job E ns remove n)"
proof (rule keepsI)
  fix s a s'
  assume I: "I s" and run: "run_state (start_job E ns remove n) s = (a, s')"
  let ?job = "pull_job_for (obj s) ns n"
  obtain r t where create: "run_state (createPullJob E ?job) s = (r, t)" by (metis surj_pair)
  have t: "I t"
    by (rule keeps_run [OF I_createPullJob create I]) (simp add: pull_job_for_def assms(1))
  have after: "keeps I (and_then (remove n) (\<lambda>_. and_then (update_status E) (\<lambda>_. go_on True)))"
    by (intro phase_rules assms(2) I_update_status)
  have "I (t\<lparr>obj := warm n (obj t)\<rparr>)" if "r = Inr True"
    using I_warm [OF I create [unfolded that] t] by (simp add: pull_job_for_def)
  with run I t create keeps_run [OF after] show "I s'"
    by (auto simp: run_start_job split: if_splits sum.splits prod.splits)
qed

lemma I_scheduling:
  assumes "ok_ns ns"
  shows "keeps I (waiting_phase E targeted)" "keeps I (primer_phase E ns primers)"
    "keeps I (remaining_phase E ns)"
proof -
  show "keeps I (waiting_phase E targeted)"
    unfolding waiting_phase_def by (intro phase_rules I_modify_status I_update_status) (simp add: shrinks_def)
  show "keeps I (primer_phase E ns primers)"
    unfolding primer_phase_def schedule_primer_def primer_conditions_def set_condition_defs
    by (intro phase_rules I_start_job I_remove_waiting assms)
  show "keeps I (remaining_phase E ns)"
    unfolding remaining_phase_def schedule_remaining_def set_condition_defs
    by (intro phase_rules I_start_job I_remove_waiting I_modify_status assms) (simp add: shrinks_def)
qed

end

section \<open>Concrete runs\<close>

text \<open>An API server that remembers the jobs created in the run.\<close>

definition job_server :: env where
  "job_server = idle_env\<lparr>on_GetJob := (\<lambda>tr key.
     if list_ex (\<lambda>c. case c of
           CreateJob job \<Rightarrow> Namespace (job_Metadata job) = nn_Namespace key \<and>
                            Name (job_Metadata job) = nn_Name key
         | _ \<Rightarrow> False) tr
     then Inr (jobConstructor idle_env zero_UpgradeAccelerator
                 \<lparr>pj_Name = nn_Name key, pj_Namespace = nn_Namespace key, pj_TargetNodeName = [],
                  pj_ReleaseConfigMapName = []\<rparr>)
     else Inl not_found)\<rparr>"

definition ready :: "string \<Rightarrow> int32 \<Rightarrow> string list \<Rightarrow> UpgradeAccelerator" where
  "ready reason parallelism waiting = zero_UpgradeAccelerator
     \<lparr>Spec := zero_Spec\<lparr>Prime := True, Parallelism := parallelism\<rparr>,
      Status := zero_Status\<lparr>NodesWaiting := waiting,
        Conditions := [mk_condition CONDITION_TYPE_PRIMER ''True'' reason [] 0]\<rparr>\<rparr>"

lemmas ready_defs = ready_def zero_defs start_def idle_env_def mk_condition_def

lemma ready_simps [simp]:
  "Status (ready reason p w) = zero_Status\<lparr>NodesWaiting := w,
      Conditions := [mk_condition CONDITION_TYPE_PRIMER ''True'' reason [] 0]\<rparr>"
  "Parallelism (Spec (ready reason p w)) = p"
  "Prime (Spec (ready reason p w))"
  "may_proceed (ready CONDITION_REASON_PRIMER_COMPLETED p w)"
  by (simp_all add: ready_def may_proceed_def getConditionReason_def mk_condition_def)

lemma start_simps [simp]: "obj (start u) = u" "trace (start u) = []"
  by (simp_all add: start_def)

lemma idle_env_simps [simp]:
  "on_GetJob idle_env tr key = Inl not_found"
  "on_CreateJob idle_env tr job = None"
  "on_UpdateStatus idle_env tr u = Inr (ResourceVersion (Metadata u))"
  "IsNotFound not_found"
  by (simp_all add: idle_env_def not_found_def)

theorem waiting_phase_covers_witness:
  "\<exists>s'. run_state (waiting_phase idle_env [''b'', ''a'']) (start (ready [] 5 [''a''])) = (Next (), s') \<and>
        set [''b'', ''a''] \<subseteq> set (NodesWaiting (Status (obj s'))) \<union>
          set (NodesWarming (Status (obj s'))) \<union> set (NodesPreheated (Status (obj s')))"
proof -
  obtain s' where run:
    "run_state (waiting_phase idle_env [''b'', ''a'']) (start (ready [] 5 [''a''])) = (Next (), s')"
    by (simp add: waiting_phase_def Let_def run_update_status zero_Status_def)
  with waiting_phase_covers [OF run] show ?thesis by blast
qed

theorem start_job_creates_iff_witness:
  "(\<exists>calls. trace (snd (run_state (start_job idle_env ''ns'' remove_waiting ''a'')
                         (start (ready [] 5 [''a''])))) =
              node_job_calls idle_env (ready [] 5 [''a'']) ''ns'' ''a'' @ calls) \<longleftrightarrow>
     \<not> (''a'' \<in> set (NodesWarming zero_Status) \<and> ''a'' \<in> set (NodesPreheated zero_Status))"
  using start_job_creates_iff [of idle_env "''ns''" "''a''" "start (ready [] 5 [''a''])" _ _ not_found,
      OF surjective_pairing]
  by simp

theorem start_job_conserves_witness:
  "\<exists>s'. run_state (start_job idle_env ''ns'' remove_waiting ''a'') (start (ready [] 5 [''a'', ''b''])) =
          (Next True, s') \<and>
        mset (NodesWaiting (Status (obj s'))) + mset (NodesWarming (Status (obj s'))) =
          {#''a'', ''b''#}"
proof -
  obtain s' where run:
    "run_state (start_job idle_env ''ns'' remove_waiting ''a'') (start (ready [] 5 [''a'', ''b''])) =
       (Next True, s')"
    by (simp add: run_start_job run_createPullJob_new run_and_then run_remove_waiting
        run_update_status warm_def zero_Status_def)
  with start_job_conserves [OF run] show ?thesis by (simp add: zero_Status_def)
qed

theorem short_batch_panics_witness:
  "run_state (remaining_phase idle_env ''ns'')
      (start (ready CONDITION_REASON_PRIMER_COMPLETED 5 [''a'', ''b''])) =
     (Stop (Panicked ''index out of range [0] with length 0''),
      start (ready CONDITION_REASON_PRIMER_COMPLETED 5 [''a'', ''b'']))"
  by (rule short_batch_panics) simp_all

theorem batch_panics_after_creation_witness:
  "\<exists>s'. run_state (remaining_phase idle_env ''ns'')
            (start (ready CONDITION_REASON_PRIMER_COMPLETED 1 [''a'', ''b''])) = (Stop slice_bounds, s') \<and>
        trace s' = trace (start (ready CONDITION_REASON_PRIMER_COMPLETED 1 [''a'', ''b''])) @
          node_job_calls idle_env (obj (start (ready CONDITION_REASON_PRIMER_COMPLETED 1 [''a'', ''b''])))
            ''ns'' ''a''"
  by (rule batch_panics_after_creation [where rest = "[''b'']" and err = not_found])
     (simp_all add: zero_Status_def)

theorem primers_before_the_rest_witness:
  "\<exists>s'. run_state (primer_phase idle_env ''ns'' [''a'']) (start (ready [] 5 [''a'', ''b''])) = (Next (), s') \<and>
        \<not> no_jobs (start (ready [] 5 [''a'', ''b''])) s' \<and>
        run_state (remaining_phase idle_env ''ns'') s' = (Next (), s')"
proof -
  obtain s' where run:
    "run_state (primer_phase idle_env ''ns'' [''a'']) (start (ready [] 5 [''a'', ''b''])) = (Next (), s')" and
    "\<not> no_jobs (start (ready [] 5 [''a'', ''b''])) s'"
    by (simp add: primer_phase_def schedule_primer_def run_start_job run_createPullJob_new run_and_then
        run_remove_waiting_primer run_update_status warm_def zero_Status_def primer_conditions_def
        set_condition_defs appendCondition_def Let_def run_Status_Update no_jobs_def)
  with primers_before_the_rest [OF run] show ?thesis by blast
qed

text \<open>With parallelism 0 the loop ranges over the backing array that the removals
shift: of three waiting nodes a, b and c, one run starts a and c and leaves b waiting.\<close>

theorem parallelism_zero_skips:
  "\<exists>s'. run_state (remaining_phase job_server ''ns'')
            (start (ready CONDITION_REASON_PRIMER_COMPLETED 0 [''a'', ''b'', ''c''])) = (Next (), s') \<and>
        NodesWarming (Status (obj s')) = [''a'', ''c''] \<and>
        NodesWaiting (Status (obj s')) = [''b'']"
  by (simp add: remaining_phase_proceed next_nodes_def Let_def schedule_remaining_def run_start_job
      createPullJob_def run_and_then run_remove_waiting run_update_status warm_def zero_Status_def
      job_server_def pull_job_for_def job_key_def jobConstructor_def job_metadata_def
      set_condition_defs appendCondition_def run_Status_Update set_ResourceVersion_def
      upt_rec_numeral)

end
