(* ===== verification/Completion.thy ===== *)
theory Completion
  imports Scheduling
begin

text \<open>
  The last sections of \<open>Reconcile\<close>: the scan of the jobs of the release, which moves the nodes
  of succeeded jobs from warming to preheated, and the check for completion.
\<close>

section \<open>Job completion\<close>

definition scan_job :: "env \<Rightarrow> Job \<Rightarrow> unit \<Rightarrow> unit phase" where
  "scan_job E job _ =
     (if job_succeeded job then do {
        let nodeName = NodeName (job_PodSpec job);
        upgradeAccelerator \<leftarrow> get_obj;
        let notPreheated = (\<not> slices_Contains (NodesPreheated (Status upgradeAccelerator)) nodeName);
        (if notPreheated
         then modify_status (\<lambda>st. st\<lparr>NodesPreheated := NodesPreheated st @ [nodeName]\<rparr>)
         else State_Monad.return ());
        let nodesWarming = NodesWarming (Status upgradeAccelerator);
        let isWarming = slices_Contains nodesWarming nodeName;
        and_then
          (if isWarming
           then (case slice_delete nodesWarming (slices_Index nodesWarming nodeName) of
                   None \<Rightarrow> leave slice_bounds
                 | Some rest \<Rightarrow> do {
                     modify_status (\<lambda>st. st\<lparr>NodesWarming := rest\<rparr>);
                     go_on ()
                   })
           else go_on ())
          (\<lambda>_. if notPreheated \<or> isWarming then update_status E else go_on ())
      }
      else go_on ())"

definition reset_warming :: "env \<Rightarrow> unit phase" where
  "reset_warming E = do {
     upgradeAccelerator \<leftarrow> get_obj;
     if length (NodesWarming (Status upgradeAccelerator)) > 0 then do {
       modify_status (\<lambda>st. st\<lparr>NodesWaiting := NodesWaiting st @ NodesWarming st, NodesWarming := []\<rparr>);
       update_status E
     }
     else go_on ()
   }"

definition scan_phase :: "env \<Rightarrow> string \<Rightarrow> OpenShiftClusterVersionState \<Rightarrow> unit phase" where
  "scan_phase E operatorNamespace clusterVersionState = do {
     let labels = [(''pull-job/release'', cvs_DesiredVersion clusterVersionState)];
     r \<leftarrow> perform (ListJobs operatorNamespace labels) (\<lambda>tr. on_ListJobs E tr operatorNamespace labels);
     case r of
       Inl err \<Rightarrow> leave (requeue_30s (Some err))
     | Inr jobs \<Rightarrow>
         if length jobs = 0 then reset_warming E
         else for_range (scan_job E) jobs ()
   }"

definition completion_phase :: "env \<Rightarrow> unit phase" where
  "completion_phase E = do {
     upgradeAccelerator \<leftarrow> get_obj;
     let st = Status upgradeAccelerator;
     if length (NodesWaiting st) = 0 \<and> length (NodesWarming st) = 0 \<and>
        length (NodesPreheated st) = length (NodesSelected st)
     then do {
       e \<leftarrow> setConditionNotRunning E CONDITION_REASON_RUNNING_RECONCILIATION_COMPLETED
             CONDITION_MESSAGE_COMPLETED;
       case e of
         Some err \<Rightarrow> leave (requeue_30s (Some err))
       | None \<Rightarrow> do {
           modify_status (\<lambda>st. st\<lparr>LastCompletedVersion := TargetVersion st\<rparr>);
           update_status E
         }
     }
     else go_on ()
   }"

section \<open>One job\<close>

definition mark_done :: "string \<Rightarrow> UpgradeAcceleratorStatus \<Rightarrow> UpgradeAcceleratorStatus" where
  "mark_done n st =
     st\<lparr>NodesPreheated := (if n \<in> set (NodesPreheated st) then NodesPreheated st
                         else NodesPreheated st @ [n]),
        NodesWarming := remove1 n (NodesWarming st)\<rparr>"

lemma mark_done_simps [simp]:
  "NodesWaiting (mark_done n st) = NodesWaiting st"
  "NodesSelected (mark_done n st) = NodesSelected st"
  "TargetVersion (mark_done n st) = TargetVersion st"
  "NodesWarming (mark_done n st) = remove1 n (NodesWarming st)"
  "set (NodesPreheated (mark_done n st)) = insert n (set (NodesPreheated st))"
  "distinct (NodesPreheated (mark_done n st)) = distinct (NodesPreheated st)"
  by (auto simp: mark_done_def)

definition failed_update :: "outcome \<Rightarrow> bool" where
  "failed_update out \<longleftrightarrow> (\<exists>err. out = requeue_30s (Some err))"

lemma run_scan_job:
  assumes "run_state (scan_job E job ()) s = (r, s')"
  shows "if job_succeeded job
         then Status (obj s') = mark_done (NodeName (job_PodSpec job)) (Status (obj s)) \<and>
              Spec (obj s') = Spec (obj s) \<and>
              (r = Next () \<or> (\<exists>out. r = Stop out \<and> failed_update out))
         else r = Next () \<and> s' = s"
  using assms
  by (auto simp: scan_job_def Let_def mark_done_def slice_delete_Index run_update_status run_and_then
      failed_update_def remove1_idem split: if_splits sum.splits)

text \<open>The same as one update of the status, which is skipped when nothing changes.\<close>

lemma run_scan_job_update:
  "run_state (scan_job E job u) s =
     (let n = NodeName (job_PodSpec job); st = Status (obj s)
      in if \<not> job_succeeded job \<or> n \<in> set (NodesPreheated st) \<and> n \<notin> set (NodesWarming st) then (Next (), s)
         else run_state (update_status E) (s\<lparr>obj := (obj s)\<lparr>Status := mark_done n st\<rparr>\<rparr>))"
  by (auto simp: scan_job_def Let_def mark_done_def slice_delete_Index run_update_status run_and_then
      remove1_idem go_on_def split: sum.splits)

section \<open>The scan\<close>

definition done_nodes :: "Job list \<Rightarrow> string list" where
  "done_nodes jobs = map (\<lambda>job. NodeName (job_PodSpec job)) (filter job_succeeded jobs)"

lemma scan_loop:
  "run_state (for_range (scan_job E) jobs ()) s = (r, s') \<Longrightarrow>
     (r = Next () \<longrightarrow> Status (obj s') = fold mark_done (done_nodes jobs) (Status (obj s))) \<and>
     (\<forall>out. r = Stop out \<longrightarrow> failed_update out)"
proof (induction jobs arbitrary: s)
  case Nil
  then show ?case by (auto simp: done_nodes_def)
next
  case (Cons job jobs)
  obtain x t where head: "run_state (scan_job E job ()) s = (x, t)" by (metis surj_pair)
  note h = run_scan_job [OF head]
  show ?case
  proof (cases x)
    case (Next u)
    with Cons.prems head have "run_state (for_range (scan_job E) jobs ()) t = (r, s')"
      by (simp add: run_and_then)
    from Cons.IH [OF this] h show ?thesis
      by (auto simp: done_nodes_def split: if_splits)
  next
    case (Stop out)
    with Cons.prems head h show ?thesis by (auto simp: run_and_then split: if_splits)
  qed
qed

lemma fold_mark_done:
  "set (NodesPreheated (fold mark_done ns st)) = set ns \<union> set (NodesPreheated st) \<and>
   distinct (NodesPreheated (fold mark_done ns st)) = distinct (NodesPreheated st) \<and>
   NodesWarming (fold mark_done ns st) = fold remove1 ns (NodesWarming st) \<and>
   NodesWaiting (fold mark_done ns st) = NodesWaiting st \<and>
   NodesSelected (fold mark_done ns st) = NodesSelected st \<and>
   TargetVersion (fold mark_done ns st) = TargetVersion st"
  by (induction ns arbitrary: st) auto

lemma fold_mark_done_length:
  "length (NodesPreheated (fold mark_done ns st)) =
     length (NodesPreheated st) + card (set ns - set (NodesPreheated st))"
proof (induction ns arbitrary: st)
  case (Cons n ns)
  let ?p = "set (NodesPreheated st)"
  have "card (insert n (set ns) - ?p) = (if n \<in> ?p then 0 else 1) + card (set ns - insert n ?p)"
  proof (cases "n \<in> ?p")
    case True
    then show ?thesis by (simp add: insert_absorb)
  next
    case False
    then have "insert n (set ns) - ?p = insert n (set ns - insert n ?p)" by auto
    with False show ?thesis by simp
  qed
  with Cons.IH [of "mark_done n st"] show ?case by (simp add: mark_done_def insert_absorb split: if_splits)
qed simp

lemma mset_fold_remove1: "mset (fold remove1 ns w) = mset w - mset ns"
  by (induction ns arbitrary: w) (auto simp: diff_diff_add_mset)

lemma distinct_mset_subset:
  "distinct w \<Longrightarrow> set w \<subseteq> set ns \<Longrightarrow> mset w \<subseteq># mset ns"
  by (intro mset_subset_eqI) (auto simp: distinct_count_atmost_1 subset_iff Suc_le_eq count_greater_zero_iff)

lemma fold_remove1_set: "distinct w \<Longrightarrow> set (fold remove1 ns w) = set w - set ns"
  by (induction ns arbitrary: w) auto

lemma scan_phase_jobs:
  assumes "run_state (scan_phase E ns cvs) s = (r, s')"
    and "on_ListJobs E (trace s) ns [(''pull-job/release'', cvs_DesiredVersion cvs)] = Inr jobs"
    and "jobs \<noteq> []"
  shows "(r = Next () \<longrightarrow> Status (obj s') = fold mark_done (done_nodes jobs) (Status (obj s))) \<and>
         (\<forall>out. r = Stop out \<longrightarrow> failed_update out)"
proof -
  let ?call = "ListJobs ns [(''pull-job/release'', cvs_DesiredVersion cvs)]"
  from assms have "run_state (for_range (scan_job E) jobs ()) (s\<lparr>trace := trace s @ [?call]\<rparr>) = (r, s')"
    by (simp add: scan_phase_def Let_def)
  from scan_loop [OF this] show ?thesis by simp
qed

text \<open>C2: The job completion scan, over a non-empty answer, moves the nodes of the
succeeded jobs: each joins NodesPreheated unless it is there already, each succeeded job takes
one occurrence of its node off NodesWarming (so all of them, when that list has no duplicates),
NodesWaiting is untouched and NodesPreheated gets no duplicate it did not have; otherwise the
run stops with the error of a failed status update, requeued after 30 seconds.\<close>

theorem scan_moves_nodes:
  assumes "run_state (scan_phase E ns cvs) s = (r, s')"
    and "on_ListJobs E (trace s) ns [(''pull-job/release'', cvs_DesiredVersion cvs)] = Inr jobs"
    and "jobs \<noteq> []"
  shows "(r = Next () \<longrightarrow>
            set (NodesPreheated (Status (obj s'))) =
              set (NodesPreheated (Status (obj s))) \<union> set (done_nodes jobs) \<and>
            mset (NodesWarming (Status (obj s'))) =
              mset (NodesWarming (Status (obj s))) - mset (done_nodes jobs) \<and>
            (distinct (NodesWarming (Status (obj s))) \<longrightarrow>
               set (NodesWarming (Status (obj s'))) =
                 set (NodesWarming (Status (obj s))) - set (done_nodes jobs)) \<and>
            NodesWaiting (Status (obj s')) = NodesWaiting (Status (obj s)) \<and>
            distinct (NodesPreheated (Status (obj s'))) = distinct (NodesPreheated (Status (obj s)))) \<and>
         (\<forall>out. r = Stop out \<longrightarrow> (\<exists>err. out = requeue_30s (Some err)))"
  using scan_phase_jobs [OF assms] fold_mark_done [of "done_nodes jobs" "Status (obj s)"]
    mset_fold_remove1 [of "done_nodes jobs"] fold_remove1_set [of _ "done_nodes jobs"]
  by (auto simp: failed_update_def)

text \<open>When the API server lists no jobs of the release, the scan puts the warming
nodes back at the end of the waiting list and keeps the preheated ones.\<close>

theorem scan_without_jobs:
  assumes "run_state (scan_phase E ns cvs) s = (Next (), s')"
    and "on_ListJobs E (trace s) ns [(''pull-job/release'', cvs_DesiredVersion cvs)] = Inr []"
  shows "NodesWaiting (Status (obj s')) = NodesWaiting (Status (obj s)) @ NodesWarming (Status (obj s)) \<and>
         NodesWarming (Status (obj s')) = [] \<and>
         NodesPreheated (Status (obj s')) = NodesPreheated (Status (obj s))"
  using assms
  by (auto simp: scan_phase_def Let_def reset_warming_def run_update_status split: sum.splits if_splits)

section \<open>Completion\<close>

definition all_done :: "UpgradeAcceleratorStatus \<Rightarrow> bool" where
  "all_done st \<longleftrightarrow> NodesWaiting st = [] \<and> NodesWarming st = [] \<and>
     length (NodesPreheated st) = length (NodesSelected st)"

lemma completion_phase_run:
  assumes "run_state (completion_phase E) s = (Next (), s')"
  shows "LastCompletedVersion (Status (obj s')) =
           (if all_done (Status (obj s)) then TargetVersion (Status (obj s))
            else LastCompletedVersion (Status (obj s))) \<and>
         (all_done (Status (obj s)) \<longrightarrow>
            getConditionReason (obj s') CONDITION_TYPE_RUNNING =
              CONDITION_REASON_RUNNING_RECONCILIATION_COMPLETED)"
proof (cases "all_done (Status (obj s))")
  case True
  obtain e t where set_cond: "run_state (setConditionNotRunning E
      CONDITION_REASON_RUNNING_RECONCILIATION_COMPLETED CONDITION_MESSAGE_COMPLETED) s = (e, t)"
    by (metis surj_pair)
  note c = set_cond [unfolded setConditionNotRunning_def]
  from True assms set_cond have "e = None" and
    upd: "run_state (update_status E) (t\<lparr>obj := obj t\<lparr>Status := Status (obj t)
            \<lparr>LastCompletedVersion := TargetVersion (Status (obj t))\<rparr>\<rparr>\<rparr>) = (Next (), s')"
    by (auto simp: completion_phase_def Let_def all_done_def split: option.splits)
  from upd have "Status (obj s') = Status (obj t)\<lparr>LastCompletedVersion := TargetVersion (Status (obj t))\<rparr>"
    by (auto simp: run_update_status split: sum.splits)
  with True only_conditionsD [OF only_conditions_appendCondition [OF c]] reason_after(1) [OF c]
  show ?thesis by (simp add: getConditionReason_def fun_eq_iff)
next
  case False
  with assms have "s' = s" by (auto simp: completion_phase_def Let_def all_done_def)
  with False show ?thesis by simp
qed

lemma scan_completion:
  assumes "run_state (and_then (scan_phase E ns cvs) (\<lambda>_. completion_phase E)) s = (Next (), s')"
    and "on_ListJobs E (trace s) ns [(''pull-job/release'', cvs_DesiredVersion cvs)] = Inr jobs"
    and "jobs \<noteq> []"
  shows "if NodesWaiting (Status (obj s)) = [] \<and>
            mset (NodesWarming (Status (obj s))) \<subseteq># mset (done_nodes jobs) \<and>
            length (NodesPreheated (Status (obj s))) +
              card (set (done_nodes jobs) - set (NodesPreheated (Status (obj s)))) =
              length (NodesSelected (Status (obj s)))
         then LastCompletedVersion (Status (obj s')) = TargetVersion (Status (obj s)) \<and>
              getConditionReason (obj s') CONDITION_TYPE_RUNNING =
                CONDITION_REASON_RUNNING_RECONCILIATION_COMPLETED
         else LastCompletedVersion (Status (obj s')) = LastCompletedVersion (Status (obj s))"
    (is "if ?all then _ else _")
proof -
  from assms(1) obtain t where scan: "run_state (scan_phase E ns cvs) s = (Next (), t)" and
    fin: "run_state (completion_phase E) t = (Next (), s')"
    by (auto simp: run_and_then split: prod.splits ctl.splits)
  from scan_phase_jobs [OF scan assms(2,3)]
  have t: "Status (obj t) = fold mark_done (done_nodes jobs) (Status (obj s))" by simp
  note f = fold_mark_done [of "done_nodes jobs" "Status (obj s)"]
  have "fold remove1 (done_nodes jobs) w = [] \<longleftrightarrow> mset w \<subseteq># mset (done_nodes jobs)" for w
    by (metis mset_fold_remove1 mset_zero_iff Diff_eq_empty_iff_mset)
  with f have "all_done (Status (obj t)) \<longleftrightarrow> ?all"
    by (simp add: all_done_def t fold_mark_done_length)
  moreover have "LastCompletedVersion (fold mark_done ns st) = LastCompletedVersion st" for ns st
    by (induction ns arbitrary: st) (simp_all add: mark_done_def)
  ultimately show ?thesis using completion_phase_run [OF fin] t f by simp
qed

text \<open>C5: A non-empty scan followed by the completion check, when both end without an
error, records the target version as LastCompletedVersion and sets the reason of the Running
condition to ReconciliationCompleted exactly when no node is waiting, every occurrence of a
warming node is matched by a succeeded job of it, and the preheated nodes together with the
other nodes of succeeded jobs, selected or not, are as many as NodesSelected is long; otherwise
LastCompletedVersion stays as it was.\<close>

theorem scan_completes_iff:
  assumes "run_state (and_then (scan_phase E ns cvs) (\<lambda>_. completion_phase E)) s = (Next (), s')"
    and "on_ListJobs E (trace s) ns [(''pull-job/release'', cvs_DesiredVersion cvs)] = Inr jobs"
    and "jobs \<noteq> []"
  shows "if NodesWaiting (Status (obj s)) = [] \<and>
            mset (NodesWarming (Status (obj s))) \<subseteq># mset (done_nodes jobs) \<and>
            length (NodesPreheated (Status (obj s))) +
              card (set (done_nodes jobs) - set (NodesPreheated (Status (obj s)))) =
              length (NodesSelected (Status (obj s)))
         then LastCompletedVersion (Status (obj s')) = TargetVersion (Status (obj s)) \<and>
              getConditionReason (obj s') CONDITION_TYPE_RUNNING =
                CONDITION_REASON_RUNNING_RECONCILIATION_COMPLETED
         else LastCompletedVersion (Status (obj s')) = LastCompletedVersion (Status (obj s))"
  by (rule scan_completion [OF assms])

text \<open>In particular, once the succeeded jobs cover the warming nodes.\<close>

lemma last_jobs_complete_release:
  assumes "run_state (and_then (scan_phase E ns cvs) (\<lambda>_. completion_phase E)) s = (Next (), s')"
    and "on_ListJobs E (trace s) ns [(''pull-job/release'', cvs_DesiredVersion cvs)] = Inr jobs"
    and "jobs \<noteq> []"
    and "NodesWaiting (Status (obj s)) = []"
    and "distinct (NodesWarming (Status (obj s)))" and "distinct (NodesPreheated (Status (obj s)))"
    and "distinct (NodesSelected (Status (obj s)))"
    and "set (NodesSelected (Status (obj s))) =
           set (NodesPreheated (Status (obj s))) \<union> set (NodesWarming (Status (obj s)))"
    and "set (NodesWarming (Status (obj s))) \<subseteq> set (done_nodes jobs)"
    and "set (done_nodes jobs) \<subseteq> set (NodesSelected (Status (obj s)))"
  shows "LastCompletedVersion (Status (obj s')) = TargetVersion (Status (obj s)) \<and>
         getConditionReason (obj s') CONDITION_TYPE_RUNNING =
           CONDITION_REASON_RUNNING_RECONCILIATION_COMPLETED"
proof -
  let ?p = "NodesPreheated (Status (obj s))" and ?sel = "NodesSelected (Status (obj s))"
  have "mset (NodesWarming (Status (obj s))) \<subseteq># mset (done_nodes jobs)"
    using assms(5,9) by (simp add: distinct_mset_subset)
  moreover have "length ?p + card (set (done_nodes jobs) - set ?p) = length ?sel"
  proof -
    have "set ?p \<union> (set (done_nodes jobs) - set ?p) = set ?sel" using assms(8-10) by auto
    then have "card (set ?p) + card (set (done_nodes jobs) - set ?p) = card (set ?sel)"
      by (metis List.finite_set finite_Diff card_Un_disjoint Diff_disjoint)
    then show ?thesis using assms(6,7) by (simp add: distinct_card)
  qed
  ultimately show ?thesis using scan_completion [OF assms(1-3)] assms(4) by simp
qed

section \<open>How the sections stop, and what they keep\<close>

lemma stops_completion:
  "stops_with requeues (scan_phase E ns cvs)" "stops_with requeues (completion_phase E)"
  unfolding scan_phase_def reset_warming_def scan_job_def completion_phase_def slice_bounds_def
  by (intro stops_rules stops_update_status; simp)+

context job_invariant
begin

text \<open>The invariant together with what the scan knows of the jobs it ranges over.\<close>

abbreviation I_listed :: "Job list \<Rightarrow> go_state \<Rightarrow> bool" where
  "I_listed jobs s \<equiv> I s \<and> (\<forall>job \<in> set jobs. job_listed E (trace s) job)"

lemma I_mark_done:
  assumes "I s" and "job_listed E (trace s) job" and "job_succeeded job"
  shows "I (s\<lparr>obj := (obj s)\<lparr>Status := mark_done (NodeName (job_PodSpec job)) (Status (obj s))\<rparr>\<rparr>)"
proof -
  let ?n = "NodeName (job_PodSpec job)"
  have cool: "keeps I (modify_status (\<lambda>st. st\<lparr>NodesWarming := remove1 ?n (NodesWarming st)\<rparr>))"
    by (rule I_modify_status) (use set_remove1_subset in \<open>fastforce simp: shrinks_def\<close>)
  from assms I_preheat [OF assms] have "I (s\<lparr>obj := (if ?n \<in> set (NodesPreheated (Status (obj s))) then obj s
      else preheat ?n (obj s))\<rparr>)" by simp
  from keepsD [OF cool this] show ?thesis
    by (cases "?n \<in> set (NodesPreheated (Status (obj s)))") (simp_all add: mark_done_def preheat_def)
qed

lemma I_listed_scan_job:
  assumes "job \<in> set jobs"
  shows "keeps (I_listed jobs) (scan_job E job u)"
proof (rule keepsI)
  fix s a s'
  assume I: "I_listed jobs s" and run: "run_state (scan_job E job u) s = (a, s')"
  let ?t = "s\<lparr>obj := (obj s)\<lparr>Status := mark_done (NodeName (job_PodSpec job)) (Status (obj s))\<rparr>\<rparr>"
  show "I_listed jobs s'"
  proof (cases "s' = s")
    case False
    with run have "job_succeeded job" "run_state (update_status E) ?t = (a, s')"
      by (auto simp: run_scan_job_update Let_def split: if_splits)
    with I assms I_mark_done [of s job] keeps_run [OF I_update_status, of ?t a s']
    have "I s'" by simp
    moreover have "\<exists>ext. trace s' = trace s @ ext"
      using \<open>run_state (update_status E) ?t = (a, s')\<close> by (auto simp: run_update_status split: sum.splits)
    ultimately show ?thesis using I job_listed_append by fastforce
  qed (use I in simp)
qed

lemma I_completion:
  "keeps I (scan_phase E ns cvs)" "keeps I (completion_phase E)"
proof -
  let ?labels = "[(''pull-job/release'', cvs_DesiredVersion cvs)]"
  have reset: "keeps I (reset_warming E)"
    unfolding reset_warming_def
    by (intro phase_rules I_modify_status I_update_status) (simp add: shrinks_def)
  have loop: "keeps (I_listed jobs) (for_range (scan_job E) jobs ())" for jobs
    by (intro keeps_for_range I_listed_scan_job)
  show "keeps I (scan_phase E ns cvs)"
  proof (rule keepsI)
    fix s a s'
    assume I: "I s" and run: "run_state (scan_phase E ns cvs) s = (a, s')"
    let ?t = "s\<lparr>trace := trace s @ [ListJobs ns ?labels]\<rparr>"
    have t: "I ?t" by (rule I_call [OF _ I]) simp
    show "I s'"
    proof (cases "on_ListJobs E (trace s) ns ?labels")
      case (Inl err)
      with run t show ?thesis by (auto simp: scan_phase_def leave_def Let_def)
    next
      case (Inr jobs)
      then have "I_listed jobs ?t" using t by (auto intro: job_listed_now)
      with keeps_run [OF loop] have "I s'" if "run_state (for_range (scan_job E) jobs ()) ?t = (a, s')"
        using that by blast
      with run Inr t keeps_run [OF reset] show ?thesis
        by (auto simp: scan_phase_def Let_def split: if_splits)
    qed
  qed
  show "keeps I (completion_phase E)"
    unfolding completion_phase_def set_condition_defs
    by (intro phase_rules I_modify_status I_update_status) (simp add: shrinks_def)
qed

end

section \<open>Concrete runs\<close>

definition finished_job :: "string \<Rightarrow> Job" where
  "finished_job n = (jobConstructor idle_env zero_UpgradeAccelerator
     \<lparr>pj_Name = n @ ''-ua-puller'', pj_Namespace = ''ns'', pj_TargetNodeName = n,
      pj_ReleaseConfigMapName = []\<rparr>)\<lparr>job_Succeeded := 1\<rparr>"

definition finished_env :: "string list \<Rightarrow> env" where
  "finished_env nodes = idle_env\<lparr>on_ListJobs := (\<lambda>tr ns labels. Inr (map finished_job nodes))\<rparr>"

definition warming_object :: "string list \<Rightarrow> string list \<Rightarrow> UpgradeAccelerator" where
  "warming_object preheated warming = zero_UpgradeAccelerator\<lparr>Status := zero_Status
     \<lparr>NodesSelected := preheated @ warming, NodesPreheated := preheated, NodesWarming := warming,
      TargetVersion := ''4.18.2'', Conditions := []\<rparr>\<rparr>"

lemma finished_job_simps [simp]:
  "job_succeeded (finished_job n)" "NodeName (job_PodSpec (finished_job n)) = n"
  by (simp_all add: job_succeeded_def finished_job_def jobConstructor_def)

lemma finished_env_simps [simp]:
  "on_ListJobs (finished_env nodes) tr ns labels = Inr (map finished_job nodes)"
  "on_UpdateStatus (finished_env nodes) tr u = Inr (ResourceVersion (Metadata u))"
  by (simp_all add: finished_env_def)

lemma done_finished [simp]: "done_nodes (map finished_job nodes) = nodes"
  by (simp add: done_nodes_def comp_def)

lemma warming_object_simps [simp]:
  "NodesWarming (Status (warming_object p w)) = w" "NodesPreheated (Status (warming_object p w)) = p"
  "NodesSelected (Status (warming_object p w)) = p @ w" "NodesWaiting (Status (warming_object p w)) = []"
  "TargetVersion (Status (warming_object p w)) = ''4.18.2''"
  by (simp_all add: warming_object_def zero_Status_def)

theorem scan_moves_nodes_witness:
  "\<exists>s'. run_state (scan_phase (finished_env [''b'']) ''ns'' some_release)
            (start (warming_object [''a''] [''b'', ''c''])) = (Next (), s') \<and>
        set (NodesPreheated (Status (obj s'))) = {''a'', ''b''} \<and>
        set (NodesWarming (Status (obj s'))) = {''c''}"
proof -
  obtain s' where run: "run_state (scan_phase (finished_env [''b'']) ''ns'' some_release)
      (start (warming_object [''a''] [''b'', ''c''])) = (Next (), s')"
    by (simp add: scan_phase_def Let_def scan_job_def run_and_then run_update_status slice_delete_def)
  have "on_ListJobs (finished_env [''b'']) (trace (start (warming_object [''a''] [''b'', ''c''])))
          ''ns'' [(''pull-job/release'', cvs_DesiredVersion some_release)] = Inr (map finished_job [''b''])"
    "map finished_job [''b''] \<noteq> []" by simp_all
  from scan_moves_nodes [OF run this, unfolded done_finished]
  have "set (NodesPreheated (Status (obj s'))) = {''a'', ''b''}"
    "set (NodesWarming (Status (obj s'))) = {''c''}" by (auto simp: start_simps)
  with run show ?thesis by blast
qed

theorem scan_without_jobs_witness:
  "\<exists>s'. run_state (scan_phase idle_env ''ns'' some_release) (start (warming_object [] [''a''])) =
          (Next (), s') \<and> NodesWaiting (Status (obj s')) = [''a''] \<and> NodesWarming (Status (obj s')) = []"
proof -
  have jobs: "on_ListJobs idle_env tr ns labels = Inr []" for tr ns labels by (simp add: idle_env_def)
  obtain s' where run:
    "run_state (scan_phase idle_env ''ns'' some_release) (start (warming_object [] [''a''])) = (Next (), s')"
    by (simp add: scan_phase_def Let_def reset_warming_def run_update_status jobs)
  with scan_without_jobs [OF run jobs] show ?thesis by auto
qed

theorem scan_completes_iff_witness:
  "\<exists>s'. run_state (and_then (scan_phase (finished_env [''b'', ''c'']) ''ns'' some_release)
            (\<lambda>_. completion_phase (finished_env [''b'', ''c''])))
            (start (warming_object [''a''] [''b'', ''c''])) = (Next (), s') \<and>
        LastCompletedVersion (Status (obj s')) = ''4.18.2''"
proof -
  obtain s' where run: "run_state (and_then (scan_phase (finished_env [''b'', ''c'']) ''ns'' some_release)
            (\<lambda>_. completion_phase (finished_env [''b'', ''c''])))
            (start (warming_object [''a''] [''b'', ''c''])) = (Next (), s')"
    by (simp add: scan_phase_def Let_def scan_job_def run_and_then run_update_status slice_delete_def
        completion_phase_def setConditionNotRunning_def appendCondition_def run_Status_Update
        set_ResourceVersion_def)
  from scan_completes_iff [OF run, of "map finished_job [''b'', ''c'']", unfolded done_finished]
  have "LastCompletedVersion (Status (obj s')) = ''4.18.2''" by auto
  with run show ?thesis by blast
qed

end
