(* ===== verification/Reconcile.thy ===== *)
theory Reconcile
  imports Completion
begin

text \<open>
  The whole of \<open>Reconcile\<close>: its sections chained by \<open>and_then\<close>, and what holds of every run.
\<close>

section \<open>The function\<close>

text \<open>
  Everything after the setup. \<open>upgradeAcceleratorStatusChanged\<close> is false at the test in the
  source, so its first branch (an update and a refetch) never runs.
\<close>

definition work_phases ::
  "env \<Rightarrow> NamespacedName \<Rightarrow> OpenShiftClusterVersionState \<Rightarrow> string list \<Rightarrow> string list \<Rightarrow> string \<Rightarrow>
   unit phase" where
  "work_phases E req clusterVersionState targetedNodes primerNodes operatorNamespace =
     (let upgradeAcceleratorStatusChanged = False
      in if upgradeAcceleratorStatusChanged then and_then (update_status E) (\<lambda>_. refetch E req)
         else
           and_then (waiting_phase E targetedNodes) (\<lambda>_.
           and_then (primer_phase E operatorNamespace primerNodes) (\<lambda>_.
           and_then (remaining_phase E operatorNamespace) (\<lambda>_.
           and_then (scan_phase E operatorNamespace clusterVersionState) (\<lambda>_.
           completion_phase E)))))"

definition fetched_phases :: "env \<Rightarrow> NamespacedName \<Rightarrow> unit phase" where
  "fetched_phases E req =
     and_then (check_disabled E) (\<lambda>_.
     and_then (find_infrastructure E req) (\<lambda>_.
     and_then (find_cluster_version E req) (\<lambda>clusterVersionState.
     and_then (find_targets E) (\<lambda>(targetedNodes, primerNodes).
     and_then (check_targets E req targetedNodes primerNodes) (\<lambda>_.
     and_then (setup_phase E clusterVersionState) (\<lambda>operatorNamespace.
     work_phases E req clusterVersionState targetedNodes primerNodes operatorNamespace))))))"

definition reconcile_body :: "env \<Rightarrow> NamespacedName \<Rightarrow> unit phase" where
  "reconcile_body E req = and_then (fetch E req) (\<lambda>_. fetched_phases E req)"

definition Reconcile :: "env \<Rightarrow> NamespacedName \<Rightarrow> outcome go" where
  "Reconcile E req = do {
     modify_obj (\<lambda>_. zero_UpgradeAccelerator);
     r \<leftarrow> reconcile_body E req;
     State_Monad.return (case r of Stop out \<Rightarrow> out | Next _ \<Rightarrow> requeue_1m)
   }"

section \<open>Every run\<close>

lemma stops_reconcile_body: "stops_with requeues (reconcile_body E req)"
  unfolding reconcile_body_def fetched_phases_def work_phases_def Let_def
  by (intro stops_rules stops_phases stops_scheduling stops_completion stops_update_status stops_refetch; simp)

text \<open>C29: Every run of Reconcile, whatever the API server, the shell and the clock
answer, ends with a requeue after 30 seconds or a minute, or in a Go panic.\<close>

theorem Reconcile_requeues: "requeues (fst (run_state (Reconcile E req) s))"
proof -
  obtain r t where body:
    "run_state (reconcile_body E req) (s\<lparr>obj := zero_UpgradeAccelerator\<rparr>) = (r, t)" by (metis surj_pair)
  then have "fst (run_state (Reconcile E req) s) = (case r of Stop out \<Rightarrow> out | Next _ \<Rightarrow> requeue_1m)"
    by (simp add: Reconcile_def)
  with stops_withD [OF stops_reconcile_body] body show ?thesis by (cases r) auto
qed

lemma Reconcile_fetch_error:
  assumes "on_GetUpgradeAccelerator E (trace s) req = Inl err"
  shows "run_state (Reconcile E req) s =
           (Returned \<lparr>RequeueAfter = 30 * time_Second\<rparr> (if IsNotFound err then None else Some err),
            s\<lparr>trace := trace s @ [GetUpgradeAccelerator req], obj := zero_UpgradeAccelerator\<rparr>)"
  using assms
  by (simp add: Reconcile_def reconcile_body_def run_and_then fetch_def run_Get_UpgradeAccelerator
      requeue_30s_def IgnoreNotFound_def)

lemma Reconcile_disabled_run:
  assumes "on_GetUpgradeAccelerator E (trace s) req = Inr u"
    and "strings_ToLower (spec_State (Spec u)) = ''disabled''"
  shows "\<exists>s' us. run_state (Reconcile E req) s = (requeue_30s None, s') \<and>
           no_nodes (Status (obj s')) \<and>
           getConditionReason (obj s') CONDITION_TYPE_RUNNING = CONDITION_REASON_RUNNING_DISABLED \<and>
           trace s' = trace s @ GetUpgradeAccelerator req # map UpdateStatus us \<and> us \<noteq> []"
proof -
  let ?t = "s\<lparr>trace := trace s @ [GetUpgradeAccelerator req], obj := u\<rparr>"
  from check_disabled_run [of ?t E] assms(2) obtain s' us where
    dis: "run_state (check_disabled E) ?t = (Stop (requeue_30s None), s')" and
    res: "no_nodes (Status (obj s'))"
      "getConditionReason (obj s') CONDITION_TYPE_RUNNING = CONDITION_REASON_RUNNING_DISABLED"
      "trace s' = trace ?t @ map UpdateStatus us" "us \<noteq> []" by auto
  have "run_state (Reconcile E req) s = (requeue_30s None, s')"
    using assms(1) dis
    by (simp add: Reconcile_def reconcile_body_def fetched_phases_def run_and_then fetch_def
        run_Get_UpgradeAccelerator)
  with res show ?thesis by auto
qed

text \<open>C16: A disabled custom resource (its state is disabled in any letter case) makes
Reconcile empty all five node lists, set the Running condition to the reason Disabled, send
nothing but status updates, and requeue after 30 seconds without an error, even when updates
fail.\<close>

theorem Reconcile_disabled:
  assumes "on_GetUpgradeAccelerator E (trace s) req = Inr u"
    and "strings_ToLower (spec_State (Spec u)) = ''disabled''"
  shows "\<exists>s' us. run_state (Reconcile E req) s = (requeue_30s None, s') \<and>
           no_nodes (Status (obj s')) \<and>
           getConditionReason (obj s') CONDITION_TYPE_RUNNING = CONDITION_REASON_RUNNING_DISABLED \<and>
           trace s' = trace s @ GetUpgradeAccelerator req # map UpdateStatus us \<and> us \<noteq> []"
  using assms by (rule Reconcile_disabled_run)

section \<open>Invariants of a run\<close>

context job_invariant
begin

lemma I_work_phases:
  assumes "ok_ns ns"
  shows "keeps I (work_phases E req cvs targeted primers ns)"
  unfolding work_phases_def Let_def if_False simp_thms
  by (intro phase_rules I_scheduling [OF assms] I_completion)

lemma I_fetched_phases:
  assumes fetched: "keeps I (Get_UpgradeAccelerator E req)"
  shows "keeps I (fetched_phases E req)"
proof -
  have work: "keeps I (and_then (setup_phase E cvs) (work_phases E req cvs targeted primers))"
    for cvs targeted primers
  proof (rule keeps_and_then_run)
    fix ns s s'
    assume "I s" and "run_state (setup_phase E cvs) s = (Next ns, s')"
    then have "ok_ns ns"
      using I_namespace [of s] setup_phase_namespace [of E cvs s ns s'] by simp
    then show "keeps I (work_phases E req cvs targeted primers ns)" by (rule I_work_phases)
  qed (rule I_phases(7) [OF fetched])
  show ?thesis
    unfolding fetched_phases_def
    by (intro keeps_and_then [OF I_phases(2) [OF fetched]] keeps_and_then [OF I_phases(3) [OF fetched]]
        keeps_and_then [OF I_phases(4) [OF fetched]] keeps_and_then [OF I_phases(5) [OF fetched]]
        keeps_and_then [OF I_phases(6) [OF fetched]] keeps_case_prod work)
qed

text \<open>The invariant has to hold of the object in hand from the first fetch on.\<close>

lemma I_Reconcile:
  assumes fetched: "keeps I (Get_UpgradeAccelerator E req)"
    and first: "on_GetUpgradeAccelerator E (trace s) req = Inr u"
      "I (s\<lparr>trace := trace s @ [GetUpgradeAccelerator req], obj := u\<rparr>)"
  shows "I (snd (run_state (Reconcile E req) s))"
  using keepsD [OF I_fetched_phases [OF fetched] first(2)] first(1)
  by (auto simp: Reconcile_def reconcile_body_def run_and_then fetch_def run_Get_UpgradeAccelerator
      split: prod.splits)

end

text \<open>For an invariant of the calls and the object separately.\<close>

lemma Reconcile_calls:
  assumes inv: "job_invariant E (calls_ok P J) ok_ns"
    and fetched: "\<And>tr u. on_GetUpgradeAccelerator E tr req = Inr u \<Longrightarrow> J u"
    and before: "\<forall>c \<in> set (trace s). P c" and get: "P (GetUpgradeAccelerator req)"
  shows "\<forall>c \<in> set (trace (snd (run_state (Reconcile E req) s))). P c"
proof (cases "on_GetUpgradeAccelerator E (trace s) req")
  case (Inl err)
  then show ?thesis using before get by (simp add: Reconcile_fetch_error)
next
  case (Inr u)
  have "calls_ok P J (s\<lparr>trace := trace s @ [GetUpgradeAccelerator req], obj := u\<rparr>)"
    using fetched [OF Inr] before get by (simp add: calls_ok_def)
  moreover have "keeps (calls_ok P J) (Get_UpgradeAccelerator E req)"
    by (rule keeps_Get_UpgradeAccelerator [where P = P, OF get]) (rule fetched)
  ultimately have "calls_ok P J (snd (run_state (Reconcile E req) s))"
    using job_invariant.I_Reconcile [OF inv] Inr by blast
  then show ?thesis by (simp add: calls_ok_def)
qed

text \<open>C13: In every status a run of Reconcile sends, the condition types are pairwise
distinct, provided they are in the objects the API server returns.\<close>

theorem Reconcile_unique_types:
  assumes "\<And>tr u. on_GetUpgradeAccelerator E tr req = Inr u \<Longrightarrow> distinct_types u"
    and "UpdateStatus u \<in> set (trace (snd (run_state (Reconcile E req) (start u0))))"
  shows "distinct (map cond_Type (Conditions (Status u)))"
proof -
  have "\<forall>c \<in> set (trace (snd (run_state (Reconcile E req) (start u0)))). sends_distinct_types c"
    by (rule Reconcile_calls [OF unique_types.job_invariant_axioms assms(1)]) (simp_all add: start_def)
  with assms(2) have "sends_distinct_types (UpdateStatus u)" by blast
  then show ?thesis by (simp add: distinct_types_def)
qed

text \<open>C8: Every namespaced object a run of Reconcile creates or updates (namespace, config
maps, jobs) lies in the target namespace of the custom resource: the scheduling namespace of its
spec, or openshift-upgrade-accelerator when that is empty, whatever the API server
answers.\<close>

theorem Reconcile_writes_in_namespace:
  assumes "\<And>tr u. on_GetUpgradeAccelerator E tr req = Inr u \<Longrightarrow> target_namespace u = ns"
    and "c \<in> set (trace (snd (run_state (Reconcile E req) (start u0))))"
  shows "writes_in ns c"
proof -
  have "\<forall>c \<in> set (trace (snd (run_state (Reconcile E req) (start u0)))). writes_in ns c"
    by (rule Reconcile_calls [OF one_namespace.job_invariant_axioms assms(1)]) (simp_all add: start_def)
  with assms(2) show ?thesis by blast
qed

section \<open>A release that looks completed\<close>

text \<open>
  What a run does to an object that looks completed: the preheated nodes are \<open>preheated\<close>, none
  waits, and the last completed version is \<open>version\<close>; the spec is the default one (no selectors,
  priming off, not disabled).
\<close>

definition settled :: "string list \<Rightarrow> string \<Rightarrow> UpgradeAccelerator \<Rightarrow> bool" where
  "settled preheated version u \<longleftrightarrow>
     NodesPreheated (Status u) = preheated \<and> NodesWaiting (Status u) = [] \<and>
     LastCompletedVersion (Status u) = version \<and>
     NodeSelector (Selector (Spec u)) = None \<and> MachineConfigPools (Selector (Spec u)) = [] \<and>
     \<not> Prime (Spec u) \<and> strings_ToLower (spec_State (Spec u)) \<noteq> ''disabled''"

fun only_settled :: "string list \<Rightarrow> string \<Rightarrow> api_call \<Rightarrow> bool" where
  "only_settled preheated version (UpdateStatus u) = settled preheated version u"
| "only_settled preheated version (CreateJob job) = False"
| "only_settled preheated version _ = True"

abbreviation settled_run :: "string list \<Rightarrow> string \<Rightarrow> go_state \<Rightarrow> bool" where
  "settled_run preheated version \<equiv> calls_ok (only_settled preheated version) (settled preheated version)"

interpretation settled: query_invariant E "settled_run preheated version" for E preheated version
proof unfold_locales
  show "settled_run preheated version (s\<lparr>trace := trace s @ [c]\<rparr>)"
    if "is_plain c" "settled_run preheated version s" for c s
    using that by (cases c) (auto intro: calls_ok_call)
qed (auto simp: settled_def same_lists_def intro!: keeps_Status_Update keeps_modify_status)

text \<open>The API server answers with settled objects for as long as it is sent nothing else.\<close>

lemma keeps_fetch_settled:
  assumes "\<And>tr u. on_GetUpgradeAccelerator E tr req = Inr u \<Longrightarrow>
      (\<And>w. UpdateStatus w \<in> set tr \<Longrightarrow> settled preheated version w) \<Longrightarrow> settled preheated version u"
  shows "keeps (settled_run preheated version) (Get_UpgradeAccelerator E req)"
proof (rule keepsI)
  fix s r s'
  assume I: "settled_run preheated version s" and "run_state (Get_UpgradeAccelerator E req) s = (r, s')"
  moreover from I have "settled preheated version w" if "UpdateStatus w \<in> set (trace s)" for w
    using that by (auto simp: calls_ok_def dest: bspec)
  ultimately show "settled_run preheated version s'"
    using assms [of "trace s"] by (auto simp: calls_ok_def run_Get_UpgradeAccelerator split: sum.splits)
qed

text \<open>How such a run ends, from any section on.\<close>

definition ends_settled :: "string list \<Rightarrow> string \<Rightarrow> unit phase \<Rightarrow> bool" where
  "ends_settled preheated version m \<longleftrightarrow>
     (\<forall>s. settled_run preheated version s \<longrightarrow>
        (\<exists>out s'. run_state m s = (Stop out, s') \<and> settled_run preheated version s' \<and>
           (out = requeue_1m \<longrightarrow>
              getConditionReason (obj s') CONDITION_TYPE_COMPLETED =
                CONDITION_REASON_RUNNING_RECONCILIATION_COMPLETED)))"

lemma ends_settledI:
  assumes "\<And>s. settled_run preheated version s \<Longrightarrow>
     \<exists>out s'. run_state m s = (Stop out, s') \<and> settled_run preheated version s' \<and>
        (out = requeue_1m \<longrightarrow>
           getConditionReason (obj s') CONDITION_TYPE_COMPLETED =
             CONDITION_REASON_RUNNING_RECONCILIATION_COMPLETED)"
  shows "ends_settled preheated version m"
  using assms by (simp add: ends_settled_def)

lemma ends_settled_and_then:
  assumes "keeps (settled_run preheated version) m" and "stops_with (\<lambda>out. out \<noteq> requeue_1m) m"
    and "\<And>a. ends_settled preheated version (f a)"
  shows "ends_settled preheated version (and_then m f)"
proof (rule ends_settledI)
  fix s assume I: "settled_run preheated version s"
  obtain r t where run: "run_state m s = (r, t)" by (metis surj_pair)
  from keeps_run [OF assms(1) run I] stops_withD [OF assms(2)] assms(3) run
  show "\<exists>out s'. run_state (and_then m f) s = (Stop out, s') \<and> settled_run preheated version s' \<and>
        (out = requeue_1m \<longrightarrow>
           getConditionReason (obj s') CONDITION_TYPE_COMPLETED =
             CONDITION_REASON_RUNNING_RECONCILIATION_COMPLETED)"
    by (cases r) (auto simp: run_and_then ends_settled_def)
qed

lemma requeue_30s_not_1m [simp]: "requeue_30s err \<noteq> requeue_1m" "requeue_1m \<noteq> requeue_30s err"
  "Panicked p \<noteq> requeue_1m"
  by (simp_all add: requeue_30s_def requeue_1m_def time_Minute_def time_Second_def)

text \<open>As many targets as there are preheated nodes.\<close>

lemma settled_targets:
  assumes "run_state (determineTargetedNodes E) s = (Inr (targeted, prohibited, primers, excluded), s')"
    and "settled preheated version (obj s)"
    and "\<And>tr nodes. on_ListNodes E tr [] = Inr nodes \<Longrightarrow>
           distinct (map node_Name nodes) \<and>
           length (filter (\<lambda>n. \<not> preheat_disabled n) nodes) = length preheated"
  shows "length targeted = length preheated"
proof -
  from determineTargetedNodes_success [OF assms(1)] assms(2) obtain nodes where
    nodes: "on_ListNodes E (trace s) [] = Inr nodes" and
    result: "(targeted, prohibited, primers, excluded) =
      finish_targets (obj s) (determineLabeledNodes nodes)
        (default_targets (Selector (Spec (obj s))) nodes (names_with preheat_disabled nodes))"
    by (auto simp: settled_def)
  from assms(3) [OF nodes] have
    "default_targets (Selector (Spec (obj s))) nodes (names_with preheat_disabled nodes) =
       names_with (\<lambda>n. \<not> preheat_disabled n) nodes"
    using assms(2) by (simp add: default_targets_def settled_def names_with_not_prohibited)
  moreover have "length (sort_if_many xs) = length xs" for xs
    by (metis size_mset sort_if_many_mset)
  ultimately show ?thesis
    using result assms(2) assms(3) [OF nodes]
    by (simp add: finish_targets_def determinePrimerNodes_def settled_def names_with_def split: prod.splits)
qed

lemma ends_settled_targets:
  assumes "keeps (settled_run preheated version) (Get_UpgradeAccelerator E req)"
    and "\<And>tr nodes. on_ListNodes E tr [] = Inr nodes \<Longrightarrow>
           distinct (map node_Name nodes) \<and>
           length (filter (\<lambda>n. \<not> preheat_disabled n) nodes) = length preheated"
    and "preheated \<noteq> []"
  shows "ends_settled preheated version
           (and_then (find_targets E) (\<lambda>(targeted, primers).
            and_then (check_targets E req targeted primers) (rest targeted primers)))"
proof (rule ends_settledI)
  fix s assume I: "settled_run preheated version s"
  obtain r t where run: "run_state (find_targets E) s = (r, t)" by (metis surj_pair)
  note t = keeps_run [OF settled.I_head(4) [OF assms(1)] run I]
  show "\<exists>out s'. run_state (and_then (find_targets E) (\<lambda>(targeted, primers).
          and_then (check_targets E req targeted primers) (rest targeted primers))) s = (Stop out, s') \<and>
        settled_run preheated version s' \<and>
        (out = requeue_1m \<longrightarrow>
           getConditionReason (obj s') CONDITION_TYPE_COMPLETED =
             CONDITION_REASON_RUNNING_RECONCILIATION_COMPLETED)"
  proof (cases r)
    case (Stop out)
    with run t stops_withD [OF stops_head(3) [of "\<lambda>out. out \<noteq> requeue_1m"]] show ?thesis
      by (auto simp: run_and_then)
  next
    case (Next nodes)
    obtain targeted primers where nodes: "nodes = (targeted, primers)" by fastforce
    from run Next nodes obtain prohibited excluded where
      det: "run_state (determineTargetedNodes E) s = (Inr (targeted, prohibited, primers, excluded), t)"
      by (auto simp: find_targets_def leave_def split: sum.splits prod.splits)
    have "settled preheated version (obj s)" using I by (simp add: calls_ok_def)
    note len = settled_targets [OF det this assms(2)]
    with t have "length targeted = length (NodesPreheated (Status (obj t)))" "NodesWaiting (Status (obj t)) = []"
      by (simp_all add: calls_ok_def settled_def)
    from record_targets_completes [OF this, of E req primers] obtain s' where
      rec: "run_state (record_targets E req targeted primers) t = (Stop requeue_1m, s')" and
      reason: "getConditionReason (obj s') CONDITION_TYPE_COMPLETED =
        CONDITION_REASON_RUNNING_RECONCILIATION_COMPLETED" by blast
    note s' = keeps_run [OF settled.I_head(5) [OF assms(1)] rec t]
    have "run_state (check_targets E req targeted primers) t = (Stop requeue_1m, s')"
      using rec len assms(3) by (auto simp: check_targets_def)
    with run Next nodes reason s' show ?thesis by (simp add: run_and_then)
  qed
qed


section \<open>Concrete runs\<close>

text \<open>
  A server that stores the status updates it receives, of a cluster on AWS with the given nodes
  whose machine-config operator is at \<open>current\<close> and which wants \<open>desired\<close>.
\<close>

fun last_update :: "UpgradeAccelerator \<Rightarrow> api_call list \<Rightarrow> UpgradeAccelerator" where
  "last_update u [] = u"
| "last_update u (c # cs) = last_update (case c of UpdateStatus v \<Rightarrow> v | _ \<Rightarrow> u) cs"

definition cluster :: "UpgradeAccelerator \<Rightarrow> Node list \<Rightarrow> string \<Rightarrow> string \<Rightarrow> env" where
  "cluster u nodes current desired = (cluster_env nodes)\<lparr>
     on_GetUpgradeAccelerator := (\<lambda>tr key. Inr (last_update u tr)),
     on_GetInfrastructure := (\<lambda>tr key. Inr \<lparr>infra_PlatformStatus = Some ''AWS''\<rparr>),
     on_GetClusterOperator := (\<lambda>tr key. Inr \<lparr>co_Name = ''machine-config'',
        co_Versions = [\<lparr>ov_Name = ''operator'', ov_Version = current\<rparr>]\<rparr>),
     on_GetClusterVersion := (\<lambda>tr key. Inr \<lparr>cv_DesiredVersion = desired, cv_DesiredImage = ''image''\<rparr>)\<rparr>"

definition completed_object :: "string \<Rightarrow> UpgradeAccelerator" where
  "completed_object version = zero_UpgradeAccelerator\<lparr>
     Spec := zero_Spec\<lparr>spec_State := ''Enabled'', Parallelism := 5\<rparr>,
     Status := zero_Status\<lparr>ClusterInfrastructure := ''AWS'', CurrentVersion := version,
       TargetVersion := version, DesiredVersion := version, DesiredImage := ''image'',
       LastCompletedVersion := version, NodesSelected := [''a''], NodesPreheated := [''a'']\<rparr>\<rparr>"

definition ua_request :: NamespacedName where
  "ua_request = \<lparr>nn_Namespace = [], nn_Name = ''ua''\<rparr>"

definition upgraded_object :: UpgradeAccelerator where
  "upgraded_object = (completed_object ''4.18.1'')\<lparr>Status := Status (completed_object ''4.18.1'')
     \<lparr>TargetVersion := ''4.18.2'', DesiredVersion := ''4.18.2''\<rparr>\<rparr>"

text \<open>
  A run on a cluster that wants the release after the one its only node is preheated for: it
  records the new desired version and then stops.
\<close>

lemma new_release_run:
  "\<exists>s'. run_state (Reconcile (cluster (completed_object ''4.18.1'') [worker ''a'' []]
            ''4.18.1'' ''4.18.2'') ua_request) (start zero_UpgradeAccelerator) = (requeue_1m, s') \<and>
        DesiredVersion (Status (obj s')) = ''4.18.2''"
proof -
  let ?E = "cluster (completed_object ''4.18.1'') [worker ''a'' []] ''4.18.1'' ''4.18.2''"
  let ?key = "\<lambda>ns n. \<lparr>nn_Namespace = ns, nn_Name = n\<rparr>"
  let ?s0 = "start zero_UpgradeAccelerator"
  let ?s1 = "\<lparr>trace = [GetUpgradeAccelerator ua_request], obj = completed_object ''4.18.1''\<rparr>"
  let ?s2 = "?s1\<lparr>trace := trace ?s1 @ [GetInfrastructure (?key [] ''cluster'')]\<rparr>"
  let ?s3 = "\<lparr>trace = trace ?s2 @
      [GetClusterOperator (?key ''openshift-machine-api'' ''machine-config''),
       GetClusterVersion (?key ''openshift-cluster-version'' ''version''),
       UpdateStatus upgraded_object, GetUpgradeAccelerator ua_request], obj = upgraded_object\<rparr>"
  let ?s4 = "?s3\<lparr>trace := trace ?s3 @ [ListNodes []]\<rparr>"
  let ?cvs = "\<lparr>cvs_CurrentVersion = ''4.18.1'', cvs_DesiredVersion = ''4.18.2'', cvs_DesiredImage = ''image''\<rparr>"
  note defs = cluster_def completed_object_def zero_defs idle_env_def cluster_env_def start_def
  have 1: "run_state (fetch ?E ua_request) ?s0 = (Next (), ?s1)"
    by (simp add: fetch_def run_Get_UpgradeAccelerator cluster_def start_def)
  have 2: "run_state (check_disabled ?E) ?s1 = (Next (), ?s1)"
    by (simp add: check_disabled_def completed_object_def strings_ToLower_def toLower_char_def)
  have 3: "run_state (find_infrastructure ?E ua_request) ?s1 = (Next (), ?s2)"
    by (simp add: find_infrastructure_def getOpenShiftInfrastructureType_def cluster_def
        completed_object_def)
  have 4: "run_state (find_cluster_version ?E ua_request) ?s2 = (Next ?cvs, ?s3)"
    by (simp add: find_cluster_version_def setupClusterVersion_def getClusterVersionState_def
        getCurrentVersion_def getDesiredVersion_def record_versions_eq versions_recorded_def
        run_Status_Update run_and_then refetch_def run_Get_UpgradeAccelerator upgraded_object_def
        UpgradeAcceleratorMachineConfigOperatorStatusVersionKey_def Let_def defs)
  have 5: "run_state (find_targets ?E) ?s3 = (Next ([''a''], []), ?s4)"
    by (simp add: find_targets_def determineTargetedNodes_def get_pool_selectors_def
        determineLabeledNodes_eq default_targets_def finish_targets_def determinePrimerNodes_def
        names_with_def sort_if_many_def preheat_disabled_def priming_disabled_def label_is_def
        disable_preheat_label_def primer_node_label_def worker_def labels_match_def
        upgraded_object_def Let_def defs)
  have "length [''a''] = length (NodesPreheated (Status (obj ?s4)))" "NodesWaiting (Status (obj ?s4)) = []"
    by (simp_all add: upgraded_object_def completed_object_def zero_defs)
  from record_targets_completes [OF this, of ?E ua_request "[]"] obtain s' us where
    6: "run_state (check_targets ?E ua_request [''a''] []) ?s4 = (Stop requeue_1m, s')" and
    s': "trace s' = trace ?s4 @ map UpdateStatus us"
      "DesiredVersion (Status (obj s')) = DesiredVersion (Status upgraded_object)"
    by (auto simp: check_targets_def)
  have "run_state (Reconcile ?E ua_request) ?s0 = (requeue_1m, s')"
    using 1 2 3 4 5 6
    by (simp add: Reconcile_def reconcile_body_def fetched_phases_def run_and_then start_def)
  then show ?thesis using s'(2) by (auto simp: upgraded_object_def completed_object_def)
qed

lemma last_update_invariant:
  "Q u \<Longrightarrow> (\<And>w. UpdateStatus w \<in> set tr \<Longrightarrow> Q w) \<Longrightarrow> Q (last_update u tr)"
  by (induction tr arbitrary: u) (auto split: api_call.splits)


definition disabled_object :: UpgradeAccelerator where
  "disabled_object = (completed_object ''4.18.1'')\<lparr>Spec := zero_Spec\<lparr>spec_State := ''Disabled''\<rparr>\<rparr>"

theorem Reconcile_disabled_witness:
  "\<exists>s' us. run_state (Reconcile (cluster disabled_object [] ''1'' ''2'') ua_request)
             (start zero_UpgradeAccelerator) = (requeue_30s None, s') \<and> no_nodes (Status (obj s'))"
proof -
  have "on_GetUpgradeAccelerator (cluster disabled_object [] ''1'' ''2'')
          (trace (start zero_UpgradeAccelerator)) ua_request = Inr disabled_object"
    "strings_ToLower (spec_State (Spec disabled_object)) = ''disabled''"
    by (simp add: cluster_def start_def) code_simp
  from Reconcile_disabled [OF this] show ?thesis by blast
qed

theorem Reconcile_unique_types_witness:
  "\<exists>u. UpdateStatus u \<in> set (trace (snd (run_state (Reconcile
         (idle_env\<lparr>on_GetUpgradeAccelerator := (\<lambda>tr key. Inr disabled_object)\<rparr>) ua_request)
         (start zero_UpgradeAccelerator)))) \<and>
       distinct (map cond_Type (Conditions (Status u)))"
proof -
  let ?E = "idle_env\<lparr>on_GetUpgradeAccelerator := (\<lambda>tr key. Inr disabled_object)\<rparr>"
  let ?tr = "trace (snd (run_state (Reconcile ?E ua_request) (start zero_UpgradeAccelerator)))"
  have "on_GetUpgradeAccelerator ?E (trace (start zero_UpgradeAccelerator)) ua_request = Inr disabled_object"
    "strings_ToLower (spec_State (Spec disabled_object)) = ''disabled''"
    by simp code_simp
  from Reconcile_disabled_run [OF this] obtain s' us where
    "run_state (Reconcile ?E ua_request) (start zero_UpgradeAccelerator) = (requeue_30s None, s')"
    "trace s' = trace (start zero_UpgradeAccelerator) @ GetUpgradeAccelerator ua_request # map UpdateStatus us"
    "us \<noteq> []" by blast
  then obtain u where u: "UpdateStatus u \<in> set ?tr" by (cases us) auto
  have fine: "distinct_types v" if "on_GetUpgradeAccelerator ?E tr ua_request = Inr v" for tr v
    using that by (auto simp: distinct_types_def disabled_object_def completed_object_def zero_defs)
  have "distinct (map cond_Type (Conditions (Status u)))"
    by (rule Reconcile_unique_types [OF _ u]) (rule fine)
  with u show ?thesis by blast
qed

section \<open>A first run to the end\<close>

definition fresh_object :: UpgradeAccelerator where
  "fresh_object = zero_UpgradeAccelerator\<lparr>
     Spec := zero_Spec\<lparr>spec_State := ''Enabled''\<rparr>,
     Status := zero_Status\<lparr>ClusterInfrastructure := ''AWS'', CurrentVersion := ''4.18.1'',
       TargetVersion := ''4.18.2'', DesiredVersion := ''4.18.2'', DesiredImage := ''image''\<rparr>\<rparr>"

text \<open>What \<open>oc adm release info ... | jq\<close> prints for a release of two images, one of them Azure's.\<close>

definition release_text :: string where
  "release_text =
     (let quoted = (\<lambda>s. [CHR 0x22] @ s @ [CHR 0x22]); newline = [CHR 0x0A];
          image = (\<lambda>name from.
            ''  {'' @ newline @
            ''    '' @ quoted ''name'' @ '': '' @ quoted name @ '','' @ newline @
            ''    '' @ quoted ''from'' @ '': '' @ quoted from @ newline @ ''  }'')
      in ''['' @ newline @ image ''etcd'' ''quay.io/a'' @ '','' @ newline @
         image ''azure-csi'' ''quay.io/b'' @ newline @ '']'' @ newline)"

definition release_process :: process where
  "release_process = quiet_process\<lparr>proc_Stdout := release_text\<rparr>"

definition release_images :: "ReleaseImageTags list" where
  "release_images =
     [\<lparr>rit_Name = ''etcd'', rit_From = ''quay.io/a''\<rparr>,
      \<lparr>rit_Name = ''azure-csi'', rit_From = ''quay.io/b''\<rparr>]"

definition fresh_env :: env where
  "fresh_env = (cluster fresh_object [worker ''a'' []] ''4.18.1'' ''4.18.2'')\<lparr>
     on_Exec := (\<lambda>tr cmd. release_process),
     on_ListJobs := (\<lambda>tr ns labels. Inr [(finished_job ''a'')\<lparr>job_Succeeded := 0\<rparr>])\<rparr>"

definition targeted_object :: UpgradeAccelerator where
  "targeted_object = fresh_object\<lparr>Status := Status fresh_object\<lparr>
     NodesSelected := [''a''],
     Conditions := [mk_condition CONDITION_TYPE_PRIMER CONDITION_STATUS_FALSE
                      CONDITION_REASON_PRIMER_SKIPPED ''Priming effectively disabled'' 0]\<rparr>\<rparr>"

lemma release_process_result:
  "(case command_result release_process of (out, err) \<Rightarrow> (json_Unmarshal out, err)) =
     (Some (Some release_images), None)"
  by code_simp

lemma GetReleaseImages_release_process:
  assumes "on_Exec E (trace s) (release_info_command i) = release_process"
  shows "run_state (GetReleaseImages E i) s =
           (Inr (Some release_images), s\<lparr>trace := trace s @ [Exec (release_info_command i)]\<rparr>)"
  using release_process_result assms
  by (simp add: GetReleaseImages_def runOCCommand_def run_command_def split: prod.splits)

lemma release_images_on_AWS:
  "FilterReleaseImages (Some release_images) ''AWS'' = Some [hd release_images]"
  by code_simp

lemmas head_run_defs = Reconcile_def reconcile_body_def fetched_phases_def run_and_then fetch_def
  run_Get_UpgradeAccelerator check_disabled_def find_infrastructure_def
  getOpenShiftInfrastructureType_def find_cluster_version_def setupClusterVersion_def
  getClusterVersionState_def getCurrentVersion_def getDesiredVersion_def record_versions_eq
  versions_recorded_def run_Status_Update refetch_def Let_def
  UpgradeAcceleratorMachineConfigOperatorStatusVersionKey_def
  find_targets_def determineTargetedNodes_def get_pool_selectors_def determineLabeledNodes_eq
  default_targets_def finish_targets_def determinePrimerNodes_def names_with_def sort_if_many_def
  preheat_disabled_def priming_disabled_def label_is_def disable_preheat_label_def
  primer_node_label_def worker_def labels_match_def check_targets_def record_targets_def
  primer_checks_def set_condition_defs appendCondition_def lists_complete_def run_update_status
  set_ResourceVersion_def strings_ToLower_def toLower_char_def

lemmas work_run_defs = setup_phase_def setupResources_def GetReleaseImages_release_process
  release_images_on_AWS Marshal_images_def createOperatorNamespace_def target_namespace_def UpgradeAcceleratorDefaultNamespace_def
  setup_release_def createReleaseConfigMap_run setup_script_def createPullerScriptConfigMap_def
  write_config_map_def not_found_def
  work_phases_def waiting_phase_def primer_phase_def remaining_phase_def next_nodes_def
  schedule_remaining_def run_start_job createPullJob_def run_remove_waiting warm_def
  scan_phase_def scan_job_def completion_phase_def getConditionReason_def
  release_config_map_def script_config_map_def jobConstructor_def job_container_def job_env_def
  job_metadata_def puller_image_def release_map_name_def script_map_name_def job_tolerations_def
  controller_ref_def pull_job_for_def job_succeeded_def

text \<open>A whole run of Reconcile on a fresh custom resource with one node, parallelism
zero and priming off, on an API server that holds nothing else: it creates the namespace, both
config maps and the job of the node, and leaves the node warming and nothing waiting.\<close>

theorem first_run:
  "\<exists>s'. run_state (Reconcile fresh_env ua_request) (start zero_UpgradeAccelerator) = (requeue_1m, s') \<and>
        NodesWarming (Status (obj s')) = [''a''] \<and> NodesWaiting (Status (obj s')) = [] \<and>
        CreateNamespace \<lparr>ns_Name = UpgradeAcceleratorDefaultNamespace,
                         ns_Labels = [(''app'', ''upgrade-accelerator'')]\<rparr> \<in> set (trace s') \<and>
        CreateConfigMap (release_config_map fresh_env fresh_object (json_Marshal (Some release_images))
           (json_Marshal (Some [hd release_images]))) \<in> set (trace s') \<and>
        CreateConfigMap (script_config_map fresh_env fresh_object) \<in> set (trace s') \<and>
        CreateJob (node_job fresh_env fresh_object UpgradeAcceleratorDefaultNamespace ''a'') \<in> set (trace s')"
  by (simp add: head_run_defs work_run_defs condition_reason_defs condition_type_defs mk_condition_def
      fresh_env_def fresh_object_def cluster_def cluster_env_def idle_env_def zero_defs start_def)

text \<open>The same cluster with a cache that never shows the status updates: the namespace is created.\<close>

lemma stale_run_creates:
  "CreateConfigMap (script_config_map (fresh_env\<lparr>on_GetUpgradeAccelerator := \<lambda>tr key. Inr fresh_object\<rparr>) fresh_object)
     \<in> set (trace (snd (run_state
        (Reconcile (fresh_env\<lparr>on_GetUpgradeAccelerator := \<lambda>tr key. Inr fresh_object\<rparr>) ua_request)
        (start zero_UpgradeAccelerator))))"
  by (simp add: head_run_defs work_run_defs condition_reason_defs condition_type_defs mk_condition_def
      fresh_env_def fresh_object_def cluster_def cluster_env_def idle_env_def zero_defs start_def)

theorem Reconcile_writes_in_namespace_witness:
  "writes_in ''openshift-upgrade-accelerator''
     (CreateConfigMap (script_config_map
        (fresh_env\<lparr>on_GetUpgradeAccelerator := \<lambda>tr key. Inr fresh_object\<rparr>) fresh_object))"
proof (rule Reconcile_writes_in_namespace [OF _ stale_run_creates])
  show "target_namespace u = ''openshift-upgrade-accelerator''"
    if "on_GetUpgradeAccelerator (fresh_env\<lparr>on_GetUpgradeAccelerator := \<lambda>tr key. Inr fresh_object\<rparr>) tr ua_request = Inr u"
    for tr u
    using that
    by (auto simp: target_namespace_def fresh_object_def zero_defs UpgradeAcceleratorDefaultNamespace_def)
qed

end
