(* ===== verification/Justification.thy ===== *)
theory Justification
  imports Reconcile
begin

text \<open>
  Where the node lists of the status come from. A run marks a node warming or preheated only for
  a reason its own calls show: an object it fetched already says so, it created a job of the
  node, or a job of the node was listed as succeeded. The property is an invariant of the run
  against its trace, the third instance of the contract \<open>job_invariant\<close>.
\<close>

section \<open>Evidence in the trace\<close>

text \<open>
  A call of the trace and what it was answered: the calls before it are what \<open>env\<close> answered it
  on. Evidence is never lost, since a run only appends to the trace.
\<close>

definition object_fetched :: "env \<Rightarrow> api_call list \<Rightarrow> UpgradeAccelerator \<Rightarrow> bool" where
  "object_fetched E tr u \<longleftrightarrow>
     (\<exists>pre key post. tr = pre @ GetUpgradeAccelerator key # post \<and>
        on_GetUpgradeAccelerator E pre key = Inr u)"

definition job_created :: "env \<Rightarrow> api_call list \<Rightarrow> Job \<Rightarrow> bool" where
  "job_created E tr job \<longleftrightarrow>
     (\<exists>pre post. tr = pre @ CreateJob job # post \<and> on_CreateJob E pre job = None)"

lemma evidence_append:
  "object_fetched E tr u \<Longrightarrow> object_fetched E (tr @ ext) u"
  "job_created E tr job \<Longrightarrow> job_created E (tr @ ext) job"
  by (auto simp: object_fetched_def job_created_def) blast+

lemma evidence_now:
  "on_GetUpgradeAccelerator E tr key = Inr u \<Longrightarrow> object_fetched E (tr @ [GetUpgradeAccelerator key]) u"
  "on_CreateJob E tr job = None \<Longrightarrow> job_created E (tr @ [CreateJob job]) job"
  by (auto simp: object_fetched_def job_created_def)

definition warming_justified :: "env \<Rightarrow> api_call list \<Rightarrow> string \<Rightarrow> bool" where
  "warming_justified E tr n \<longleftrightarrow>
     (\<exists>u. object_fetched E tr u \<and> n \<in> set (NodesWarming (Status u))) \<or>
     (\<exists>job. job_created E tr job \<and> NodeName (job_PodSpec job) = n)"

definition preheated_justified :: "env \<Rightarrow> api_call list \<Rightarrow> string \<Rightarrow> bool" where
  "preheated_justified E tr n \<longleftrightarrow>
     (\<exists>u. object_fetched E tr u \<and> n \<in> set (NodesPreheated (Status u))) \<or>
     (\<exists>job. job_listed E tr job \<and> job_succeeded job \<and> NodeName (job_PodSpec job) = n)"

definition lists_justified :: "env \<Rightarrow> api_call list \<Rightarrow> UpgradeAccelerator \<Rightarrow> bool" where
  "lists_justified E tr u \<longleftrightarrow>
     (\<forall>n \<in> set (NodesWarming (Status u)). warming_justified E tr n) \<and>
     (\<forall>n \<in> set (NodesPreheated (Status u)). preheated_justified E tr n)"

lemma lists_justified_append:
  "lists_justified E tr u \<Longrightarrow> lists_justified E (tr @ ext) u"
  unfolding lists_justified_def warming_justified_def preheated_justified_def
  by (blast intro: evidence_append job_listed_append)

lemma lists_justified_fetched:
  "object_fetched E tr u \<Longrightarrow> lists_justified E tr u"
  by (auto simp: lists_justified_def warming_justified_def preheated_justified_def)

lemma lists_justified_mono:
  "lists_justified E tr u \<Longrightarrow> set (NodesWarming (Status v)) \<subseteq> set (NodesWarming (Status u)) \<Longrightarrow>
     set (NodesPreheated (Status v)) \<subseteq> set (NodesPreheated (Status u)) \<Longrightarrow> lists_justified E tr v"
  by (auto simp: lists_justified_def)

section \<open>The invariant\<close>

text \<open>The object in hand is justified, and every status sent was when it was sent.\<close>

definition updates_justified :: "env \<Rightarrow> api_call list \<Rightarrow> bool" where
  "updates_justified E tr \<longleftrightarrow>
     (\<forall>pre u post. tr = pre @ UpdateStatus u # post \<longrightarrow> lists_justified E pre u)"

definition run_justified :: "env \<Rightarrow> go_state \<Rightarrow> bool" where
  "run_justified E s \<longleftrightarrow> lists_justified E (trace s) (obj s) \<and> updates_justified E (trace s)"

lemma updates_justified_snoc:
  "updates_justified E (tr @ [c]) \<longleftrightarrow>
     updates_justified E tr \<and> (\<forall>u. c = UpdateStatus u \<longrightarrow> lists_justified E tr u)"
proof -
  have split: "tr @ [c] = pre @ x # post \<longleftrightarrow>
      (post = [] \<and> tr = pre \<and> c = x) \<or> (\<exists>post'. post = post' @ [c] \<and> tr = pre @ x # post')"
    for pre x post
    by (cases post rule: rev_cases) auto
  show ?thesis unfolding updates_justified_def split by blast
qed

lemma run_justified_call:
  "run_justified E s \<Longrightarrow> (\<And>u. c = UpdateStatus u \<Longrightarrow> lists_justified E (trace s) u) \<Longrightarrow>
     run_justified E (s\<lparr>trace := trace s @ [c]\<rparr>)"
  by (auto simp: run_justified_def updates_justified_snoc intro: lists_justified_append)

lemma run_justified_obj:
  "run_justified E s \<Longrightarrow> lists_justified E (trace s) u \<Longrightarrow> run_justified E (s\<lparr>obj := u\<rparr>)"
  by (auto simp: run_justified_def)

lemma keeps_modify_status_justified:
  assumes "\<And>st. set (NodesWarming (f st)) \<subseteq> set (NodesWarming st) \<and>
                set (NodesPreheated (f st)) \<subseteq> set (NodesPreheated st)"
  shows "keeps (run_justified E) (modify_status f)"
proof (rule keepsI)
  fix s a s'
  assume inv: "run_justified E s" and run: "run_state (modify_status f) s = (a, s')"
  have "lists_justified E (trace s) (obj s\<lparr>Status := f (Status (obj s))\<rparr>)"
    by (rule lists_justified_mono [of E "trace s" "obj s"])
       (use assms [of "Status (obj s)"] inv in \<open>simp_all add: run_justified_def\<close>)
  with run run_justified_obj [OF inv] show "run_justified E s'" by auto
qed

lemma keeps_Status_Update_justified: "keeps (run_justified E) (Status_Update E)"
proof (rule keepsI)
  fix s r s'
  assume inv: "run_justified E s" and run: "run_state (Status_Update E) s = (r, s')"
  let ?t = "s\<lparr>trace := trace s @ [UpdateStatus (obj s)]\<rparr>"
  have t: "run_justified E ?t"
    using inv by (intro run_justified_call) (auto simp: run_justified_def)
  with run show "run_justified E s'"
    by (auto simp: run_Status_Update run_justified_def lists_justified_def split: sum.splits)
qed

lemma keeps_Get_UpgradeAccelerator_justified:
  "keeps (run_justified E) (Get_UpgradeAccelerator E key)"
proof (rule keepsI)
  fix s r s'
  assume inv: "run_justified E s" and run: "run_state (Get_UpgradeAccelerator E key) s = (r, s')"
  have "run_justified E (s\<lparr>trace := trace s @ [GetUpgradeAccelerator key]\<rparr>)"
    by (rule run_justified_call [OF inv]) simp
  with run show "run_justified E s'"
    by (auto simp: run_Get_UpgradeAccelerator run_justified_def split: sum.splits
        intro: lists_justified_fetched [OF evidence_now(1)])
qed

text \<open>The node of a job just created is the target node of its pull job.\<close>

lemma createPullJob_evidence:
  assumes "run_state (createPullJob E pullJob) s = (Inr True, s')"
  shows "\<exists>job. job_created E (trace s') job \<and> NodeName (job_PodSpec job) = pj_TargetNodeName pullJob"
proof -
  have "job_created E (trace s') (jobConstructor E (obj s) pullJob)"
    using assms evidence_now(2) [of E "trace s @ [GetJob (job_key pullJob)]"]
    by (auto simp: createPullJob_def Let_def split: sum.splits if_splits option.splits)
  then show ?thesis by (intro exI conjI) (assumption, simp add: jobConstructor_def)
qed

interpretation justified: job_invariant E "run_justified E" "\<lambda>_. True" for E
proof unfold_locales
  show "run_justified E (s\<lparr>trace := trace s @ [c]\<rparr>)" if "is_plain c" "run_justified E s" for c s
    using that by (intro run_justified_call) auto
  show "run_justified E (s'\<lparr>obj := warm (pj_TargetNodeName pullJob) (obj s')\<rparr>)"
    if create: "run_state (createPullJob E pullJob) s = (Inr True, s')" and inv: "run_justified E s'"
    for pullJob s s'
    using createPullJob_evidence [OF create] inv
    by (auto simp: run_justified_def lists_justified_def warm_def warming_justified_def)
  show "run_justified E (s\<lparr>obj := preheat (NodeName (job_PodSpec job)) (obj s)\<rparr>)"
    if "run_justified E s" "job_listed E (trace s) job" "job_succeeded job" for s job
    using that by (auto simp: run_justified_def lists_justified_def preheat_def preheated_justified_def)
qed (auto simp: shrinks_def intro!: keeps_Status_Update_justified keeps_modify_status_justified
       run_justified_call)

section \<open>Every run\<close>

lemma updates_justifiedD:
  "updates_justified E tr \<Longrightarrow> tr = pre @ UpdateStatus u # post \<Longrightarrow> lists_justified E pre u"
  by (auto simp: updates_justified_def)

lemma run_justified_fetched:
  assumes "on_GetUpgradeAccelerator E [] req = Inr u"
  shows "run_justified E \<lparr>trace = [GetUpgradeAccelerator req], obj = u\<rparr>"
  using evidence_now(1) [OF assms]
  by (auto simp: run_justified_def updates_justified_def append_eq_Cons_conv Cons_eq_append_conv
      intro: lists_justified_fetched)

lemma Reconcile_updates_justified:
  "updates_justified E (trace (snd (run_state (Reconcile E req) (start u0))))"
proof (cases "on_GetUpgradeAccelerator E [] req")
  case (Inl err)
  then show ?thesis
    by (auto simp: Reconcile_fetch_error start_def updates_justified_def Cons_eq_append_conv)
next
  case (Inr u)
  then have "run_justified E (snd (run_state (Reconcile E req) (start u0)))"
    using run_justified_fetched [OF Inr]
    by (intro justified.I_Reconcile keeps_Get_UpgradeAccelerator_justified) (auto simp: start_def)
  then show ?thesis by (simp add: run_justified_def)
qed

text \<open>C4: In every status a run of Reconcile sends, each warming node was warming in an
object the run had fetched or is the node of a job the run had created and the API server
accepted, and each preheated node was preheated in an object the run had fetched or is the node
of a succeeded job the API server had listed to it.\<close>

theorem Reconcile_lists_justified:
  assumes "trace (snd (run_state (Reconcile E req) (start u0))) = pre @ UpdateStatus u # post"
  shows "(\<forall>n \<in> set (NodesWarming (Status u)).
            (\<exists>v. object_fetched E pre v \<and> n \<in> set (NodesWarming (Status v))) \<or>
            (\<exists>job. job_created E pre job \<and> NodeName (job_PodSpec job) = n)) \<and>
         (\<forall>n \<in> set (NodesPreheated (Status u)).
            (\<exists>v. object_fetched E pre v \<and> n \<in> set (NodesPreheated (Status v))) \<or>
            (\<exists>job. job_listed E pre job \<and> job_succeeded job \<and> NodeName (job_PodSpec job) = n))"
  using updates_justifiedD [OF Reconcile_updates_justified assms]
  by (simp add: lists_justified_def warming_justified_def preheated_justified_def)

section \<open>A run that marks a node\<close>

fun marks_warming :: "string list \<Rightarrow> api_call \<Rightarrow> bool" where
  "marks_warming nodes (UpdateStatus u) = (NodesWarming (Status u) = nodes)"
| "marks_warming nodes _ = False"

lemma fresh_run_marks:
  "list_ex (marks_warming [''a''])
     (trace (snd (run_state (Reconcile fresh_env ua_request) (start zero_UpgradeAccelerator))))"
  by (simp add: head_run_defs work_run_defs condition_reason_defs
      condition_type_defs mk_condition_def fresh_env_def fresh_object_def cluster_def
      cluster_env_def idle_env_def zero_defs start_def)

theorem Reconcile_lists_justified_witness:
  "\<exists>pre u post.
     trace (snd (run_state (Reconcile fresh_env ua_request) (start zero_UpgradeAccelerator))) =
       pre @ UpdateStatus u # post \<and>
     ((\<exists>v. object_fetched fresh_env pre v \<and> ''a'' \<in> set (NodesWarming (Status v))) \<or>
      (\<exists>job. job_created fresh_env pre job \<and> NodeName (job_PodSpec job) = ''a''))"
proof -
  from fresh_run_marks obtain u where
    "UpdateStatus u \<in> set (trace (snd (run_state (Reconcile fresh_env ua_request)
        (start zero_UpgradeAccelerator))))" and warming: "NodesWarming (Status u) = [''a'']"
    by (auto simp: list_ex_iff elim: marks_warming.elims)
  then obtain pre post where
    tr: "trace (snd (run_state (Reconcile fresh_env ua_request) (start zero_UpgradeAccelerator))) =
           pre @ UpdateStatus u # post" by (auto dest: split_list)
  from Reconcile_lists_justified [OF tr] warming tr show ?thesis by auto
qed

end
