(* ===== verification/Lifecycle.thy ===== *)
theory Lifecycle
  imports Justification
begin

text \<open>
  The operator over time: a step relation on what the cluster stores, whose steps are whole runs
  of \<open>Reconcile\<close>, edits of the custom resource by users and the progress of jobs, in any order.
  Invariants of one run become invariants of every reachable world by rule induction.
\<close>

section \<open>Worlds\<close>

text \<open>
  Every version of the custom resource that may have been stored, so that a stale cache can
  return any of them: a status update that is answered with an error may have been stored all
  the same. The jobs that are there now, and a record of all that ever were: a job is deleted
  when its time to live after finishing has passed (the code sets one), or by hand.
\<close>

record world =
  versions :: "UpgradeAccelerator list"
  jobs :: "Job list"
  past_jobs :: "Job list"

fun sent_versions :: "api_call list \<Rightarrow> UpgradeAccelerator list" where
  "sent_versions [] = []"
| "sent_versions (UpdateStatus u # cs) = u # sent_versions cs"
| "sent_versions (c # cs) = sent_versions cs"

text \<open>The jobs of the calls that the API server accepted; \<open>pre\<close> are the calls before.\<close>

fun accepted_jobs :: "env \<Rightarrow> api_call list \<Rightarrow> api_call list \<Rightarrow> Job list" where
  "accepted_jobs E pre [] = []"
| "accepted_jobs E pre (c # cs) =
     (case c of CreateJob job \<Rightarrow> if on_CreateJob E pre job = None then [job] else [] | _ \<Rightarrow> []) @
     accepted_jobs E (pre @ [c]) cs"

lemma set_sent_versions: "set (sent_versions cs) = {u. UpdateStatus u \<in> set cs}"
  by (induction cs rule: sent_versions.induct) auto

lemma job_created_Cons:
  "job_created (E\<lparr>on_CreateJob := \<lambda>tr. on_CreateJob E (pre @ tr)\<rparr>) (c # cs) job \<longleftrightarrow>
     (c = CreateJob job \<and> on_CreateJob E pre job = None) \<or>
     job_created (E\<lparr>on_CreateJob := \<lambda>tr. on_CreateJob E ((pre @ [c]) @ tr)\<rparr>) cs job"
  by (auto simp: job_created_def Cons_eq_append_conv)

lemma set_accepted_jobs: "set (accepted_jobs E [] cs) = {job. job_created E cs job}"
proof -
  have "set (accepted_jobs E pre cs) =
          {job. job_created (E\<lparr>on_CreateJob := \<lambda>tr. on_CreateJob E (pre @ tr)\<rparr>) cs job}" for pre
  proof (induction cs arbitrary: pre)
    case Nil
    then show ?case by (simp add: job_created_def)
  next
    case (Cons c cs)
    from Cons.IH [of "pre @ [c]"] show ?case
      unfolding job_created_Cons by (cases c) auto
  qed
  from this [of "[]"] show ?thesis by simp
qed

definition after_calls :: "env \<Rightarrow> world \<Rightarrow> api_call list \<Rightarrow> world" where
  "after_calls E w tr = \<lparr>versions = versions w @ sent_versions tr,
     jobs = jobs w @ accepted_jobs E [] tr, past_jobs = past_jobs w @ accepted_jobs E [] tr\<rparr>"

text \<open>
  An API server that serves the world: the status of the object it returns is one that was
  stored before the run or sent in it (the rest of the object may have been edited meanwhile),
  and a job it lists has the pod of one that is there or that it accepted in the run. Everything
  else, failures and conflicts included, is arbitrary.
\<close>

definition serves :: "env \<Rightarrow> world \<Rightarrow> bool" where
  "serves E w \<longleftrightarrow>
     (\<forall>tr key u. on_GetUpgradeAccelerator E tr key = Inr u \<longrightarrow>
        Status u \<in> Status ` (set (versions w) \<union> {v. UpdateStatus v \<in> set tr})) \<and>
     (\<forall>tr ns labels listed. on_ListJobs E tr ns labels = Inr listed \<longrightarrow>
        job_PodSpec ` set listed \<subseteq> job_PodSpec ` (set (jobs w) \<union> {job. job_created E tr job}))"

lemma serves_listed:
  "serves E w \<Longrightarrow> on_ListJobs E tr ns labels = Inr listed \<Longrightarrow>
     job_PodSpec ` set listed \<subseteq> job_PodSpec ` (set (jobs w) \<union> {job. job_created E tr job})"
  by (simp add: serves_def)

text \<open>
  The steps: a run; an edit by a user, which leaves the status alone; a job that makes progress,
  expires or is deleted; and a job that is stored without an answer to the operator, because the
  answer to its creation was lost or another client applied it.
\<close>

inductive world_step :: "world \<Rightarrow> world \<Rightarrow> bool" where
  reconcile: "serves E w \<Longrightarrow>
     world_step w (after_calls E w (trace (snd (run_state (Reconcile E req) (start u0)))))"
| edit: "u \<in> set (versions w) \<Longrightarrow> Status v = Status u \<Longrightarrow>
     world_step w (w\<lparr>versions := versions w @ [v]\<rparr>)"
| job_progress: "job \<in> set (jobs w) \<Longrightarrow>
     world_step w (w\<lparr>jobs := job\<lparr>job_Succeeded := k\<rparr> # remove1 job (jobs w)\<rparr>)"
| job_gone: "job \<in> set (jobs w) \<Longrightarrow> world_step w (w\<lparr>jobs := remove1 job (jobs w)\<rparr>)"
| job_stored: "world_step w (w\<lparr>jobs := jobs w @ [job], past_jobs := past_jobs w @ [job]\<rparr>)"

inductive reachable :: "world \<Rightarrow> world \<Rightarrow> bool" for w0 where
  initially: "reachable w0 w0"
| later: "reachable w0 w \<Longrightarrow> world_step w w' \<Longrightarrow> reachable w0 w'"

lemma reachable_invariant:
  assumes "reachable w0 w" and "I w0" and "\<And>w w'. I w \<Longrightarrow> world_step w w' \<Longrightarrow> I w'"
  shows "I w"
  using assms by (induction rule: reachable.induct) blast+

section \<open>Condition types\<close>

definition types_distinct_in :: "world \<Rightarrow> bool" where
  "types_distinct_in w \<longleftrightarrow> (\<forall>u \<in> set (versions w). distinct_types u)"

lemma distinct_types_Status: "Status u = Status v \<Longrightarrow> distinct_types u = distinct_types v"
  by (simp add: distinct_types_def)

lemma served_types_distinct:
  assumes "serves E w" and "types_distinct_in w" and "\<forall>c \<in> set tr. sends_distinct_types c"
    and "on_GetUpgradeAccelerator E tr key = Inr u"
  shows "distinct_types u"
proof -
  from assms(1,4) obtain v where "v \<in> set (versions w) \<or> UpdateStatus v \<in> set tr"
    and "Status u = Status v"
    unfolding serves_def by fast
  with assms(2,3) distinct_types_Status [of u v] show ?thesis
    by (auto simp: types_distinct_in_def)
qed

lemma Reconcile_types_distinct:
  assumes "serves E w" and "types_distinct_in w"
  shows "types_distinct_in (after_calls E w (trace (snd (run_state (Reconcile E req) (start u0)))))"
proof -
  have get: "keeps unique_types_sent (Get_UpgradeAccelerator E req)"
    by (rule keepsI)
       (auto simp: run_Get_UpgradeAccelerator calls_ok_def split: sum.splits
         dest: served_types_distinct [OF assms])
  have "\<forall>c \<in> set (trace (snd (run_state (Reconcile E req) (start u0)))). sends_distinct_types c"
  proof (cases "on_GetUpgradeAccelerator E [] req")
    case (Inl err)
    then show ?thesis by (simp add: Reconcile_fetch_error start_def)
  next
    case (Inr u)
    then have "unique_types_sent \<lparr>trace = [GetUpgradeAccelerator req], obj = u\<rparr>"
      using served_types_distinct [OF assms _ Inr] by (simp add: calls_ok_def)
    with Inr have "unique_types_sent (snd (run_state (Reconcile E req) (start u0)))"
      by (intro unique_types.I_Reconcile get) (auto simp: start_def)
    then show ?thesis by (simp add: calls_ok_def)
  qed
  with assms(2) show ?thesis
    by (auto simp: types_distinct_in_def after_calls_def set_sent_versions)
qed

lemma world_step_types_distinct:
  assumes "types_distinct_in w" and "world_step w w'"
  shows "types_distinct_in w'"
  using assms(2)
proof (cases rule: world_step.cases)
  case (reconcile E req u0)
  with Reconcile_types_distinct assms(1) show ?thesis by blast
next
  case (edit u v)
  with assms(1) distinct_types_Status [of v u] show ?thesis by (simp add: types_distinct_in_def)
qed (use assms(1) in \<open>simp_all add: types_distinct_in_def\<close>)

section \<open>The node lists\<close>

text \<open>
  For every node that is warming or preheated in a stored status there is or was a job. A job
  that is there was recorded.
\<close>

definition has_job :: "Job set \<Rightarrow> string \<Rightarrow> bool" where
  "has_job js n \<longleftrightarrow> (\<exists>job \<in> js. NodeName (job_PodSpec job) = n)"

definition marked_nodes :: "UpgradeAccelerator \<Rightarrow> string set" where
  "marked_nodes u = set (NodesWarming (Status u)) \<union> set (NodesPreheated (Status u))"

definition marked_nodes_had_jobs :: "world \<Rightarrow> bool" where
  "marked_nodes_had_jobs w \<longleftrightarrow>
     (\<forall>u \<in> set (versions w). \<forall>n \<in> marked_nodes u. has_job (set (past_jobs w)) n) \<and>
     job_PodSpec ` set (jobs w) \<subseteq> job_PodSpec ` set (past_jobs w)"

text \<open>The jobs known after the first calls of a run.\<close>

definition known_jobs :: "env \<Rightarrow> world \<Rightarrow> api_call list \<Rightarrow> Job set" where
  "known_jobs E w tr = set (past_jobs w) \<union> {job. job_created E tr job}"

lemma has_job_mono: "has_job js n \<Longrightarrow> js \<subseteq> js' \<Longrightarrow> has_job js' n"
  by (auto simp: has_job_def)

lemma has_job_PodSpec: "job_PodSpec ` js \<subseteq> job_PodSpec ` js' \<Longrightarrow> has_job js n \<Longrightarrow> has_job js' n"
  unfolding has_job_def by (metis image_iff subsetD)

lemma has_job_later:
  "has_job (known_jobs E w pre) n \<Longrightarrow> has_job (known_jobs E w (pre @ post)) n"
  by (erule has_job_mono) (auto simp: known_jobs_def intro: evidence_append)

text \<open>What the evidence of a run is worth when the API server serves the world.\<close>

lemma created_has_job:
  "job_created E pre job \<Longrightarrow> has_job (known_jobs E w pre) (NodeName (job_PodSpec job))"
  by (auto simp: known_jobs_def has_job_def)

lemma listed_has_job:
  assumes "serves E w" and "marked_nodes_had_jobs w" and "job_listed E pre job"
  shows "has_job (known_jobs E w pre) (NodeName (job_PodSpec job))"
proof -
  from assms(3) obtain before ns labels post listed where
    pre: "pre = before @ ListJobs ns labels # post" and
    answer: "on_ListJobs E before ns labels = Inr listed" "job \<in> set listed"
    by (auto simp: job_listed_def)
  then have "has_job (set listed) (NodeName (job_PodSpec job))" unfolding has_job_def by blast
  moreover have "job_PodSpec ` set listed \<subseteq> job_PodSpec ` known_jobs E w before"
  proof -
    have "job_PodSpec ` set (jobs w) \<subseteq> job_PodSpec ` set (past_jobs w)"
      using assms(2) by (simp add: marked_nodes_had_jobs_def)
    then have "job_PodSpec ` (set (jobs w) \<union> {job. job_created E before job}) \<subseteq>
        job_PodSpec ` known_jobs E w before"
      unfolding known_jobs_def image_Un by (rule Un_mono [OF _ order_refl])
    with serves_listed [OF assms(1) answer(1)] show ?thesis by (rule order_trans)
  qed
  ultimately have "has_job (known_jobs E w before) (NodeName (job_PodSpec job))"
    by (rule has_job_PodSpec [rotated])
  then show ?thesis unfolding pre by (rule has_job_later)
qed

lemma fetched_has_job:
  assumes "serves E w" and "marked_nodes_had_jobs w" and "object_fetched E pre u"
    and "n \<in> marked_nodes u"
    and earlier: "\<And>before v post. pre = before @ UpdateStatus v # post \<Longrightarrow> n \<in> marked_nodes v \<Longrightarrow>
           has_job (known_jobs E w before) n"
  shows "has_job (known_jobs E w pre) n"
proof -
  from assms(3) obtain before key post where
    pre: "pre = before @ GetUpgradeAccelerator key # post" and
    "on_GetUpgradeAccelerator E before key = Inr u" by (auto simp: object_fetched_def)
  with assms(1) obtain v where v: "v \<in> set (versions w) \<or> UpdateStatus v \<in> set before"
    and "Status u = Status v"
    unfolding serves_def by fast
  with assms(4) have n: "n \<in> marked_nodes v" by (simp add: marked_nodes_def)
  from v show ?thesis
  proof
    assume "v \<in> set (versions w)"
    with assms(2) n have "has_job (set (past_jobs w)) n" by (auto simp: marked_nodes_had_jobs_def)
    then show ?thesis by (rule has_job_mono) (simp add: known_jobs_def)
  next
    assume "UpdateStatus v \<in> set before"
    then obtain b p where b: "before = b @ UpdateStatus v # p" by (auto dest: split_list)
    then have "pre = b @ UpdateStatus v # (p @ GetUpgradeAccelerator key # post)" by (simp add: pre)
    from earlier [OF this n] this show ?thesis by (metis has_job_later)
  qed
qed

lemma sent_status_has_jobs:
  assumes "serves E w" and "marked_nodes_had_jobs w" and "updates_justified E tr"
    and "tr = pre @ UpdateStatus u # post" and "n \<in> marked_nodes u"
  shows "has_job (known_jobs E w pre) n"
  using assms(4,5)
proof (induction "length pre" arbitrary: pre u post rule: less_induct)
  case less
  note fetched = fetched_has_job [OF assms(1,2)]
  have earlier: "has_job (known_jobs E w before) n"
    if "pre = before @ UpdateStatus v # p" "n \<in> marked_nodes v" for before v p
    using that less.hyps [of before v "p @ UpdateStatus u # post"] less.prems(1) by simp
  from updates_justifiedD [OF assms(3) less.prems(1)] less.prems(2)
  consider (fetched) v where "object_fetched E pre v" "n \<in> marked_nodes v"
    | (created) job where "job_created E pre job" "NodeName (job_PodSpec job) = n"
    | (listed) job where "job_listed E pre job" "NodeName (job_PodSpec job) = n"
    by (fastforce simp: lists_justified_def warming_justified_def preheated_justified_def
        marked_nodes_def)
  then show ?case
    by cases (auto intro: fetched earlier created_has_job listed_has_job [OF assms(1,2)])
qed

lemma Reconcile_had_jobs:
  assumes "serves E w" and "marked_nodes_had_jobs w"
  shows "marked_nodes_had_jobs
           (after_calls E w (trace (snd (run_state (Reconcile E req) (start u0)))))"
proof -
  let ?tr = "trace (snd (run_state (Reconcile E req) (start u0)))"
  have past: "set (past_jobs (after_calls E w ?tr)) = known_jobs E w ?tr"
    by (simp add: after_calls_def set_accepted_jobs known_jobs_def)
  have sent: "has_job (known_jobs E w ?tr) n"
    if "UpdateStatus u \<in> set ?tr" "n \<in> marked_nodes u" for u n
  proof -
    from that(1) obtain pre post where tr: "?tr = pre @ UpdateStatus u # post"
      by (auto dest: split_list)
    from sent_status_has_jobs [OF assms Reconcile_updates_justified tr that(2)] show ?thesis
      unfolding tr by (rule has_job_later)
  qed
  moreover have "has_job (known_jobs E w ?tr) n" if "u \<in> set (versions w)" "n \<in> marked_nodes u" for u n
  proof -
    from assms(2) that have "has_job (set (past_jobs w)) n" by (auto simp: marked_nodes_had_jobs_def)
    then show ?thesis by (rule has_job_mono) (simp add: known_jobs_def)
  qed
  moreover have "job_PodSpec ` set (jobs (after_calls E w ?tr)) \<subseteq> job_PodSpec ` known_jobs E w ?tr"
    using assms(2)
    by (auto simp: marked_nodes_had_jobs_def known_jobs_def after_calls_def set_accepted_jobs image_Un)
  ultimately show ?thesis
    unfolding marked_nodes_had_jobs_def past
    by (auto simp: after_calls_def set_sent_versions)
qed

lemma world_step_had_jobs:
  assumes "marked_nodes_had_jobs w" and "world_step w w'"
  shows "marked_nodes_had_jobs w'"
  using assms(2)
proof (cases rule: world_step.cases)
  case (reconcile E req u0)
  with Reconcile_had_jobs assms(1) show ?thesis by blast
next
  case (edit u v)
  with assms(1) show ?thesis by (auto simp: marked_nodes_had_jobs_def marked_nodes_def)
next
  case (job_progress job k)
  have "job_PodSpec ` set (remove1 job (jobs w)) \<subseteq> job_PodSpec ` set (jobs w)"
    by (rule image_mono [OF set_remove1_subset])
  with assms(1) job_progress show ?thesis by (simp add: marked_nodes_had_jobs_def) blast
next
  case (job_gone job)
  have "job_PodSpec ` set (remove1 job (jobs w)) \<subseteq> job_PodSpec ` set (jobs w)"
    by (rule image_mono [OF set_remove1_subset])
  with assms(1) job_gone show ?thesis by (simp add: marked_nodes_had_jobs_def) blast
next
  case (job_stored job)
  with assms(1) show ?thesis
    by (auto simp: marked_nodes_had_jobs_def intro: has_job_mono)
qed

section \<open>Every reachable world\<close>

text \<open>C3: However runs of Reconcile, edits of the resource by users and the progress, the
expiry and the deletion of jobs alternate, with stale reads and refused or lost updates, every
node that is warming or preheated in a status that was stored or sent has or had a job with a
pod on it that the cluster stored (a creation the API server refused does not count), and no
such status has two conditions of one type; provided both hold at the start, as they do for a
resource just created.\<close>

theorem reachable_world:
  assumes "reachable w0 w"
    and "\<forall>u \<in> set (versions w0). distinct (map cond_Type (Conditions (Status u)))"
    and "\<forall>u \<in> set (versions w0). \<forall>n \<in> set (NodesWarming (Status u)) \<union> set (NodesPreheated (Status u)).
           \<exists>job \<in> set (past_jobs w0). NodeName (job_PodSpec job) = n"
    and "set (jobs w0) \<subseteq> set (past_jobs w0)"
    and "u \<in> set (versions w)"
  shows "(\<forall>n \<in> set (NodesWarming (Status u)) \<union> set (NodesPreheated (Status u)).
            \<exists>job \<in> set (past_jobs w). NodeName (job_PodSpec job) = n) \<and>
         distinct (map cond_Type (Conditions (Status u)))"
proof -
  have "marked_nodes_had_jobs w0 \<and> types_distinct_in w0"
    using assms(2-4)
    by (auto simp: marked_nodes_had_jobs_def marked_nodes_def has_job_def types_distinct_in_def
        distinct_types_def)
  with assms(1) have "marked_nodes_had_jobs w \<and> types_distinct_in w"
    by (rule reachable_invariant) (blast intro: world_step_had_jobs world_step_types_distinct)
  with assms(5) show ?thesis
    by (simp add: marked_nodes_had_jobs_def marked_nodes_def has_job_def types_distinct_in_def
        distinct_types_def)
qed

section \<open>A server with a memory\<close>

text \<open>
  An API server that keeps what it is sent: \<open>past\<close> are the calls of the runs before, whose jobs
  have succeeded meanwhile, the trace those of the current run. The cluster has one node and
  wants release 4.18.2.
\<close>

fun sent_jobs :: "api_call list \<Rightarrow> Job list" where
  "sent_jobs [] = []"
| "sent_jobs (CreateJob job # cs) = job # sent_jobs cs"
| "sent_jobs (c # cs) = sent_jobs cs"

lemma set_sent_jobs: "set (sent_jobs cs) = {job. CreateJob job \<in> set cs}"
  by (induction cs rule: sent_jobs.induct) auto

fun sent_namespaces :: "api_call list \<Rightarrow> NamespaceObject list" where
  "sent_namespaces [] = []"
| "sent_namespaces (CreateNamespace ns # cs) = ns # sent_namespaces cs"
| "sent_namespaces (c # cs) = sent_namespaces cs"

fun sent_config_maps :: "api_call list \<Rightarrow> ConfigMap list" where
  "sent_config_maps [] = []"
| "sent_config_maps (CreateConfigMap cm # cs) = cm # sent_config_maps cs"
| "sent_config_maps (c # cs) = sent_config_maps cs"

definition answer_first :: "'a list \<Rightarrow> error + 'a" where
  "answer_first xs = (case xs of [] \<Rightarrow> Inl not_found | x # _ \<Rightarrow> Inr x)"

definition store_env :: "UpgradeAccelerator \<Rightarrow> api_call list \<Rightarrow> env" where
  "store_env u past = (cluster u [worker ''a'' []] ''4.18.1'' ''4.18.2'')\<lparr>
     on_GetUpgradeAccelerator := (\<lambda>tr key. Inr (last_update u (past @ tr))),
     on_Exec := (\<lambda>tr cmd. release_process),
     on_GetNamespace := (\<lambda>tr key. answer_first
       (filter (\<lambda>ns. ns_Name ns = nn_Name key) (sent_namespaces (past @ tr)))),
     on_GetConfigMap := (\<lambda>tr key. answer_first
       (filter (\<lambda>cm. Name (cm_Metadata cm) = nn_Name key \<and>
                   Namespace (cm_Metadata cm) = nn_Namespace key) (sent_config_maps (past @ tr)))),
     on_GetJob := (\<lambda>tr key. answer_first
       (filter (\<lambda>job. Name (job_Metadata job) = nn_Name key \<and>
                    Namespace (job_Metadata job) = nn_Namespace key) (sent_jobs (past @ tr)))),
     on_ListJobs := (\<lambda>tr ns labels.
       Inr (map (\<lambda>job. job\<lparr>job_Succeeded := 1\<rparr>) (sent_jobs past) @ sent_jobs tr))\<rparr>"

lemma sent_append:
  "sent_versions (cs @ ds) = sent_versions cs @ sent_versions ds"
  "sent_jobs (cs @ ds) = sent_jobs cs @ sent_jobs ds"
  "sent_namespaces (cs @ ds) = sent_namespaces cs @ sent_namespaces ds"
  "sent_config_maps (cs @ ds) = sent_config_maps cs @ sent_config_maps ds"
proof -
  show "sent_versions (cs @ ds) = sent_versions cs @ sent_versions ds"
    by (induction cs rule: sent_versions.induct) auto
  show "sent_jobs (cs @ ds) = sent_jobs cs @ sent_jobs ds"
    by (induction cs rule: sent_jobs.induct) auto
  show "sent_namespaces (cs @ ds) = sent_namespaces cs @ sent_namespaces ds"
    by (induction cs rule: sent_namespaces.induct) auto
  show "sent_config_maps (cs @ ds) = sent_config_maps cs @ sent_config_maps ds"
    by (induction cs rule: sent_config_maps.induct) auto
qed

lemma last_update_append: "last_update u (cs @ ds) = last_update (last_update u cs) ds"
  by (induction cs arbitrary: u) auto

lemma last_update_sent: "last_update u cs \<in> insert u (set (sent_versions cs))"
proof (induction cs arbitrary: u)
  case (Cons c cs)
  from Cons.IH show ?case by (cases c) fastforce+
qed simp

text \<open>It accepts every job, and serves the world of its past.\<close>

lemma store_env_created: "job_created (store_env u past) tr job \<longleftrightarrow> CreateJob job \<in> set tr"
  by (auto simp: job_created_def store_env_def cluster_def cluster_env_def in_set_conv_decomp)

lemma store_env_serves:
  assumes "u \<in> set (versions w)" and "set (sent_versions past) \<subseteq> set (versions w)"
    and "set (sent_jobs past) \<subseteq> set (jobs w)"
  shows "serves (store_env u past) w"
proof -
  have "last_update u (past @ tr) \<in> set (versions w) \<union> {v. UpdateStatus v \<in> set tr}" for tr
    using last_update_sent [of u "past @ tr"] assms(1,2)
    by (auto simp: sent_append set_sent_versions)
  moreover have "job_PodSpec ` set (map (\<lambda>job. job\<lparr>job_Succeeded := 1\<rparr>) (sent_jobs past) @ sent_jobs tr)
      \<subseteq> job_PodSpec ` (set (jobs w) \<union> {job. job_created (store_env u past) tr job})" for tr
    using assms(3) by (auto simp: store_env_created set_sent_jobs)
  moreover have "on_GetUpgradeAccelerator (store_env u past) = (\<lambda>tr key. Inr (last_update u (past @ tr)))"
    "on_ListJobs (store_env u past) = (\<lambda>tr ns labels.
       Inr (map (\<lambda>job. job\<lparr>job_Succeeded := 1\<rparr>) (sent_jobs past) @ sent_jobs tr))"
    by (simp_all add: store_env_def)
  ultimately show ?thesis by (auto simp: serves_def)
qed

end
