(* ===== verification/Scenario.thy ===== *)
theory Scenario
  imports Lifecycle
begin

text \<open>
  Two runs of \<open>Reconcile\<close> on an API server with a memory: the first starts the pull job of a new
  release, the second, after the job has succeeded, completes the release.
\<close>

section \<open>From a fresh resource to a completed release\<close>

lemma hashString_4182: "hashString ''4.18.2'' = ''6e0baa71''"
  by code_simp

definition warmed_object :: UpgradeAccelerator where
  "warmed_object = fresh_object\<lparr>Status := Status fresh_object\<lparr>
     NodesSelected := [''a''], NodesWarming := [''a''],
     Conditions :=
       [mk_condition CONDITION_TYPE_PRIMER CONDITION_STATUS_FALSE CONDITION_REASON_PRIMER_SKIPPED
          ''Priming effectively disabled'' 0,
        mk_condition CONDITION_TYPE_SETUP_COMPLETE CONDITION_STATUS_TRUE
          CONDITION_REASON_SETUP_COMPLETED ''All setup tasks completed successfully'' 0,
        mk_condition CONDITION_TYPE_RUNNING CONDITION_STATUS_TRUE
          CONDITION_REASON_RUNNING_JOBS_SCHEDULED ''Following nodes currently warming: a'' 0]\<rparr>\<rparr>"

definition release_job :: Job where
  "release_job = node_job idle_env fresh_object UpgradeAcceleratorDefaultNamespace ''a''"

lemmas store_run_defs = head_run_defs work_run_defs condition_reason_defs condition_type_defs
  mk_condition_def store_env_def cluster_def cluster_env_def idle_env_def zero_defs start_def
  answer_first_def fresh_object_def hashString_4182

lemma DeepEqual_refl: "distinct (map fst a) \<Longrightarrow> DeepEqual a a"
  by (simp add: DeepEqual_iff)

lemma first_store_run:
  "\<exists>s. run_state (Reconcile (store_env fresh_object []) ua_request) (start zero_UpgradeAccelerator) =
         (requeue_1m, s) \<and> obj s = warmed_object \<and> last_update fresh_object (trace s) = warmed_object \<and>
       sent_jobs (trace s) = [release_job] \<and>
       sent_namespaces (trace s) = [\<lparr>ns_Name = UpgradeAcceleratorDefaultNamespace,
                                     ns_Labels = [(''app'', ''upgrade-accelerator'')]\<rparr>] \<and>
       sent_config_maps (trace s) =
         [release_config_map idle_env fresh_object (json_Marshal (Some release_images))
            (json_Marshal (Some [hd release_images])),
          script_config_map idle_env fresh_object]"
  by (simp add: store_run_defs warmed_object_def release_job_def)

lemma second_store_run:
  assumes "last_update u past = warmed_object" and "sent_jobs past = [release_job]"
    and "sent_namespaces past = [\<lparr>ns_Name = UpgradeAcceleratorDefaultNamespace,
                                   ns_Labels = [(''app'', ''upgrade-accelerator'')]\<rparr>]"
    and "sent_config_maps past =
         [release_config_map idle_env fresh_object (json_Marshal (Some release_images))
            (json_Marshal (Some [hd release_images])),
          script_config_map idle_env fresh_object]"
  shows "\<exists>s. run_state (Reconcile (store_env u past) ua_request) (start zero_UpgradeAccelerator) =
             (requeue_1m, s) \<and>
           NodesPreheated (Status (obj s)) = [''a''] \<and> NodesWarming (Status (obj s)) = [] \<and>
           NodesWaiting (Status (obj s)) = [] \<and> LastCompletedVersion (Status (obj s)) = ''4.18.2'' \<and>
           getConditionReason (obj s) CONDITION_TYPE_RUNNING =
             CONDITION_REASON_RUNNING_RECONCILIATION_COMPLETED \<and>
           sent_jobs (trace s) = [] \<and> sent_namespaces (trace s) = [] \<and> sent_config_maps (trace s) = []"
  by (simp add: store_run_defs assms warmed_object_def release_job_def last_update_append sent_append
      DeepEqual_refl release_key_def slice_delete_def)

text \<open>On an API server that keeps what it is sent, two runs of Reconcile take a new
resource to a completed release: the first creates the namespace, the two config maps and the
job of the one node and leaves the node warming; once the job has succeeded, the second run
creates nothing, marks the node preheated and records the release as completed.\<close>

theorem two_runs_complete:
  "\<exists>s1 s2.
     run_state (Reconcile (store_env fresh_object []) ua_request) (start zero_UpgradeAccelerator) =
       (requeue_1m, s1) \<and>
     sent_jobs (trace s1) =
       [node_job idle_env fresh_object UpgradeAcceleratorDefaultNamespace ''a''] \<and>
     sent_namespaces (trace s1) = [\<lparr>ns_Name = UpgradeAcceleratorDefaultNamespace,
                                    ns_Labels = [(''app'', ''upgrade-accelerator'')]\<rparr>] \<and>
     sent_config_maps (trace s1) =
       [release_config_map idle_env fresh_object (json_Marshal (Some release_images))
          (json_Marshal (Some [hd release_images])),
        script_config_map idle_env fresh_object] \<and>
     NodesWarming (Status (obj s1)) = [''a''] \<and> NodesWaiting (Status (obj s1)) = [] \<and>
     run_state (Reconcile (store_env fresh_object (trace s1)) ua_request) (start zero_UpgradeAccelerator) =
       (requeue_1m, s2) \<and>
     sent_jobs (trace s2) = [] \<and> sent_namespaces (trace s2) = [] \<and> sent_config_maps (trace s2) = [] \<and>
     NodesPreheated (Status (obj s2)) = [''a''] \<and> NodesWarming (Status (obj s2)) = [] \<and>
     LastCompletedVersion (Status (obj s2)) = ''4.18.2'' \<and>
     getConditionReason (obj s2) CONDITION_TYPE_RUNNING =
       CONDITION_REASON_RUNNING_RECONCILIATION_COMPLETED"
proof -
  from first_store_run obtain s1 where
    one: "run_state (Reconcile (store_env fresh_object []) ua_request) (start zero_UpgradeAccelerator) =
            (requeue_1m, s1)"
      "obj s1 = warmed_object" and
    past: "last_update fresh_object (trace s1) = warmed_object" "sent_jobs (trace s1) = [release_job]"
      "sent_namespaces (trace s1) = [\<lparr>ns_Name = UpgradeAcceleratorDefaultNamespace,
                                      ns_Labels = [(''app'', ''upgrade-accelerator'')]\<rparr>]"
      "sent_config_maps (trace s1) =
         [release_config_map idle_env fresh_object (json_Marshal (Some release_images))
            (json_Marshal (Some [hd release_images])),
          script_config_map idle_env fresh_object]"
    by blast
  have "NodesWarming (Status (obj s1)) = [''a'']" "NodesWaiting (Status (obj s1)) = []"
    by (simp_all add: one(2) warmed_object_def fresh_object_def zero_defs)
  with one(1) past second_store_run [OF past] show ?thesis
    unfolding release_job_def by blast
qed

text \<open>Both runs are steps of the world.\<close>

definition fresh_world :: world where
  "fresh_world = \<lparr>versions = [fresh_object], jobs = [], past_jobs = []\<rparr>"

lemma fresh_world_runs:
  "\<exists>w. reachable fresh_world w \<and> warmed_object \<in> set (versions w)"
proof -
  let ?E = "store_env fresh_object []"
  from first_store_run obtain s1 where
    run: "run_state (Reconcile ?E ua_request) (start zero_UpgradeAccelerator) = (requeue_1m, s1)"
    and stored: "last_update fresh_object (trace s1) = warmed_object" by blast
  have "serves ?E fresh_world"
    by (rule store_env_serves) (simp_all add: fresh_world_def)
  from world_step.reconcile [OF this, of ua_request zero_UpgradeAccelerator] run
  have "reachable fresh_world (after_calls ?E fresh_world (trace s1))"
    by (auto intro: reachable.intros)
  moreover have "warmed_object \<in> set (versions (after_calls ?E fresh_world (trace s1)))"
    using last_update_sent [of fresh_object "trace s1"] stored
    by (auto simp: after_calls_def fresh_world_def)
  ultimately show ?thesis by blast
qed

theorem reachable_world_witness:
  "\<exists>w. reachable fresh_world w \<and> warmed_object \<in> set (versions w) \<and>
       NodesWarming (Status warmed_object) = [''a''] \<and>
       (\<exists>job \<in> set (past_jobs w). NodeName (job_PodSpec job) = ''a'')"
proof -
  from fresh_world_runs obtain w where
    w: "reachable fresh_world w" "warmed_object \<in> set (versions w)" by blast
  have warming: "NodesWarming (Status warmed_object) = [''a'']"
    by (simp add: warmed_object_def fresh_object_def zero_defs)
  have "\<exists>job \<in> set (past_jobs w). NodeName (job_PodSpec job) = ''a''"
    using reachable_world [OF w(1) _ _ _ w(2)] warming
    by (simp add: fresh_world_def fresh_object_def zero_defs)
  with w warming show ?thesis by blast
qed

end
