(* ===== verification/Batch.thy ===== *)
theory Batch
  imports Scheduling
begin

text \<open>
  The batch of the remaining nodes with parallelism 0, for waiting lists of any length: which
  nodes one run starts while the loop ranges over the array its own removals shift, and that
  repeated runs empty the waiting list all the same.
\<close>

section \<open>Which nodes are started\<close>

text \<open>
  The specification: of every two waiting nodes the first is started and the second skipped, until
  two are left; those are both started, the last through a stale cell of the array.
\<close>

fun batch_started :: "'a list \<Rightarrow> 'a list" where
  "batch_started (x # y # z # rest) = x # batch_started (z # rest)"
| "batch_started w = w"

fun batch_left :: "'a list \<Rightarrow> 'a list" where
  "batch_left (x # y # z # rest) = y # batch_left (z # rest)"
| "batch_left w = []"

lemmas batch_left_induct = batch_left.induct [case_names three none one two]

lemma mset_batch: "mset (batch_started w) + mset (batch_left w) = mset w"
  by (induction w rule: batch_started.induct) auto

lemma length_batch_left: "length (batch_left w) = (length w - 1) div 2"
  by (induction w rule: batch_left.induct) auto

lemma set_batch: "set w = set (batch_started w) \<union> set (batch_left w)"
  using mset_batch [of w] by (metis set_mset_mset set_mset_union)

lemma distinct_batch:
  assumes "distinct w"
  shows "distinct (batch_left w)" "distinct (batch_started w)"
    "set (batch_started w) \<inter> set (batch_left w) = {}"
proof -
  have "distinct (batch_started w @ batch_left w)"
    using assms mset_batch [of w] by (metis mset_append mset_eq_imp_distinct_iff)
  then show "distinct (batch_left w)" "distinct (batch_started w)"
    "set (batch_started w) \<inter> set (batch_left w) = {}" by auto
qed

section \<open>An API server that remembers jobs\<close>

definition job_sent :: "NamespacedName \<Rightarrow> api_call list \<Rightarrow> bool" where
  "job_sent key tr \<longleftrightarrow>
     list_ex (\<lambda>c. case c of
         CreateJob job \<Rightarrow> Namespace (job_Metadata job) = nn_Namespace key \<and>
                          Name (job_Metadata job) = nn_Name key
       | _ \<Rightarrow> False) tr"

definition remembers_jobs :: "env \<Rightarrow> bool" where
  "remembers_jobs E \<longleftrightarrow>
     (\<forall>tr key. if job_sent key tr then \<exists>job. on_GetJob E tr key = Inr job
               else \<exists>err. on_GetJob E tr key = Inl err \<and> IsNotFound err) \<and>
     (\<forall>tr job. on_CreateJob E tr job = None) \<and>
     (\<forall>tr u. \<exists>rv. on_UpdateStatus E tr u = Inr rv)"

lemma remembers_jobsD:
  assumes "remembers_jobs E"
  shows "job_sent key tr \<Longrightarrow> \<exists>job. on_GetJob E tr key = Inr job"
    "\<not> job_sent key tr \<Longrightarrow> \<exists>err. on_GetJob E tr key = Inl err \<and> IsNotFound err"
    "on_CreateJob E tr job = None" "\<exists>rv. on_UpdateStatus E tr u = Inr rv"
  using assms unfolding remembers_jobs_def by (meson, meson, blast, blast)

abbreviation node_key :: "UpgradeAccelerator \<Rightarrow> string \<Rightarrow> string \<Rightarrow> NamespacedName" where
  "node_key u ns n \<equiv> job_key (pull_job_for u ns n)"

lemma node_key_eq [simp]: "node_key u ns n = node_key u ns m \<longleftrightarrow> n = m"
  by (simp add: job_key_def pull_job_for_def)

lemma node_key_version:
  "DesiredVersion (Status u) = DesiredVersion (Status v) \<Longrightarrow> node_key u ns n = node_key v ns n"
  by (simp add: job_key_def pull_job_for_def)

lemma job_sent_append: "job_sent key (tr @ tr') \<longleftrightarrow> job_sent key tr \<or> job_sent key tr'"
  by (simp add: job_sent_def)

lemma job_sent_node:
  "job_sent (node_key u ns m) (node_job_calls E u ns n @ [UpdateStatus v]) \<longleftrightarrow> m = n"
  by (auto simp: job_sent_def jobConstructor_def job_metadata_def job_key_def pull_job_for_def)

lemma job_sent_other [simp]:
  "\<not> job_sent key []" "\<not> job_sent key [GetJob k]" "\<not> job_sent key [UpdateStatus u]"
  "\<not> job_sent key (map UpdateStatus us)"
  by (auto simp: job_sent_def list_ex_iff)

section \<open>One node of the batch\<close>

text \<open>How the state after some iterations, which started \<open>ns\<close>, relates to the one before.\<close>

definition batch_state :: "string \<Rightarrow> go_state \<Rightarrow> string list \<Rightarrow> string list \<Rightarrow> go_state \<Rightarrow> bool" where
  "batch_state ns s started waiting s' \<longleftrightarrow>
     Status (obj s') = (Status (obj s))\<lparr>NodesWarming := NodesWarming (Status (obj s)) @ started,
                                        NodesWaiting := waiting\<rparr> \<and>
     Spec (obj s') = Spec (obj s) \<and>
     (\<forall>n. job_sent (node_key (obj s) ns n) (trace s') \<longleftrightarrow>
          job_sent (node_key (obj s) ns n) (trace s) \<or> n \<in> set started)"

lemma batch_state_refl: "batch_state ns s [] (NodesWaiting (Status (obj s))) s"
  by (simp add: batch_state_def)

lemma batch_state_trans:
  assumes "batch_state ns s a w s'" and "batch_state ns s' b v t"
  shows "batch_state ns s (a @ b) v t"
  using assms node_key_version [of "obj s'" "obj s" ns] by (simp add: batch_state_def)

lemma schedule_new:
  assumes "remembers_jobs E" and "i < length arr" and "n = arr ! i"
    and "n \<in> set (NodesWaiting (Status (obj s)))" and "n \<notin> set (NodesPreheated (Status (obj s)))"
    and "\<not> job_sent (node_key (obj s) ns n) (trace s)"
  shows "\<exists>s'. run_state (schedule_remaining E ns True i arr) s =
             (Next (remove1 n (NodesWaiting (Status (obj s))) @
                    drop (length (remove1 n (NodesWaiting (Status (obj s))))) arr), s') \<and>
           batch_state ns s [n] (remove1 n (NodesWaiting (Status (obj s)))) s'"
proof -
  from remembers_jobsD(2) [OF assms(1,6)] obtain err where
    get: "on_GetJob E (trace s) (node_key (obj s) ns n) = Inl err" "IsNotFound err" by blast
  obtain r s' where run: "run_state (start_job E ns remove_waiting n) s = (r, s')" by (metis surj_pair)
  from start_job_new [OF run get remembers_jobsD(3) [OF assms(1)]] assms(4,5)
  have st: "Status (obj s') = Status (obj s)\<lparr>NodesWarming := NodesWarming (Status (obj s)) @ [n],
                 NodesWaiting := remove1 n (NodesWaiting (Status (obj s)))\<rparr>"
    and tr: "\<exists>u. trace s' = trace s @ node_job_calls E (obj s) ns n @ [UpdateStatus u]"
    by (simp_all split: if_splits)
  have "r = Next True \<and> Spec (obj s') = Spec (obj s)"
    using run get remembers_jobsD(3,4) [OF assms(1)] assms(4,5)
    by (auto simp: run_start_job run_createPullJob_new run_and_then run_remove_waiting run_update_status
        warm_def split: if_splits sum.splits) (metis Inl_Inr_False)+
  moreover from tr have "job_sent (node_key (obj s) ns m) (trace s') \<longleftrightarrow>
      job_sent (node_key (obj s) ns m) (trace s) \<or> m = n" for m
    by (auto simp: job_sent_append [of _ "trace s"] job_sent_node simp del: append_Cons append_Nil)
  ultimately have "batch_state ns s [n] (remove1 n (NodesWaiting (Status (obj s)))) s'"
    using st by (simp add: batch_state_def)
  moreover have "run_state (schedule_remaining E ns True i arr) s =
      (Next (NodesWaiting (Status (obj s')) @ drop (length (NodesWaiting (Status (obj s')))) arr), s')"
    using run \<open>r = Next True \<and> _\<close> assms(3) by (simp add: schedule_remaining_def run_and_then Let_def)
  ultimately show ?thesis using st by auto
qed

lemma schedule_old:
  assumes "remembers_jobs E" and "n = arr ! i"
    and "n \<notin> set (NodesPreheated (Status (obj s)))" and "job_sent (node_key (obj s) ns n) (trace s)"
  shows "\<exists>s'. run_state (schedule_remaining E ns True i arr) s = (Next arr, s') \<and>
           batch_state ns s [] (NodesWaiting (Status (obj s))) s'"
proof -
  from remembers_jobsD(1) [OF assms(1,4)] obtain job where
    "on_GetJob E (trace s) (node_key (obj s) ns n) = Inr job" by blast
  then show ?thesis
    using assms(2,3)
    by (simp add: schedule_remaining_def run_start_job createPullJob_def run_and_then Let_def
        batch_state_def job_sent_append)
qed

text \<open>Cells that hold one node with a job already are passed over.\<close>

lemma schedule_rest_old:
  assumes "remembers_jobs E" and "\<forall>i \<in> set is. arr ! i = n"
    and "n \<notin> set (NodesPreheated (Status (obj s)))" and "job_sent (node_key (obj s) ns n) (trace s)"
  shows "\<exists>s'. run_state (for_range (schedule_remaining E ns True) is arr) s = (Next arr, s') \<and>
           batch_state ns s [] (NodesWaiting (Status (obj s))) s'"
  using assms(2-4)
proof (induction "is" arbitrary: s)
  case Nil
  then show ?case using batch_state_refl by simp
next
  case (Cons i "is")
  from schedule_old [OF assms(1), of n arr i s ns] Cons.prems obtain t where
    one: "run_state (schedule_remaining E ns True i arr) s = (Next arr, t)"
    and t: "batch_state ns s [] (NodesWaiting (Status (obj s))) t" by auto
  have "NodesPreheated (Status (obj t)) = NodesPreheated (Status (obj s))"
    "NodesWaiting (Status (obj t)) = NodesWaiting (Status (obj s))"
    "node_key (obj t) ns n = node_key (obj s) ns n"
    "job_sent (node_key (obj s) ns n) (trace t)"
    using t Cons.prems(3) node_key_version [of "obj t" "obj s"] by (auto simp: batch_state_def)
  with Cons.IH [of t] Cons.prems one show ?case
    using batch_state_trans [OF t] by (auto simp: run_and_then)
qed

section \<open>The whole batch\<close>

text \<open>
  After \<open>i\<close> nodes were started the waiting list is the skipped ones, as many, and the rest; the
  array behind it ends in \<open>i\<close> stale cells with the last node.
\<close>

definition untouched :: "string \<Rightarrow> go_state \<Rightarrow> string list \<Rightarrow> bool" where
  "untouched ns s w \<longleftrightarrow> NodesWaiting (Status (obj s)) = w \<and> distinct w \<and>
     (\<forall>n \<in> set w. n \<notin> set (NodesPreheated (Status (obj s))) \<and>
                  \<not> job_sent (node_key (obj s) ns n) (trace s))"

lemma untouched_step:
  assumes "remembers_jobs E" and "untouched ns s w" and "i < length arr" and "arr ! i \<in> set w"
  shows "\<exists>t. run_state (schedule_remaining E ns True i arr) s =
             (Next (remove1 (arr ! i) w @ drop (length w - 1) arr), t) \<and>
           batch_state ns s [arr ! i] (remove1 (arr ! i) w) t \<and> untouched ns t (remove1 (arr ! i) w)"
proof -
  let ?w = "remove1 (arr ! i) w"
  have "\<exists>t. run_state (schedule_remaining E ns True i arr) s = (Next (?w @ drop (length ?w) arr), t) \<and>
          batch_state ns s [arr ! i] ?w t"
    using schedule_new [OF assms(1,3) refl, of s ns] assms(2,4) by (simp add: untouched_def)
  then obtain t where run: "run_state (schedule_remaining E ns True i arr) s = (Next (?w @ drop (length ?w) arr), t)"
    and t: "batch_state ns s [arr ! i] ?w t" by blast
  have "untouched ns t ?w"
    using assms(2) t node_key_version [of "obj t" "obj s" ns]
    by (auto simp: untouched_def batch_state_def)
  with run t assms(4) show ?thesis by (auto simp: length_remove1)
qed

lemma started_has_job:
  assumes "batch_state ns s started w t" and "untouched ns s v" and "n \<in> set started" and "n \<in> set v"
  shows "n \<notin> set (NodesPreheated (Status (obj t)))" "job_sent (node_key (obj t) ns n) (trace t)"
  using assms node_key_version [of "obj t" "obj s" ns] by (auto simp: batch_state_def untouched_def)

lemma drop_array:
  "rest \<noteq> [] \<Longrightarrow> drop (length (a @ rest) - 1) (a @ rest @ replicate k (last rest)) =
     replicate (Suc k) (last rest)"
  by (cases rest rule: rev_cases) simp_all

lemma batch_loop:
  assumes "remembers_jobs E" and "rest \<noteq> []" and "untouched ns s (skipped @ rest)"
    and "arr = skipped @ rest @ replicate (length skipped) (last rest)"
  shows "\<exists>arr' s'. run_state (for_range (schedule_remaining E ns True) [length skipped..<length arr] arr) s =
             (Next arr', s') \<and> batch_state ns s (batch_started rest) (skipped @ batch_left rest) s'"
  using assms(2-4)
proof (induction rest arbitrary: skipped arr s rule: batch_left_induct)
  case (three x y z rest)
  let ?k = "length skipped" and ?arr = "(skipped @ [y]) @ (z # rest) @ replicate (length (skipped @ [y])) (last (z # rest))"
  have cell: "?k < length arr" "arr ! ?k = x" using three(4) by simp_all
  note range = upt_conv_Cons [OF cell(1)]
  have "x \<notin> set skipped" using three(3) by (simp add: untouched_def)
  then have w: "remove1 x (skipped @ x # y # z # rest) = (skipped @ [y]) @ z # rest"
    by (simp add: remove1_append)
  have "drop (length (skipped @ x # y # z # rest) - 1) arr = replicate (length (skipped @ [y])) (last (z # rest))"
    using drop_array [of "x # y # z # rest" skipped ?k] three(4) by simp
  with untouched_step [OF assms(1) three(3) cell(1)] cell w obtain t where
    run: "run_state (schedule_remaining E ns True ?k arr) s = (Next ?arr, t)"
    and t: "batch_state ns s [x] ((skipped @ [y]) @ z # rest) t" "untouched ns t ((skipped @ [y]) @ z # rest)"
    by auto
  from three(1) [OF _ t(2) refl] obtain arr' s' where
    "run_state (for_range (schedule_remaining E ns True) [length (skipped @ [y])..<length ?arr] ?arr) t = (Next arr', s')"
    and s': "batch_state ns t (batch_started (z # rest)) ((skipped @ [y]) @ batch_left (z # rest)) s'" by auto
  with run range three(4) have "run_state (for_range (schedule_remaining E ns True) [?k..<length arr] arr) s = (Next arr', s')"
    by (simp add: run_and_then)
  with batch_state_trans [OF t(1) s'] show ?case by auto
next
  case none
  then show ?case by simp
next
  case (one z)
  let ?k = "length skipped"
  have cell: "?k < length arr" "arr ! ?k = z" using one(3) by simp_all
  note range = upt_conv_Cons [OF cell(1)]
  have w: "remove1 z (skipped @ [z]) = skipped"
    using one(2) by (simp add: untouched_def remove1_append)
  from untouched_step [OF assms(1) one(2) cell(1)] cell w one(3) obtain t where
    run: "run_state (schedule_remaining E ns True ?k arr) s = (Next arr, t)"
    and t: "batch_state ns s [z] skipped t" by auto
  have stale: "\<forall>i \<in> set [Suc ?k..<length arr]. arr ! i = z"
    using one(3) by (auto simp: nth_append nth_Cons')
  have "NodesWaiting (Status (obj t)) = skipped" using t by (simp add: batch_state_def)
  with schedule_rest_old [OF assms(1) stale started_has_job [OF t one(2)]] obtain s' where
    "run_state (for_range (schedule_remaining E ns True) [Suc ?k..<length arr] arr) t = (Next arr, s')"
    and s': "batch_state ns t [] skipped s'" by auto
  with run range batch_state_trans [OF t s'] show ?case by (auto simp: run_and_then)
next
  case (two x z)
  let ?k = "length skipped"
  let ?arr = "skipped @ z # z # replicate ?k z"
  have cell: "?k < length arr" "Suc ?k < length arr" "arr ! ?k = x" using two(3) by simp_all
  note range = upt_conv_Cons [OF cell(1)] upt_conv_Cons [OF cell(2)]
  have w: "remove1 x (skipped @ [x, z]) = skipped @ [z]" "remove1 z (skipped @ [z]) = skipped"
    using two(2) by (simp_all add: untouched_def remove1_append)
  from untouched_step [OF assms(1) two(2) cell(1)] cell w two(3) obtain t where
    run: "run_state (schedule_remaining E ns True ?k arr) s = (Next ?arr, t)"
    and t: "batch_state ns s [x] (skipped @ [z]) t" "untouched ns t (skipped @ [z])" by auto
  have "?arr ! Suc ?k = z" "Suc ?k < length ?arr" by (simp_all add: nth_append)
  with untouched_step [OF assms(1) t(2), of "Suc ?k" ?arr] w obtain v where
    run2: "run_state (schedule_remaining E ns True (Suc ?k) ?arr) t = (Next ?arr, v)"
    and v: "batch_state ns t [z] skipped v" by auto
  have stale: "\<forall>i \<in> set [Suc (Suc ?k)..<length arr]. ?arr ! i = z"
    using two(3) by (auto simp: nth_append nth_Cons')
  have "NodesWaiting (Status (obj v)) = skipped" using v by (simp add: batch_state_def)
  with schedule_rest_old [OF assms(1) stale started_has_job [OF v t(2)]] obtain s' where
    "run_state (for_range (schedule_remaining E ns True) [Suc (Suc ?k)..<length arr] ?arr) v = (Next ?arr, s')"
    and s': "batch_state ns v [] skipped s'" by auto
  with run run2 range batch_state_trans [OF t(1) batch_state_trans [OF v s']] show ?case
    by (auto simp: run_and_then)
qed

section \<open>One run and many\<close>

lemma setConditionRunning_keeps:
  assumes "run_state (setConditionRunning E reason message) s = (r, s')"
  shows "only_conditions s s'" "may_proceed (obj s') = may_proceed (obj s)"
  using assms getConditionReason_appendCondition
  by (fastforce simp: setConditionRunning_def may_proceed_def condition_type_defs
      intro: only_conditions_appendCondition)+

lemma untouched_only_conditions:
  assumes "only_conditions s s'" and "untouched ns s w"
  shows "untouched ns s' w"
proof -
  from assms(1) obtain us where "trace s' = trace s @ map UpdateStatus us" by (auto simp: only_conditions_def)
  with assms(2) show ?thesis
    using only_conditionsD(2,4,6) [OF assms(1)] node_key_version [of "obj s'" "obj s" ns]
    by (auto simp: untouched_def job_sent_append)
qed

lemma untouched_after_batch:
  assumes "untouched ns s w" and "batch_state ns s (batch_started w) (batch_left w) t"
  shows "untouched ns t (batch_left w)"
  using assms distinct_batch [of w] set_batch [of w] node_key_version [of "obj t" "obj s" ns]
  by (auto simp: untouched_def batch_state_def)

definition batch_done :: "string \<Rightarrow> go_state \<Rightarrow> string list \<Rightarrow> string list \<Rightarrow> go_state \<Rightarrow> bool" where
  "batch_done ns s started waiting s' \<longleftrightarrow>
     untouched ns s' waiting \<and> may_proceed (obj s') \<and> Spec (obj s') = Spec (obj s) \<and>
     NodesWarming (Status (obj s')) = NodesWarming (Status (obj s)) @ started \<and>
     NodesPreheated (Status (obj s')) = NodesPreheated (Status (obj s)) \<and>
     NodesSelected (Status (obj s')) = NodesSelected (Status (obj s)) \<and>
     TargetVersion (Status (obj s')) = TargetVersion (Status (obj s)) \<and>
     DesiredVersion (Status (obj s')) = DesiredVersion (Status (obj s)) \<and>
     (\<forall>n. job_sent (node_key (obj s) ns n) (trace s') \<longleftrightarrow>
          job_sent (node_key (obj s) ns n) (trace s) \<or> n \<in> set started)"

lemma remaining_phase_zero:
  assumes "remembers_jobs E" and "may_proceed (obj s)" and "Parallelism (Spec (obj s)) = 0"
    and "untouched ns s w"
  shows "\<exists>s'. run_state (remaining_phase E ns) s = (Next (), s') \<and>
           batch_done ns s (batch_started w) (batch_left w) s'"
proof -
  have waiting: "NodesWaiting (Status (obj s)) = w" using assms(4) by (simp add: untouched_def)
  then have same: "s\<lparr>obj := obj s\<lparr>Status := Status (obj s)\<lparr>NodesWaiting := w\<rparr>\<rparr>\<rparr> = s" by simp
  have "\<exists>arr t. run_state (for_range (schedule_remaining E ns (w \<noteq> [])) [0..<length w] w) s = (Next arr, t) \<and>
          batch_state ns s (batch_started w) (batch_left w) t"
  proof (cases "w = []")
    case True
    with batch_state_refl [of ns s] waiting show ?thesis by auto
  next
    case False
    with batch_loop [OF assms(1) False, of ns s "[]" w] assms(4) show ?thesis by auto
  qed
  then obtain arr t where
    loop: "run_state (for_range (schedule_remaining E ns (w \<noteq> [])) [0..<length w] w) s = (Next arr, t)"
    and t: "batch_state ns s (batch_started w) (batch_left w) t" by blast
  obtain r s' where cond: "run_state (setConditionRunning E CONDITION_REASON_RUNNING_JOBS_SCHEDULED
      (''Following nodes currently warming: '' @ strings_Join arr '', '')) t = (r, s')" by (metis surj_pair)
  have "next_nodes (obj s) = Some (w, w, w \<noteq> [])"
    using waiting assms(3) by (simp add: next_nodes_def Let_def)
  with loop cond have run: "run_state (remaining_phase E ns) s = (Next (), s')"
    by (simp add: remaining_phase_proceed [OF assms(2)] same run_and_then)
  have "may_proceed (obj t)"
    using assms(2) t by (simp add: may_proceed_def getConditionReason_def batch_state_def)
  moreover have "job_sent key (trace s') = job_sent key (trace t)" for key
    using setConditionRunning_keeps(1) [OF cond] by (auto simp: only_conditions_def job_sent_append)
  ultimately have "batch_done ns s (batch_started w) (batch_left w) s'"
    using setConditionRunning_keeps [OF cond] untouched_only_conditions
      untouched_after_batch [OF assms(4) t] t only_conditionsD [OF setConditionRunning_keeps(1) [OF cond]]
    by (simp add: batch_done_def batch_state_def)
  with run show ?thesis by blast
qed

primrec remaining_runs :: "env \<Rightarrow> string \<Rightarrow> nat \<Rightarrow> unit phase" where
  "remaining_runs E ns 0 = go_on ()"
| "remaining_runs E ns (Suc k) = and_then (remaining_phase E ns) (\<lambda>_. remaining_runs E ns k)"

lemma remaining_runs_drain:
  assumes "remembers_jobs E" and "may_proceed (obj s)" and "Parallelism (Spec (obj s)) = 0"
    and "untouched ns s w" and "length w < 2 ^ k"
  shows "\<exists>s' started. run_state (remaining_runs E ns k) s = (Next (), s') \<and>
           batch_done ns s started [] s' \<and> mset started = mset w"
  using assms(2-)
proof (induction k arbitrary: s w)
  case 0
  then have "batch_done ns s [] [] s" by (simp add: batch_done_def)
  with 0 show ?case by (auto intro: exI [of _ "[]"])
next
  case (Suc k)
  from remaining_phase_zero [OF assms(1) Suc.prems(1-3)] obtain t where
    run: "run_state (remaining_phase E ns) s = (Next (), t)"
    and t: "batch_done ns s (batch_started w) (batch_left w) t" by blast
  have "length (batch_left w) < 2 ^ k"
    using Suc.prems(4) by (simp add: length_batch_left)
  with Suc.IH [of t "batch_left w"] t Suc.prems(2) obtain s' started where
    rest: "run_state (remaining_runs E ns k) t = (Next (), s')"
    and s': "batch_done ns t started [] s'" and started: "mset started = mset (batch_left w)"
    by (auto simp: batch_done_def)
  have "batch_done ns s (batch_started w @ started) [] s'"
    using t s' node_key_version [of "obj t" "obj s" ns] by (simp add: batch_done_def)
  moreover have "mset (batch_started w @ started) = mset w"
    using started mset_batch [of w] by simp
  ultimately show ?case using run rest by (auto simp: run_and_then)
qed

text \<open>C26: With parallelism 0, on an API server that remembers jobs and accepts every
write and has no job of the waiting nodes yet (which are distinct, none preheated), the loop
over the remaining nodes ranges over the array that its own removals shift: of every two waiting
nodes one run starts the first and skips the second, until the last two, which it starts both.
Whatever the length of the list, what is left are the skipped nodes, fewer than half.\<close>

theorem parallelism_zero_halves:
  assumes "remembers_jobs E" and "may_proceed (obj s)" and "Parallelism (Spec (obj s)) = 0"
    and "distinct (NodesWaiting (Status (obj s)))"
    and "set (NodesWaiting (Status (obj s))) \<inter> set (NodesPreheated (Status (obj s))) = {}"
    and "\<forall>n \<in> set (NodesWaiting (Status (obj s))). \<not> job_sent (node_key (obj s) ns n) (trace s)"
  shows "\<exists>s'. run_state (remaining_phase E ns) s = (Next (), s') \<and>
           NodesWaiting (Status (obj s')) = batch_left (NodesWaiting (Status (obj s))) \<and>
           NodesWarming (Status (obj s')) =
             NodesWarming (Status (obj s)) @ batch_started (NodesWaiting (Status (obj s))) \<and>
           length (NodesWaiting (Status (obj s'))) = (length (NodesWaiting (Status (obj s))) - 1) div 2"
proof -
  have "untouched ns s (NodesWaiting (Status (obj s)))"
    using assms(4-6) by (auto simp: untouched_def)
  from remaining_phase_zero [OF assms(1-3) this] show ?thesis
    by (auto simp: batch_done_def untouched_def length_batch_left)
qed

text \<open>C9: The skipped nodes do get their turn: with parallelism 0, on an API server that
remembers the jobs and accepts every write, fewer than 2 ^ k waiting nodes that are pairwise
distinct, none of them preheated and none with a job yet, are all started within k runs of the
section, each once, and the waiting list is empty.\<close>

theorem parallelism_zero_drains:
  assumes "remembers_jobs E" and "may_proceed (obj s)" and "Parallelism (Spec (obj s)) = 0"
    and "distinct (NodesWaiting (Status (obj s)))"
    and "set (NodesWaiting (Status (obj s))) \<inter> set (NodesPreheated (Status (obj s))) = {}"
    and "\<forall>n \<in> set (NodesWaiting (Status (obj s))). \<not> job_sent (node_key (obj s) ns n) (trace s)"
    and "length (NodesWaiting (Status (obj s))) < 2 ^ k"
  shows "\<exists>s' started. run_state (remaining_runs E ns k) s = (Next (), s') \<and>
           NodesWaiting (Status (obj s')) = [] \<and>
           NodesWarming (Status (obj s')) = NodesWarming (Status (obj s)) @ started \<and>
           mset started = mset (NodesWaiting (Status (obj s)))"
proof -
  have "untouched ns s (NodesWaiting (Status (obj s)))"
    using assms(4-6) by (auto simp: untouched_def)
  from remaining_runs_drain [OF assms(1-3) this assms(7)] show ?thesis
    by (auto simp: batch_done_def untouched_def)
qed

text \<open>The proviso is needed: a lone waiting node that has a job already is not taken off the list.\<close>

lemma waiting_node_with_job_stays:
  assumes "remembers_jobs E" and "may_proceed (obj s)" and "Parallelism (Spec (obj s)) = 0"
    and "NodesWaiting (Status (obj s)) = [n]" and "job_sent (node_key (obj s) ns n) (trace s)"
  shows "\<exists>s'. run_state (remaining_phase E ns) s = (Next (), s') \<and>
           NodesWaiting (Status (obj s')) = [n] \<and>
           NodesWarming (Status (obj s')) = NodesWarming (Status (obj s))"
proof -
  from remembers_jobsD(1) [OF assms(1,5)] obtain job where
    "on_GetJob E (trace s) (job_key (pull_job_for (obj s) ns n)) = Inr job" by blast
  from start_job_existing [OF this] obtain cs where
    one: "run_state (start_job E ns remove_waiting n) s = (Next False, s\<lparr>trace := trace s @ cs\<rparr>)" by blast
  have same: "s\<lparr>obj := obj s\<lparr>Status := Status (obj s)\<lparr>NodesWaiting := [n]\<rparr>\<rparr>\<rparr> = s"
    using assms(4) by simp
  obtain r s' where cond: "run_state (setConditionRunning E CONDITION_REASON_RUNNING_JOBS_SCHEDULED
      (''Following nodes currently warming: '' @ strings_Join [n] '', '')) (s\<lparr>trace := trace s @ cs\<rparr>) = (r, s')"
    by (metis surj_pair)
  have "next_nodes (obj s) = Some ([n], [n], True)"
    using assms(3,4) by (simp add: next_nodes_def Let_def)
  with one cond have "run_state (remaining_phase E ns) s = (Next (), s')"
    by (simp add: remaining_phase_proceed [OF assms(2)] same run_and_then schedule_remaining_def)
  with only_conditionsD [OF setConditionRunning_keeps(1) [OF cond]] assms(4) show ?thesis by simp
qed

section \<open>Concrete runs\<close>

lemma job_server_remembers: "remembers_jobs job_server"
  by (simp add: remembers_jobs_def job_server_def job_sent_def idle_env_def not_found_def)

theorem parallelism_zero_halves_witness:
  "\<exists>s'. run_state (remaining_phase job_server ''ns'')
            (start (ready CONDITION_REASON_PRIMER_COMPLETED 0 [''a'', ''b'', ''c''])) = (Next (), s') \<and>
        NodesWarming (Status (obj s')) = [''a'', ''c''] \<and> NodesWaiting (Status (obj s')) = [''b'']"
  using parallelism_zero_halves [OF job_server_remembers,
      of "start (ready CONDITION_REASON_PRIMER_COMPLETED 0 [''a'', ''b'', ''c''])" "''ns''"]
  by (auto simp: zero_Status_def)

theorem parallelism_zero_drains_witness:
  "\<exists>s' started. run_state (remaining_runs job_server ''ns'' 2)
            (start (ready CONDITION_REASON_PRIMER_COMPLETED 0 [''a'', ''b'', ''c''])) = (Next (), s') \<and>
        NodesWaiting (Status (obj s')) = [] \<and> mset started = {#''a'', ''b'', ''c''#} \<and>
        NodesWarming (Status (obj s')) = started"
  using parallelism_zero_drains [OF job_server_remembers,
      of "start (ready CONDITION_REASON_PRIMER_COMPLETED 0 [''a'', ''b'', ''c''])" "''ns''" 2]
  by (auto simp: zero_Status_def)

end
