(* ===== verification/Rollout.thy ===== *)
theory Rollout
  imports Batch Reconcile
begin

text \<open>
  The second half of \<open>Reconcile\<close> run again and again until the release is complete: with
  parallelism 0, on an API server that remembers the jobs, accepts every write and lists the jobs
  it has, whose jobs succeed some time after they were created. Fewer than \<open>2 ^ k\<close> nodes are
  started within \<open>k\<close> runs; the first run after that which finds all jobs succeeded completes the
  release.
\<close>

section \<open>What a run of the scan changes\<close>

text \<open>The calls of a section after its list call: status updates only.\<close>

definition only_updates :: "go_state \<Rightarrow> go_state \<Rightarrow> bool" where
  "only_updates s s' \<longleftrightarrow> (\<exists>us. trace s' = trace s @ map UpdateStatus us)"

lemma only_updates_refl [simp]: "only_updates s s"
  unfolding only_updates_def by (metis append_Nil2 list.simps(8))

lemma only_updates_trans: "only_updates s t \<Longrightarrow> only_updates t u \<Longrightarrow> only_updates s u"
  unfolding only_updates_def by (metis append.assoc map_append)

lemma only_updates_snoc [simp]: "only_updates s (s\<lparr>trace := trace s @ [UpdateStatus u], obj := v\<rparr>)"
  unfolding only_updates_def by (intro exI [of _ "[u]"]) simp

lemma only_updates_jobs: "only_updates s s' \<Longrightarrow> job_sent key (trace s') = job_sent key (trace s)"
  by (auto simp: only_updates_def job_sent_append)

lemma only_updates_length: "only_updates s s' \<Longrightarrow> length (trace s) \<le> length (trace s')"
  by (auto simp: only_updates_def)

lemma only_conditions_updates: "only_conditions s s' \<Longrightarrow> only_updates s s'"
  by (auto simp: only_conditions_def only_updates_def)

lemma update_accepted:
  assumes "remembers_jobs E" and "run_state (update_status E) s = (r, s')"
  shows "r = Next () \<and> Status (obj s') = Status (obj s) \<and> Spec (obj s') = Spec (obj s) \<and> only_updates s s'"
  using assms(2) remembers_jobsD(4) [OF assms(1), of "trace s" "obj s"]
  by (auto simp: run_update_status)

lemma scan_job_accepted:
  assumes "remembers_jobs E" and "run_state (scan_job E job ()) s = (r, s')"
  shows "r = Next () \<and> Spec (obj s') = Spec (obj s) \<and> only_updates s s'"
proof (cases "s' = s \<and> r = Next ()")
  case False
  let ?t = "s\<lparr>obj := (obj s)\<lparr>Status := mark_done (NodeName (job_PodSpec job)) (Status (obj s))\<rparr>\<rparr>"
  from False assms(2) have "run_state (update_status E) ?t = (r, s')"
    by (auto simp: run_scan_job_update Let_def split: if_splits)
  from update_accepted [OF assms(1) this] show ?thesis by (simp add: only_updates_def)
qed simp

lemma scan_loop_accepted:
  assumes "remembers_jobs E"
  shows "\<exists>s'. run_state (for_range (scan_job E) jobs ()) s = (Next (), s') \<and>
           Status (obj s') = fold mark_done (done_nodes jobs) (Status (obj s)) \<and>
           Spec (obj s') = Spec (obj s) \<and> only_updates s s'"
proof -
  have "\<exists>s'. run_state (for_range (scan_job E) jobs ()) s = (Next (), s') \<and>
          Spec (obj s') = Spec (obj s) \<and> only_updates s s'" for s
  proof (induction jobs arbitrary: s)
    case (Cons job jobs)
    obtain r t where one: "run_state (scan_job E job ()) s = (r, t)" by (metis surj_pair)
    from Cons.IH [of t] scan_job_accepted [OF assms one] one show ?case
      by (auto simp: run_and_then intro: only_updates_trans)
  qed simp
  from this [of s] obtain s' where
    run: "run_state (for_range (scan_job E) jobs ()) s = (Next (), s')" and
    s': "Spec (obj s') = Spec (obj s)" "only_updates s s'" by blast
  from scan_loop [OF run] run s' show ?thesis by blast
qed

lemma completion_accepted:
  assumes "remembers_jobs E"
  shows "\<exists>s'. run_state (completion_phase E) s = (Next (), s') \<and> only_updates s s' \<and>
           Spec (obj s') = Spec (obj s) \<and> may_proceed (obj s') = may_proceed (obj s) \<and>
           NodesSelected (Status (obj s')) = NodesSelected (Status (obj s)) \<and>
           NodesWaiting (Status (obj s')) = NodesWaiting (Status (obj s)) \<and>
           NodesWarming (Status (obj s')) = NodesWarming (Status (obj s)) \<and>
           NodesPreheated (Status (obj s')) = NodesPreheated (Status (obj s)) \<and>
           TargetVersion (Status (obj s')) = TargetVersion (Status (obj s)) \<and>
           DesiredVersion (Status (obj s')) = DesiredVersion (Status (obj s))"
proof (cases "all_done (Status (obj s))")
  case True
  obtain e t where set_cond: "run_state (setConditionNotRunning E
      CONDITION_REASON_RUNNING_RECONCILIATION_COMPLETED CONDITION_MESSAGE_COMPLETED) s = (e, t)"
    by (metis surj_pair)
  note c = set_cond [unfolded setConditionNotRunning_def]
  have "e = None"
    using c remembers_jobsD(4) [OF assms]
    by (auto simp: appendCondition_def Let_def run_Status_Update split: sum.splits) (metis Inl_Inr_False)+
  obtain r s' where upd: "run_state (update_status E) (t\<lparr>obj := obj t\<lparr>Status := Status (obj t)
      \<lparr>LastCompletedVersion := TargetVersion (Status (obj t))\<rparr>\<rparr>\<rparr>) = (r, s')" by (metis surj_pair)
  note u = update_accepted [OF assms upd]
  from True set_cond \<open>e = None\<close> upd u have "run_state (completion_phase E) s = (Next (), s')"
    by (auto simp: completion_phase_def Let_def all_done_def)
  moreover have "only_updates t s'" using u by (simp add: only_updates_def)
  then have "only_updates s s'"
    by (rule only_updates_trans [OF only_conditions_updates [OF only_conditions_appendCondition [OF c]]])
  moreover have "may_proceed (obj s') = may_proceed (obj s)"
    using u getConditionReason_appendCondition [OF c]
    by (simp add: may_proceed_def getConditionReason_def condition_type_defs fun_eq_iff)
  ultimately show ?thesis
    using u only_conditionsD [OF only_conditions_appendCondition [OF c]] by simp
next
  case False
  then have "run_state (completion_phase E) s = (Next (), s)"
    by (auto simp: completion_phase_def Let_def all_done_def)
  then show ?thesis by auto
qed

lemma distinct_fold_remove1: "distinct w \<Longrightarrow> distinct (fold remove1 ns w)"
  by (induction ns arbitrary: w) auto

text \<open>No section takes calls back: a further instance of the contract of the runs.\<close>

interpretation grows: job_invariant E "\<lambda>s. N \<le> length (trace s)" "\<lambda>_. True" for E N
  by unfold_locales (auto intro!: keepsI simp: run_Status_Update split: sum.splits)

section \<open>One run\<close>

text \<open>
  The jobs the API server lists: those of the nodes that have been sent one, and once all nodes
  have one and the trace is at least \<open>N\<close> calls long, all of them have succeeded.
\<close>

definition lists_node_jobs ::
  "env \<Rightarrow> string \<Rightarrow> OpenShiftClusterVersionState \<Rightarrow> UpgradeAccelerator \<Rightarrow> nat \<Rightarrow> bool" where
  "lists_node_jobs E ns cvs u N \<longleftrightarrow>
     (let nodes = set (NodesSelected (Status u)); sent = (\<lambda>tr n. job_sent (node_key u ns n) tr)
      in \<forall>tr. \<exists>jobs. on_ListJobs E tr ns [(''pull-job/release'', cvs_DesiredVersion cvs)] = Inr jobs \<and>
           (\<lambda>job. NodeName (job_PodSpec job)) ` set jobs = {n \<in> nodes. sent tr n} \<and>
           (N \<le> length tr \<and> (\<forall>n \<in> nodes. sent tr n) \<longrightarrow> nodes \<subseteq> set (done_nodes jobs)))"

text \<open>A state on the way from \<open>u\<close>: every selected node is in one list, and those not waiting have a job.\<close>

definition rolling :: "string \<Rightarrow> UpgradeAccelerator \<Rightarrow> go_state \<Rightarrow> bool" where
  "rolling ns u s \<longleftrightarrow>
     (let st = Status (obj s); nodes = NodesWaiting st @ NodesWarming st @ NodesPreheated st
      in Spec (obj s) = Spec u \<and> NodesSelected st = NodesSelected (Status u) \<and>
         TargetVersion st = TargetVersion (Status u) \<and> DesiredVersion st = DesiredVersion (Status u) \<and>
         may_proceed (obj s) \<and> distinct nodes \<and> set nodes = set (NodesSelected (Status u)) \<and>
         (\<forall>n \<in> set nodes. job_sent (node_key u ns n) (trace s) \<longleftrightarrow> n \<notin> set (NodesWaiting st)))"

lemma rolling_remaining:
  assumes "remembers_jobs E" and "Parallelism (Spec u) = 0" and "rolling ns u s"
  shows "\<exists>s'. run_state (remaining_phase E ns) s = (Next (), s') \<and> rolling ns u s' \<and>
           NodesWaiting (Status (obj s')) = batch_left (NodesWaiting (Status (obj s)))"
proof -
  let ?w = "NodesWaiting (Status (obj s))"
  have key: "node_key (obj s) ns n = node_key u ns n" for n
    using assms(3) node_key_version [of "obj s" u] by (simp add: rolling_def Let_def)
  have "untouched ns s ?w"
    using assms(3) by (auto simp: untouched_def rolling_def Let_def key)
  moreover have "may_proceed (obj s)" "Parallelism (Spec (obj s)) = 0"
    using assms(2,3) by (simp_all add: rolling_def Let_def)
  ultimately obtain s' where
    run: "run_state (remaining_phase E ns) s = (Next (), s')" and
    s': "batch_done ns s (batch_started ?w) (batch_left ?w) s'"
    using remaining_phase_zero [OF assms(1)] by blast
  have "distinct ?w" using assms(3) by (simp add: rolling_def Let_def)
  note w = distinct_batch [OF this] set_batch [of ?w]
  have "rolling ns u s'"
    using assms(3) s' w by (auto simp: rolling_def Let_def batch_done_def untouched_def key)
  with run s' show ?thesis by (auto simp: batch_done_def untouched_def)
qed

lemma scan_lists:
  assumes "remembers_jobs E" and "lists_node_jobs E ns cvs u N" and "rolling ns u s"
  shows "\<exists>s'. run_state (scan_phase E ns cvs) s = (Next (), s') \<and> rolling ns u s' \<and>
           NodesWaiting (Status (obj s')) = NodesWaiting (Status (obj s)) \<and>
           length (trace s) < length (trace s') \<and>
           (NodesWaiting (Status (obj s)) = [] \<and> N \<le> length (trace s) \<longrightarrow>
              NodesWarming (Status (obj s')) = [])"
proof -
  let ?labels = "[(''pull-job/release'', cvs_DesiredVersion cvs)]"
  let ?nodes = "set (NodesSelected (Status u))"
  let ?t = "s\<lparr>trace := trace s @ [ListJobs ns ?labels]\<rparr>"
  let ?st = "Status (obj s)"
  from assms(2) obtain jobs where
    answer: "on_ListJobs E (trace s) ns ?labels = Inr jobs" and
    listed: "(\<lambda>job. NodeName (job_PodSpec job)) ` set jobs =
      {n \<in> ?nodes. job_sent (node_key u ns n) (trace s)}" and
    finished: "N \<le> length (trace s) \<and> (\<forall>n \<in> ?nodes. job_sent (node_key u ns n) (trace s)) \<longrightarrow>
      ?nodes \<subseteq> set (done_nodes jobs)"
    unfolding lists_node_jobs_def Let_def by blast
  have sent: "{n \<in> ?nodes. job_sent (node_key u ns n) (trace s)} =
      set (NodesWarming ?st) \<union> set (NodesPreheated ?st)"
    using assms(3) by (auto simp: rolling_def Let_def)
  have sent_t: "job_sent key (trace ?t) = job_sent key (trace s)" for key
    by (simp add: job_sent_def)
  show ?thesis
  proof (cases "jobs = []")
    case True
    with listed sent have none: "NodesWarming ?st = []" by simp
    with True answer have "run_state (scan_phase E ns cvs) s = (Next (), ?t)"
      by (simp add: scan_phase_def Let_def reset_warming_def)
    moreover have "rolling ns u ?t" using assms(3) sent_t by (simp add: rolling_def Let_def)
    ultimately show ?thesis using none by simp
  next
    case False
    from scan_loop_accepted [OF assms(1), of jobs ?t] obtain s' where
      loop: "run_state (for_range (scan_job E) jobs ()) ?t = (Next (), s')" and
      s': "Status (obj s') = fold mark_done (done_nodes jobs) ?st" "Spec (obj s') = Spec (obj s)"
        "only_updates ?t s'" by auto
    from loop False answer have run: "run_state (scan_phase E ns cvs) s = (Next (), s')"
      by (simp add: scan_phase_def Let_def)
    note f = fold_mark_done [of "done_nodes jobs" ?st]
    have "distinct (NodesWarming ?st)" using assms(3) by (simp add: rolling_def Let_def)
    note warm = this distinct_fold_remove1 [OF this, of "done_nodes jobs"]
      fold_remove1_set [OF this, of "done_nodes jobs"]
    have "set (done_nodes jobs) \<subseteq> set (NodesWarming ?st) \<union> set (NodesPreheated ?st)"
      using listed sent by (auto simp: done_nodes_def)
    moreover have "DesiredVersion (fold mark_done ns st) = DesiredVersion st" for ns st
      by (induction ns arbitrary: st) (simp_all add: mark_done_def)
    moreover have "may_proceed (obj s') = may_proceed (obj s)"
    proof -
      have "Conditions (fold mark_done ns st) = Conditions st" for ns st
        by (induction ns arbitrary: st) (simp_all add: mark_done_def)
      then show ?thesis by (simp add: may_proceed_def getConditionReason_def s'(1))
    qed
    ultimately have "rolling ns u s'"
      using assms(3) s' f warm only_updates_jobs [OF s'(3)] sent_t
      by (auto simp: rolling_def Let_def)
    moreover have "NodesWarming (Status (obj s')) = []" if "NodesWaiting ?st = []" "N \<le> length (trace s)"
    proof -
      have "\<forall>n \<in> ?nodes. job_sent (node_key u ns n) (trace s)"
        using assms(3) that(1) by (auto simp: rolling_def Let_def)
      with finished that(2) have "?nodes \<subseteq> set (done_nodes jobs)" by blast
      moreover have "set (NodesWarming ?st) \<subseteq> ?nodes" using assms(3) by (auto simp: rolling_def Let_def)
      ultimately show ?thesis using s'(1) f warm(3) by (metis Diff_eq_empty_iff order_trans set_empty)
    qed
    ultimately show ?thesis using run s'(1) f only_updates_length [OF s'(3)] by auto
  qed
qed

text \<open>One run of the sections after the setup, priming being off.\<close>

lemma rolling_run:
  assumes "remembers_jobs E" and "lists_node_jobs E ns cvs u N" and "Parallelism (Spec u) = 0"
    and "set targeted \<subseteq> set (NodesSelected (Status u))" and "rolling ns u s"
  shows "\<exists>s'. run_state (work_phases E req cvs targeted [] ns) s = (Next (), s') \<and> rolling ns u s' \<and>
           NodesWaiting (Status (obj s')) = batch_left (NodesWaiting (Status (obj s))) \<and>
           length (trace s) < length (trace s') \<and>
           (batch_left (NodesWaiting (Status (obj s))) = [] \<and> N \<le> length (trace s) \<and>
            distinct (NodesSelected (Status u)) \<longrightarrow>
              NodesWarming (Status (obj s')) = [] \<and>
              LastCompletedVersion (Status (obj s')) = TargetVersion (Status u) \<and>
              getConditionReason (obj s') CONDITION_TYPE_RUNNING =
                CONDITION_REASON_RUNNING_RECONCILIATION_COMPLETED)"
proof -
  have waiting: "run_state (waiting_phase E targeted) s = (Next (), s)"
  proof -
    have "set targeted - set (NodesWarming (Status (obj s))) - set (NodesPreheated (Status (obj s))) -
        set (NodesWaiting (Status (obj s))) = {}"
      using assms(4,5) by (auto simp: rolling_def Let_def)
    with fill_waiting_spec [of "NodesWarming (Status (obj s))" "NodesPreheated (Status (obj s))" targeted
        "NodesWaiting (Status (obj s))" False]
    show ?thesis by (auto simp: waiting_phase_def Let_def)
  qed
  have primers: "run_state (primer_phase E ns []) s = (Next (), s)" by (simp add: primer_phase_def)
  from rolling_remaining [OF assms(1,3,5)] obtain t where
    rem: "run_state (remaining_phase E ns) s = (Next (), t)" and t: "rolling ns u t"
      "NodesWaiting (Status (obj t)) = batch_left (NodesWaiting (Status (obj s)))" by blast
  from scan_lists [OF assms(1,2) t(1)] obtain v where
    scan: "run_state (scan_phase E ns cvs) t = (Next (), v)" and v: "rolling ns u v"
      "NodesWaiting (Status (obj v)) = NodesWaiting (Status (obj t))"
      "length (trace t) < length (trace v)"
      "NodesWaiting (Status (obj t)) = [] \<and> N \<le> length (trace t) \<longrightarrow>
         NodesWarming (Status (obj v)) = []" by blast
  from completion_accepted [OF assms(1), of v] obtain s' where
    fin: "run_state (completion_phase E) v = (Next (), s')" and s': "only_updates v s'"
      "Spec (obj s') = Spec (obj v)" "may_proceed (obj s') = may_proceed (obj v)"
      "NodesSelected (Status (obj s')) = NodesSelected (Status (obj v))"
      "NodesWaiting (Status (obj s')) = NodesWaiting (Status (obj v))"
      "NodesWarming (Status (obj s')) = NodesWarming (Status (obj v))"
      "NodesPreheated (Status (obj s')) = NodesPreheated (Status (obj v))"
      "TargetVersion (Status (obj s')) = TargetVersion (Status (obj v))"
      "DesiredVersion (Status (obj s')) = DesiredVersion (Status (obj v))" by blast
  have run: "run_state (work_phases E req cvs targeted [] ns) s = (Next (), s')"
    using waiting primers rem scan fin by (simp add: work_phases_def run_and_then)
  have rolling: "rolling ns u s'"
    using v(1) s' only_updates_jobs [OF s'(1)] by (simp add: rolling_def Let_def)
  have longer: "length (trace s) \<le> length (trace t)"
    by (rule keeps_run [OF grows.I_scheduling(3) rem]) simp_all
  have complete: "all_done (Status (obj v))"
    if "batch_left (NodesWaiting (Status (obj s))) = []" "N \<le> length (trace s)"
      "distinct (NodesSelected (Status u))"
  proof -
    have empty: "NodesWaiting (Status (obj v)) = []" "NodesWarming (Status (obj v)) = []"
      using that t(2) v(2,4) longer by simp_all
    then have "set (NodesPreheated (Status (obj v))) = set (NodesSelected (Status (obj v)))"
      "distinct (NodesPreheated (Status (obj v)))" "distinct (NodesSelected (Status (obj v)))"
      using v(1) that(3) by (simp_all add: rolling_def Let_def)
    with empty show ?thesis by (metis all_done_def distinct_card)
  qed
  have "TargetVersion (Status (obj v)) = TargetVersion (Status u)"
    using v(1) by (simp add: rolling_def Let_def)
  with run rolling t v s' longer complete completion_phase_run [OF fin] only_updates_length [OF s'(1)]
  show ?thesis by (auto simp: all_done_def)
qed

section \<open>Run after run\<close>

primrec work_runs ::
  "env \<Rightarrow> NamespacedName \<Rightarrow> OpenShiftClusterVersionState \<Rightarrow> string list \<Rightarrow> string \<Rightarrow> nat \<Rightarrow> unit phase" where
  "work_runs E req cvs targeted ns 0 = go_on ()"
| "work_runs E req cvs targeted ns (Suc m) =
     and_then (work_runs E req cvs targeted ns m) (\<lambda>_. work_phases E req cvs targeted [] ns)"

lemma rolling_runs:
  assumes "remembers_jobs E" and "lists_node_jobs E ns cvs u N" and "Parallelism (Spec u) = 0"
    and "set targeted \<subseteq> set (NodesSelected (Status u))" and "rolling ns u s"
    and "length (NodesWaiting (Status (obj s))) < 2 ^ k"
  shows "\<exists>s'. run_state (work_runs E req cvs targeted ns m) s = (Next (), s') \<and> rolling ns u s' \<and>
           length (NodesWaiting (Status (obj s'))) < 2 ^ (k - m) \<and> m \<le> length (trace s')"
proof (induction m)
  case 0
  with assms(5,6) show ?case by simp
next
  case (Suc m)
  then obtain t where run: "run_state (work_runs E req cvs targeted ns m) s = (Next (), t)"
    and t: "rolling ns u t" "length (NodesWaiting (Status (obj t))) < 2 ^ (k - m)"
      "m \<le> length (trace t)" by blast
  have half: "length (batch_left (NodesWaiting (Status (obj t)))) < 2 ^ (k - Suc m)"
  proof (cases "m < k")
    case True
    then have "k - m = Suc (k - Suc m)" by simp
    with t(2) show ?thesis by (simp add: length_batch_left)
  next
    case False
    with t(2) show ?thesis by simp
  qed
  from rolling_run [OF assms(1-4) t(1), of req] run half t(3) show ?case
    by (fastforce simp: run_and_then)
qed

text \<open>C10: Releases complete: with parallelism 0 and priming off, repeated runs of the
sections after the setup, each on the status the one before left, record the release as
completed, with all selected nodes preheated, none waiting or warming, LastCompletedVersion the
target version and the Running reason ReconciliationCompleted. Fewer than 2 ^ k waiting nodes
and jobs that have all succeeded once every node has one and N calls have been made take k + N +
1 runs at most. Provided the API server remembers jobs, accepts every write and lists the jobs
it has, the targets are the selected nodes, each of them is in exactly one of the three lists,
and exactly those not waiting have a job.\<close>

theorem release_completes:
  assumes "remembers_jobs E" and "lists_node_jobs E ns cvs (obj s) N"
    and "Parallelism (Spec (obj s)) = 0" and "may_proceed (obj s)"
    and "set targeted \<subseteq> set (NodesSelected (Status (obj s)))"
    and "distinct (NodesSelected (Status (obj s)))"
    and "distinct (NodesWaiting (Status (obj s)) @ NodesWarming (Status (obj s)) @
                   NodesPreheated (Status (obj s)))"
    and "set (NodesWaiting (Status (obj s)) @ NodesWarming (Status (obj s)) @
              NodesPreheated (Status (obj s))) = set (NodesSelected (Status (obj s)))"
    and "\<forall>n \<in> set (NodesSelected (Status (obj s))).
           job_sent (node_key (obj s) ns n) (trace s) \<longleftrightarrow> n \<notin> set (NodesWaiting (Status (obj s)))"
    and "length (NodesWaiting (Status (obj s))) < 2 ^ k"
  shows "\<exists>s'. run_state (work_runs E req cvs targeted ns (k + N + 1)) s = (Next (), s') \<and>
           LastCompletedVersion (Status (obj s')) = TargetVersion (Status (obj s)) \<and>
           getConditionReason (obj s') CONDITION_TYPE_RUNNING =
             CONDITION_REASON_RUNNING_RECONCILIATION_COMPLETED \<and>
           set (NodesPreheated (Status (obj s'))) = set (NodesSelected (Status (obj s))) \<and>
           NodesWaiting (Status (obj s')) = [] \<and> NodesWarming (Status (obj s')) = []"
proof -
  have s: "rolling ns (obj s) s" using assms(4,7-9) by (simp add: rolling_def Let_def)
  from rolling_runs [OF assms(1-3,5) s assms(10), of req "k + N"] obtain t where
    run: "run_state (work_runs E req cvs targeted ns (k + N)) s = (Next (), t)" and
    t: "rolling ns (obj s) t" "length (NodesWaiting (Status (obj t))) < 2 ^ (k - (k + N))"
      "k + N \<le> length (trace t)" by blast
  then have "NodesWaiting (Status (obj t)) = []" "N \<le> length (trace t)" by simp_all
  with rolling_run [OF assms(1-3,5) t(1), of req] run assms(6) obtain s' where
    "run_state (work_runs E req cvs targeted ns (k + N + 1)) s = (Next (), s')" and
    s': "rolling ns (obj s) s'" "NodesWaiting (Status (obj s')) = []" "NodesWarming (Status (obj s')) = []"
      "LastCompletedVersion (Status (obj s')) = TargetVersion (Status (obj s))"
      "getConditionReason (obj s') CONDITION_TYPE_RUNNING =
         CONDITION_REASON_RUNNING_RECONCILIATION_COMPLETED"
    by (auto simp: run_and_then)
  then show ?thesis by (auto simp: rolling_def Let_def)
qed

section \<open>A concrete rollout\<close>

text \<open>Three nodes, whose jobs are listed as succeeded from their creation on.\<close>

definition rollout_object :: UpgradeAccelerator where
  "rollout_object = (ready CONDITION_REASON_PRIMER_COMPLETED 0 [''a'', ''b'', ''c''])\<lparr>
     Status := Status (ready CONDITION_REASON_PRIMER_COMPLETED 0 [''a'', ''b'', ''c''])
       \<lparr>NodesSelected := [''a'', ''b'', ''c''], TargetVersion := ''4.18.2''\<rparr>\<rparr>"

definition rollout_server :: env where
  "rollout_server = job_server\<lparr>on_ListJobs := (\<lambda>tr ns labels.
     Inr (map finished_job (filter (\<lambda>n. job_sent (node_key rollout_object ''ns'' n) tr)
            [''a'', ''b'', ''c''])))\<rparr>"

lemma rollout_object_simps [simp]:
  "NodesWaiting (Status rollout_object) = [''a'', ''b'', ''c'']"
  "NodesWarming (Status rollout_object) = []" "NodesPreheated (Status rollout_object) = []"
  "NodesSelected (Status rollout_object) = [''a'', ''b'', ''c'']"
  "TargetVersion (Status rollout_object) = ''4.18.2''" "Parallelism (Spec rollout_object) = 0"
  by (simp_all add: rollout_object_def zero_Status_def)

lemma rollout_may_proceed: "may_proceed rollout_object"
  by (simp add: rollout_object_def may_proceed_def getConditionReason_def mk_condition_def)

lemma rollout_server_jobs:
  "remembers_jobs rollout_server" "lists_node_jobs rollout_server ''ns'' some_release rollout_object 0"
proof -
  show "remembers_jobs rollout_server"
    using job_server_remembers by (simp add: remembers_jobs_def rollout_server_def)
  show "lists_node_jobs rollout_server ''ns'' some_release rollout_object 0"
    by (auto simp: lists_node_jobs_def rollout_server_def image_image simp del: filter.simps)
qed

theorem release_completes_witness:
  "\<exists>s'. run_state (work_runs rollout_server \<lparr>nn_Namespace = [], nn_Name = ''ua''\<rparr> some_release
            [''c'', ''a'', ''b''] ''ns'' 3) (start rollout_object) = (Next (), s') \<and>
        LastCompletedVersion (Status (obj s')) = ''4.18.2'' \<and>
        set (NodesPreheated (Status (obj s'))) = {''a'', ''b'', ''c''}"
  using release_completes [OF rollout_server_jobs(1), of "''ns''" some_release "start rollout_object" 0
      "[''c'', ''a'', ''b'']" 2 "\<lparr>nn_Namespace = [], nn_Name = ''ua''\<rparr>"]
    rollout_server_jobs(2) rollout_may_proceed
  by (auto simp: numeral_3_eq_3 eval_nat_numeral)

end
