(* ===== verification/Manager.thy ===== *)
theory Manager
  imports ClusterState
begin

text \<open>
  \<open>internal/controller/upgradeaccelerator_manager.go\<close> and \<open>ignoreDeletionPredicate\<close>: which
  events reach the reconciler and which requests a watched object is mapped to. An event holds
  objects with their \<open>metadata.generation\<close>; controller-runtime lets an event through when every
  filter accepts it, asked in the order they were added. A failed type assertion panics.
\<close>

section \<open>Events\<close>

datatype kind_object =
    AnUpgradeAccelerator UpgradeAccelerator
  | AConfigMap ConfigMap
  | AJob Job
  | AClusterVersion ClusterVersion
  | AClusterOperator ClusterOperator

record client_Object =
  GetGeneration :: int
  object :: kind_object

record UpdateEvent =
  ObjectOld :: client_Object
  ObjectNew :: client_Object

record DeleteEvent =
  Object :: client_Object
  DeleteStateUnknown :: bool

section \<open>Filters\<close>

definition ignoreDeletion_UpdateFunc :: "UpdateEvent \<Rightarrow> bool result" where
  "ignoreDeletion_UpdateFunc e =
     Ok (GetGeneration (ObjectOld e) \<noteq> GetGeneration (ObjectNew e))"

definition ignoreDeletion_DeleteFunc :: "DeleteEvent \<Rightarrow> bool" where
  "ignoreDeletion_DeleteFunc e = (\<not> DeleteStateUnknown e)"

definition clusterVersion_UpdateFunc :: "UpdateEvent \<Rightarrow> bool result" where
  "clusterVersion_UpdateFunc e =
     (case object (ObjectNew e) of
        AClusterVersion new \<Rightarrow>
          (case object (ObjectOld e) of
             AClusterVersion old \<Rightarrow> Ok (hasClusterVersionChanged (Some old) (Some new))
           | _ \<Rightarrow> Panic ''interface conversion'')
      | _ \<Rightarrow> Ok True)"

definition clusterOperator_UpdateFunc :: "UpdateEvent \<Rightarrow> bool result" where
  "clusterOperator_UpdateFunc e =
     (case object (ObjectNew e) of
        AClusterOperator new \<Rightarrow>
          (case object (ObjectOld e) of
             AClusterOperator old \<Rightarrow>
               Ok (hasMachineConfigClusterOperatorChanged (Some old) (Some new))
           | _ \<Rightarrow> Panic ''interface conversion'')
      | _ \<Rightarrow> Ok True)"

fun all_filters :: "('e \<Rightarrow> bool result) list \<Rightarrow> 'e \<Rightarrow> bool result" where
  "all_filters [] e = Ok True"
| "all_filters (p # ps) e =
     (case p e of Ok True \<Rightarrow> all_filters ps e | r \<Rightarrow> r)"

definition update_filters :: "(UpdateEvent \<Rightarrow> bool result) list" where
  "update_filters =
     [clusterVersion_UpdateFunc, clusterOperator_UpdateFunc, ignoreDeletion_UpdateFunc]"

section \<open>Requests\<close>

text \<open>
  The two map functions: one request per custom resource, when the watched object has the kind
  the watch is for; none when the list call fails.
\<close>

fun requests :: "UpgradeAccelerator list \<Rightarrow> NamespacedName list \<Rightarrow> NamespacedName list" where
  "requests [] reconcileRequests = reconcileRequests"
| "requests (ua # uas) reconcileRequests =
     requests uas
       (reconcileRequests @ [\<lparr>nn_Namespace = Namespace (Metadata ua), nn_Name = Name (Metadata ua)\<rparr>])"

definition list_requests :: "env \<Rightarrow> bool \<Rightarrow> NamespacedName list go" where
  "list_requests E ok = do {
     r \<leftarrow> perform ListUpgradeAccelerators (\<lambda>tr. on_ListUpgradeAccelerators E tr);
     State_Monad.return
       (case r of
          Inl err \<Rightarrow> []
        | Inr items \<Rightarrow> if ok then requests items [] else [])
   }"

definition mapClusterVersion :: "env \<Rightarrow> kind_object \<Rightarrow> NamespacedName list go" where
  "mapClusterVersion E ob =
     list_requests E (case ob of AClusterVersion _ \<Rightarrow> True | _ \<Rightarrow> False)"

definition mapClusterOperator :: "env \<Rightarrow> kind_object \<Rightarrow> NamespacedName list go" where
  "mapClusterOperator E ob =
     list_requests E (case ob of AClusterOperator _ \<Rightarrow> True | _ \<Rightarrow> False)"

section \<open>The controller\<close>

text \<open>
  What \<open>SetupWithManager\<close> hands to the builder: the reconciled kind, the owned kinds, the watches
  with their map functions, the filters and the name.
\<close>

datatype kind = UpgradeAcceleratorKind | ConfigMapKind | JobKind | ClusterVersionKind | ClusterOperatorKind

fun kind_of :: "kind_object \<Rightarrow> kind" where
  "kind_of (AnUpgradeAccelerator _) = UpgradeAcceleratorKind"
| "kind_of (AConfigMap _) = ConfigMapKind"
| "kind_of (AJob _) = JobKind"
| "kind_of (AClusterVersion _) = ClusterVersionKind"
| "kind_of (AClusterOperator _) = ClusterOperatorKind"

record controller =
  For :: kind
  Owns :: "kind list"
  Watches :: "(kind \<times> (kind_object \<Rightarrow> NamespacedName list go)) list"
  UpdateFuncs :: "(UpdateEvent \<Rightarrow> bool result) list"
  DeleteFuncs :: "(DeleteEvent \<Rightarrow> bool) list"
  Named :: string

definition SetupWithManager :: "env \<Rightarrow> controller" where
  "SetupWithManager E =
     \<lparr>For = UpgradeAcceleratorKind,
      Owns = [ConfigMapKind, JobKind],
      Watches = [(ClusterVersionKind, mapClusterVersion E), (ClusterOperatorKind, mapClusterOperator E)],
      UpdateFuncs = update_filters,
      DeleteFuncs = [ignoreDeletion_DeleteFunc],
      Named = ''upgradeaccelerator''\<rparr>"

section \<open>Which events pass\<close>

lemma requests_eq:
  "requests uas acc =
     acc @ map (\<lambda>ua. \<lparr>nn_Namespace = Namespace (Metadata ua), nn_Name = Name (Metadata ua)\<rparr>) uas"
  by (induction uas arbitrary: acc) auto

text \<open>A watch delivers the old and the new version of one object.\<close>

definition same_kind :: "kind_object \<Rightarrow> kind_object \<Rightarrow> bool" where
  "same_kind old new =
     (case new of
        AClusterVersion _ \<Rightarrow> (case old of AClusterVersion _ \<Rightarrow> True | _ \<Rightarrow> False)
      | AClusterOperator _ \<Rightarrow> (case old of AClusterOperator _ \<Rightarrow> True | _ \<Rightarrow> False)
      | _ \<Rightarrow> True)"

text \<open>What an accepted update of each kind has changed, besides its generation.\<close>

definition relevant_change :: "kind_object \<Rightarrow> kind_object \<Rightarrow> bool" where
  "relevant_change old new =
     (case (old, new) of
        (AClusterVersion o_cv, AClusterVersion n_cv) \<Rightarrow>
          cv_DesiredVersion o_cv \<noteq> cv_DesiredVersion n_cv
      | (AClusterOperator o_co, AClusterOperator n_co) \<Rightarrow>
          co_Name o_co = ''machine-config'' \<and>
          matched_version (co_Versions o_co) [] \<noteq> [] \<and>
          matched_version (co_Versions n_co) [] \<noteq> [] \<and>
          matched_version (co_Versions o_co) [] \<noteq> matched_version (co_Versions n_co) []
      | _ \<Rightarrow> True)"

lemma update_filters_eq:
  assumes "same_kind (object (ObjectOld e)) (object (ObjectNew e))"
  shows "all_filters update_filters e =
           Ok (relevant_change (object (ObjectOld e)) (object (ObjectNew e)) \<and>
               GetGeneration (ObjectOld e) \<noteq> GetGeneration (ObjectNew e))"
  using assms
  by (auto simp: update_filters_def clusterVersion_UpdateFunc_def clusterOperator_UpdateFunc_def
      ignoreDeletion_UpdateFunc_def same_kind_def relevant_change_def hasClusterVersionChanged_def
      hasMachineConfigClusterOperatorChanged_def Let_def
      split: kind_object.splits bool.splits)

text \<open>For an update event between objects of one kind the three event filters never
panic and together let it through exactly when it is a relevant change (of a ClusterVersion's
desired version, of the machine-config operator's version, or any other kind) and the generation
has changed.\<close>

theorem update_filters_spec:
  assumes "same_kind (object (ObjectOld e)) (object (ObjectNew e))"
  shows "all_filters update_filters e =
           Ok (relevant_change (object (ObjectOld e)) (object (ObjectNew e)) \<and>
               GetGeneration (ObjectOld e) \<noteq> GetGeneration (ObjectNew e))"
  using assms by (rule update_filters_eq)

definition mco_at :: "string \<Rightarrow> client_Object" where
  "mco_at version = \<lparr>GetGeneration = 1, object = AClusterOperator
     \<lparr>co_Name = ''machine-config'', co_Versions = [\<lparr>ov_Name = ''operator'', ov_Version = version\<rparr>]\<rparr>\<rparr>"

theorem update_filters_spec_witness:
  "all_filters update_filters \<lparr>ObjectOld = mco_at ''4.18.1'', ObjectNew = mco_at ''4.18.2''\<rparr> =
     Ok (relevant_change (object (mco_at ''4.18.1'')) (object (mco_at ''4.18.2'')) \<and> (1 :: int) \<noteq> 1)"
  using update_filters_spec [of "\<lparr>ObjectOld = mco_at ''4.18.1'', ObjectNew = mco_at ''4.18.2''\<rparr>"]
  by (simp add: same_kind_def mco_at_def)

text \<open>The filters are conjoined, so a change of the reported version that the watches
are meant for is dropped when it does not change the generation, as updates of a status
subresource do not.\<close>

theorem version_change_dropped:
  "\<exists>old new. relevant_change (object old) (object new) \<and>
     all_filters update_filters \<lparr>ObjectOld = old, ObjectNew = new\<rparr> = Ok False"
proof (intro exI conjI)
  show "relevant_change (object (mco_at ''4.18.1'')) (object (mco_at ''4.18.2''))" by code_simp
  show "all_filters update_filters \<lparr>ObjectOld = mco_at ''4.18.1'', ObjectNew = mco_at ''4.18.2''\<rparr> =
          Ok False" by code_simp
qed

lemma mapClusterVersion_run:
  "run_state (mapClusterVersion E ob) s =
     ((case (ob, on_ListUpgradeAccelerators E (trace s)) of
         (AClusterVersion _, Inr uas) \<Rightarrow>
           map (\<lambda>ua. \<lparr>nn_Namespace = Namespace (Metadata ua), nn_Name = Name (Metadata ua)\<rparr>) uas
       | _ \<Rightarrow> []),
      s\<lparr>trace := trace s @ [ListUpgradeAccelerators]\<rparr>)"
  by (auto simp: mapClusterVersion_def list_requests_def requests_eq
      split: sum.split kind_object.split)

lemma mapClusterOperator_run:
  "run_state (mapClusterOperator E ob) s =
     ((case (ob, on_ListUpgradeAccelerators E (trace s)) of
         (AClusterOperator _, Inr uas) \<Rightarrow>
           map (\<lambda>ua. \<lparr>nn_Namespace = Namespace (Metadata ua), nn_Name = Name (Metadata ua)\<rparr>) uas
       | _ \<Rightarrow> []),
      s\<lparr>trace := trace s @ [ListUpgradeAccelerators]\<rparr>)"
  by (auto simp: mapClusterOperator_def list_requests_def requests_eq
      split: sum.split kind_object.split)

section \<open>From an event to the requests\<close>

definition accelerator_key :: "UpgradeAccelerator \<Rightarrow> NamespacedName" where
  "accelerator_key ua = \<lparr>nn_Namespace = Namespace (Metadata ua), nn_Name = Name (Metadata ua)\<rparr>"

text \<open>C40: The controller turns a version change into a run for every custom resource: for
an update of a ClusterVersion or ClusterOperator its filters never panic and accept exactly a
relevant change (of the desired version, or of the version the machine-config operator reports)
that also changed the generation; and the function it registered for the kind lists the custom
resources once and returns one request for each, in order, or none when the list fails.\<close>

theorem watched_update_requests:
  assumes "same_kind (object (ObjectOld e)) (object (ObjectNew e))"
    and "kind_of (object (ObjectNew e)) \<in> {ClusterVersionKind, ClusterOperatorKind}"
  shows "all_filters (UpdateFuncs (SetupWithManager E)) e =
           Ok (relevant_change (object (ObjectOld e)) (object (ObjectNew e)) \<and>
               GetGeneration (ObjectOld e) \<noteq> GetGeneration (ObjectNew e)) \<and>
         (\<exists>f. map_of (Watches (SetupWithManager E)) (kind_of (object (ObjectNew e))) = Some f \<and>
              run_state (f (object (ObjectNew e))) s =
                (case on_ListUpgradeAccelerators E (trace s) of
                   Inl err \<Rightarrow> []
                 | Inr accelerators \<Rightarrow> map accelerator_key accelerators,
                 s\<lparr>trace := trace s @ [ListUpgradeAccelerators]\<rparr>))"
proof -
  have keys: "map (\<lambda>ua. \<lparr>nn_Namespace = Namespace (Metadata ua), nn_Name = Name (Metadata ua)\<rparr>) =
      map accelerator_key" by (rule arg_cong [where f = map]) (simp add: fun_eq_iff accelerator_key_def)
  show ?thesis
    using assms(2) update_filters_eq [OF assms(1)]
    by (cases "object (ObjectNew e)")
       (simp_all add: SetupWithManager_def mapClusterVersion_run mapClusterOperator_run keys split: sum.split)
qed

definition two_accelerators :: "UpgradeAccelerator list" where
  "two_accelerators =
     map (\<lambda>n. zero_UpgradeAccelerator\<lparr>Metadata := zero_ObjectMeta\<lparr>Name := n\<rparr>\<rparr>) [''ua'', ''ub'']"

theorem watched_update_requests_witness:
  "\<exists>f. map_of (Watches (SetupWithManager (idle_env\<lparr>on_ListUpgradeAccelerators := (\<lambda>tr. Inr two_accelerators)\<rparr>)))
         ClusterOperatorKind = Some f \<and>
       fst (run_state (f (object (mco_at ''4.18.2''))) (start zero_UpgradeAccelerator)) =
         [\<lparr>nn_Namespace = [], nn_Name = ''ua''\<rparr>, \<lparr>nn_Namespace = [], nn_Name = ''ub''\<rparr>]"
proof -
  let ?e = "\<lparr>ObjectOld = mco_at ''4.18.1'', ObjectNew = mco_at ''4.18.2''\<rparr>"
  let ?E = "idle_env\<lparr>on_ListUpgradeAccelerators := (\<lambda>tr. Inr two_accelerators)\<rparr>"
  have facts: "same_kind (object (ObjectOld ?e)) (object (ObjectNew ?e))"
    "kind_of (object (ObjectNew ?e)) = ClusterOperatorKind"
    by (simp_all add: mco_at_def same_kind_def)
  have names: "map accelerator_key two_accelerators =
      [\<lparr>nn_Namespace = [], nn_Name = ''ua''\<rparr>, \<lparr>nn_Namespace = [], nn_Name = ''ub''\<rparr>]"
    by (simp add: two_accelerators_def accelerator_key_def zero_defs)
  from watched_update_requests [OF facts(1), of ?E "start zero_UpgradeAccelerator"] facts(2) names
  show ?thesis by auto
qed

end
