(* ===== verification/Memory.thy ===== *)
theory Memory
  imports ApiTypes
begin

text \<open>
  Go's memory as far as copying the custom resource needs it: allocated cells, pointers, slices
  over backing arrays, and the contract of a deep copy as a locale. A heap is the list of all
  cells in the order of their allocation, so an address is fresh when it is not below the length.
\<close>

section \<open>Structs in memory\<close>

type_synonym addr = nat

text \<open>A pointer names a cell and an index in its array; a single object is an array of one.\<close>

type_synonym pointer = "addr \<times> nat"

datatype slice = NilSlice | SliceOf (array: addr) (offset: nat) (slice_len: nat)

record h_Toleration =
  ht_Key :: string
  ht_Operator :: string
  ht_Value :: string
  ht_Effect :: string
  ht_TolerationSeconds :: "pointer option"

record h_LabelSelectorRequirement =
  hr_Key :: string
  hr_Operator :: string
  hr_Values :: slice

record h_LabelSelector =
  hl_MatchLabels :: "pointer option"
  hl_MatchExpressions :: slice

record TypeMeta =
  tm_Kind :: string
  tm_APIVersion :: string

record h_ObjectMeta =
  hm_Name :: string
  hm_Namespace :: string
  hm_UID :: string
  hm_ResourceVersion :: string
  hm_Generation :: int
  hm_Labels :: "pointer option"
  hm_OwnerReferences :: slice

record h_ListMeta =
  hlm_ResourceVersion :: string
  hlm_Continue :: string
  hlm_RemainingItemCount :: "pointer option"

record h_Scheduling =
  h_Tolerations :: slice
  h_Namespace :: string

record h_Config =
  h_Scheduling :: h_Scheduling
  h_RandomWait :: UpgradeAcceleratorConfigRandomWait
  h_JobImage :: string
  h_OverrideReleaseVersion :: OverrideReleaseVersionType
  h_PullScriptConfigMapName :: string

record h_Selector =
  h_NodeSelector :: "pointer option"
  h_MachineConfigPools :: slice

record h_Spec =
  h_State :: string
  h_Selector :: h_Selector
  h_Prime :: bool
  h_Parallelism :: int32
  h_Config :: h_Config

record h_Status =
  h_ClusterInfrastructure :: string
  h_CurrentVersion :: string
  h_TargetVersion :: string
  h_DesiredVersion :: string
  h_DesiredImage :: string
  h_LastCompletedVersion :: string
  h_Conditions :: slice
  h_NodesSelected :: slice
  h_NodesPreheated :: slice
  h_NodesWarming :: slice
  h_NodesWaiting :: slice
  h_PrimerNodes :: slice

record h_UpgradeAccelerator =
  h_TypeMeta :: TypeMeta
  h_ObjectMeta :: h_ObjectMeta
  h_Spec :: h_Spec
  h_Status :: h_Status

record h_List =
  hli_TypeMeta :: TypeMeta
  hli_ListMeta :: h_ListMeta
  hli_Items :: slice

text \<open>
  A cell is an array of one element type. A map is one element of a cell of maps; it is held as
  the list of its entries in the order of the keys.
\<close>

datatype cell =
    Strings "string list"
  | Ints "int list"
  | Maps "smap list"
  | OwnerRefs "OwnerReference list"
  | Requirements "h_LabelSelectorRequirement list"
  | LabelSelectors "h_LabelSelector list"
  | TolerationCells "h_Toleration list"
  | ConditionCells "Condition list"
  | Overrides "OverrideReleaseVersionType list"
  | RandomWaits "UpgradeAcceleratorConfigRandomWait list"
  | Schedulings "h_Scheduling list"
  | Configs "h_Config list"
  | Selectors "h_Selector list"
  | Specs "h_Spec list"
  | Statuses "h_Status list"
  | Accelerators "h_UpgradeAccelerator list"
  | Lists "h_List list"

type_synonym heap = "cell list"
type_synonym 'a mem = "(heap, 'a) state"

text \<open>How arrays of one element type are stored: the constructor and its partial inverse.\<close>

record 'a elem_type =
  pack :: "'a list \<Rightarrow> cell"
  unpack :: "cell \<Rightarrow> 'a list"
  zero :: 'a

section \<open>Memory operations\<close>

definition alloc :: "cell \<Rightarrow> addr mem" where
  "alloc c = do {
     h \<leftarrow> State_Monad.get;
     State_Monad.set (h @ [c]);
     State_Monad.return (length h)
   }"

definition load :: "'a elem_type \<Rightarrow> pointer \<Rightarrow> 'a mem" where
  "load T p = do {
     h \<leftarrow> State_Monad.get;
     State_Monad.return (unpack T (h ! fst p) ! snd p)
   }"

definition store :: "'a elem_type \<Rightarrow> pointer \<Rightarrow> 'a \<Rightarrow> unit mem" where
  "store T p x = do {
     h \<leftarrow> State_Monad.get;
     State_Monad.set (h[fst p := pack T ((unpack T (h ! fst p))[snd p := x])])
   }"

text \<open>\<open>make([]T, n)\<close>, the built-in \<open>copy\<close>, and the loop over the elements of a slice.\<close>

definition make :: "'a elem_type \<Rightarrow> nat \<Rightarrow> slice mem" where
  "make T n = do {
     a \<leftarrow> alloc (pack T (replicate n (zero T)));
     State_Monad.return (SliceOf a 0 n)
   }"

fun elements :: "'a elem_type \<Rightarrow> heap \<Rightarrow> slice \<Rightarrow> 'a list" where
  "elements T h NilSlice = []"
| "elements T h (SliceOf a off n) = take n (drop off (unpack T (h ! a)))"

fun go_copy :: "'a elem_type \<Rightarrow> slice \<Rightarrow> slice \<Rightarrow> unit mem" where
  "go_copy T (SliceOf a off n) src = do {
     h \<leftarrow> State_Monad.get;
     let dst = unpack T (h ! a);
     let xs = take n (elements T h src);
     State_Monad.set (h[a := pack T (take off dst @ xs @ drop (off + length xs) dst)])
   }"
| "go_copy T NilSlice src = State_Monad.return ()"

fun each_element :: "'a elem_type \<Rightarrow> ('a \<Rightarrow> 'a mem) \<Rightarrow> pointer \<Rightarrow> addr \<Rightarrow> nat list \<Rightarrow> unit mem" where
  "each_element T copy (a, off) out [] = State_Monad.return ()"
| "each_element T copy (a, off) out (i # is) = do {
     x \<leftarrow> load T (a, off + i);
     y \<leftarrow> copy x;
     _ \<leftarrow> store T (out, i) y;
     each_element T copy (a, off) out is
   }"

text \<open>
  The three blocks the generator emits for a slice of plain elements, for a slice of structs
  with a copy function of their own, and for a pointer; each is skipped when the field is nil.
\<close>

definition copy_plain_slice :: "'a elem_type \<Rightarrow> slice \<Rightarrow> slice mem" where
  "copy_plain_slice T s =
     (case s of
        NilSlice \<Rightarrow> State_Monad.return NilSlice
      | SliceOf a off n \<Rightarrow> do {
          out \<leftarrow> make T n;
          _ \<leftarrow> go_copy T out s;
          State_Monad.return out
        })"

definition copy_struct_slice :: "'a elem_type \<Rightarrow> ('a \<Rightarrow> 'a mem) \<Rightarrow> slice \<Rightarrow> slice mem" where
  "copy_struct_slice T copy s =
     (case s of
        NilSlice \<Rightarrow> State_Monad.return NilSlice
      | SliceOf a off n \<Rightarrow> do {
          out \<leftarrow> make T n;
          _ \<leftarrow> each_element T copy (a, off) (array out) [0..<n];
          State_Monad.return out
        })"

definition copy_pointer :: "'a elem_type \<Rightarrow> ('a \<Rightarrow> 'a mem) \<Rightarrow> pointer option \<Rightarrow> pointer option mem" where
  "copy_pointer T copy p =
     (case p of
        None \<Rightarrow> State_Monad.return None
      | Some p \<Rightarrow> do {
          a \<leftarrow> alloc (pack T [zero T]);
          x \<leftarrow> load T p;
          y \<leftarrow> copy x;
          _ \<leftarrow> store T (a, 0) y;
          State_Monad.return (Some (a, 0))
        })"

section \<open>The contract of a deep copy\<close>

text \<open>
  \<open>valid\<close> says that the references of a value lead to cells of the right types, \<open>reach\<close> which cells
  it leads to, and \<open>val\<close> what it denotes. A deep copy leaves every old cell as it is, denotes the
  same and leads to new cells only; what a value denotes depends on the cells it leads to alone.
\<close>

definition fresh_for :: "heap \<Rightarrow> heap \<Rightarrow> addr set \<Rightarrow> bool" where
  "fresh_for h h' A \<longleftrightarrow> (\<exists>new. h' = h @ new) \<and> A \<subseteq> {length h..<length h'}"

definition agrees :: "addr set \<Rightarrow> heap \<Rightarrow> heap \<Rightarrow> bool" where
  "agrees A h h' \<longleftrightarrow> length h \<le> length h' \<and> (\<forall>a \<in> A. h' ! a = h ! a)"

locale deep_copy =
  fixes copy :: "'a \<Rightarrow> 'a mem"
    and valid :: "heap \<Rightarrow> 'a \<Rightarrow> bool" and reach :: "heap \<Rightarrow> 'a \<Rightarrow> addr set" and val :: "heap \<Rightarrow> 'a \<Rightarrow> 'v"
  assumes copies: "valid h x \<Longrightarrow> run_state (copy x) h = (y, h') \<Longrightarrow>
                     fresh_for h h' (reach h' y) \<and> valid h' y \<and> val h' y = val h x"
    and bounded: "valid h x \<Longrightarrow> reach h x \<subseteq> {..<length h}"
    and frame: "valid h x \<Longrightarrow> agrees (reach h x) h h2 \<Longrightarrow>
                  valid h2 x \<and> reach h2 x = reach h x \<and> val h2 x = val h x"
begin

lemma extend:
  assumes "valid h x"
  shows "valid (h @ new) x \<and> reach (h @ new) x = reach h x \<and> val (h @ new) x = val h x"
  using frame [OF assms, of "h @ new"] bounded [OF assms]
  by (auto simp: agrees_def nth_append subset_iff)

text \<open>The original and its copy can be written to independently of each other.\<close>

lemma independent:
  assumes "valid h x" and "run_state (copy x) h = (y, h')"
  shows "agrees {..<length h} h' h2 \<Longrightarrow> val h2 x = val h x"
    and "agrees {length h..<length h'} h' h2 \<Longrightarrow> val h2 y = val h x"
proof -
  from copies [OF assms] obtain new where h': "h' = h @ new"
    and y: "reach h' y \<subseteq> {length h..<length h'}" "valid h' y" "val h' y = val h x"
    by (auto simp: fresh_for_def)
  show "val h2 x = val h x" if "agrees {..<length h} h' h2"
    using frame [OF assms(1), of h2] that bounded [OF assms(1)]
    by (auto simp: h' agrees_def nth_append subset_iff)
  show "val h2 y = val h x" if "agrees {length h..<length h'} h' h2"
    using frame [OF y(2), of h2] that y by (auto simp: agrees_def)
qed

end

lemma fresh_for_trans:
  assumes "fresh_for h h1 A" and "fresh_for h1 h2 B"
  shows "fresh_for h h2 (A \<union> B)"
  using assms by (auto simp: fresh_for_def)

section \<open>Values without references, pairs, and views of a struct\<close>

lemma deep_copy_return:
  "deep_copy (State_Monad.return :: 'a \<Rightarrow> 'a mem) (\<lambda>_ _. True) (\<lambda>_ _. {}) (\<lambda>_ x. x)"
  by unfold_locales (auto simp: fresh_for_def)

definition copy_pair :: "('a \<Rightarrow> 'a mem) \<Rightarrow> ('b \<Rightarrow> 'b mem) \<Rightarrow> 'a \<times> 'b \<Rightarrow> ('a \<times> 'b) mem" where
  "copy_pair c d x = do { y \<leftarrow> c (fst x); z \<leftarrow> d (snd x); State_Monad.return (y, z) }"

lemma deep_copy_pair:
  assumes "deep_copy c valid1 reach1 val1" and "deep_copy d valid2 reach2 val2"
  shows "deep_copy (copy_pair c d) (\<lambda>h x. valid1 h (fst x) \<and> valid2 h (snd x))
           (\<lambda>h x. reach1 h (fst x) \<union> reach2 h (snd x)) (\<lambda>h x. (val1 h (fst x), val2 h (snd x)))"
proof (unfold_locales, goal_cases)
  case (1 h x y h')
  then obtain y1 h1 y2 where run: "run_state (c (fst x)) h = (y1, h1)" "run_state (d (snd x)) h1 = (y2, h')"
    "y = (y1, y2)"
    by (auto simp: copy_pair_def split: prod.splits)
  from deep_copy.copies [OF assms(1) _ run(1)] 1 have c: "fresh_for h h1 (reach1 h1 y1)" "valid1 h1 y1"
    "val1 h1 y1 = val1 h (fst x)" by auto
  from c(1) obtain n1 where h1: "h1 = h @ n1" by (auto simp: fresh_for_def)
  from deep_copy.extend [OF assms(2)] 1 have "valid2 h1 (snd x)" "val2 h1 (snd x) = val2 h (snd x)"
    by (auto simp: h1)
  with deep_copy.copies [OF assms(2) _ run(2)] have d: "fresh_for h1 h' (reach2 h' y2)" "valid2 h' y2"
    "val2 h' y2 = val2 h (snd x)" by auto
  from d(1) obtain n2 where h': "h' = h1 @ n2" by (auto simp: fresh_for_def)
  from deep_copy.extend [OF assms(1) c(2)] have "valid1 h' y1 \<and> reach1 h' y1 = reach1 h1 y1 \<and> val1 h' y1 = val1 h1 y1"
    by (simp add: h')
  then show ?case using c d fresh_for_trans [OF c(1) d(1)] by (simp add: run(3))
next
  case (2 h x)
  then show ?case
    using deep_copy.bounded [OF assms(1), of h "fst x"] deep_copy.bounded [OF assms(2), of h "snd x"] by simp
next
  case (3 h x h2)
  then have "agrees (reach1 h (fst x)) h h2" "agrees (reach2 h (snd x)) h h2" by (auto simp: agrees_def)
  with 3 deep_copy.frame [OF assms(1), of h "fst x" h2] deep_copy.frame [OF assms(2), of h "snd x" h2]
  show ?case by simp
qed

text \<open>
  A struct is copied through a view of it: the fields that hold references are copied as a tuple
  and put back, the others stay (\<open>*out = *in\<close>).
\<close>

lemma deep_copy_view:
  assumes "deep_copy c valid reach val"
    and copy: "\<And>x. copy x = do { y \<leftarrow> c (view x); State_Monad.return (put y x) }"
    and put: "\<And>x y. view (put y x) = y" "\<And>x y. rest (put y x) = rest x"
    and valid': "\<And>h x. valid' h x \<longleftrightarrow> valid h (view x)" and reach': "\<And>h x. reach' h x = reach h (view x)"
    and val': "\<And>h x. val' h x = build (val h (view x)) (rest x)"
  shows "deep_copy copy valid' reach' val'"
proof (unfold_locales, goal_cases)
  case (1 h x y h')
  then obtain z where z: "run_state (c (view x)) h = (z, h')" "y = put z x"
    by (auto simp: copy split: prod.splits)
  with deep_copy.copies [OF assms(1) _ z(1)] 1 show ?case by (simp add: put valid' reach' val')
next
  case (2 h x)
  then show ?case using deep_copy.bounded [OF assms(1), of h "view x"] by (simp add: valid' reach')
next
  case (3 h x h2)
  then show ?case using deep_copy.frame [OF assms(1), of h "view x" h2] by (simp add: valid' reach' val')
qed

section \<open>Slices and pointers\<close>

definition elem_type_ok :: "'a elem_type \<Rightarrow> bool" where
  "elem_type_ok T \<longleftrightarrow> (\<forall>xs. unpack T (pack T xs) = xs)"

definition valid_slice :: "'a elem_type \<Rightarrow> (heap \<Rightarrow> 'a \<Rightarrow> bool) \<Rightarrow> heap \<Rightarrow> slice \<Rightarrow> bool" where
  "valid_slice T valid h s =
     (case s of
        NilSlice \<Rightarrow> True
      | SliceOf a off n \<Rightarrow>
          a < length h \<and> off + n \<le> length (unpack T (h ! a)) \<and>
          (\<forall>x \<in> set (elements T h s). valid h x))"

definition reach_slice :: "'a elem_type \<Rightarrow> (heap \<Rightarrow> 'a \<Rightarrow> addr set) \<Rightarrow> heap \<Rightarrow> slice \<Rightarrow> addr set" where
  "reach_slice T reach h s =
     (case s of
        NilSlice \<Rightarrow> {}
      | SliceOf a off n \<Rightarrow> insert a (\<Union>x \<in> set (elements T h s). reach h x))"

definition val_slice :: "'a elem_type \<Rightarrow> (heap \<Rightarrow> 'a \<Rightarrow> 'v) \<Rightarrow> heap \<Rightarrow> slice \<Rightarrow> 'v list option" where
  "val_slice T val h s =
     (case s of NilSlice \<Rightarrow> None | SliceOf a off n \<Rightarrow> Some (map (val h) (elements T h s)))"

definition valid_pointer :: "'a elem_type \<Rightarrow> (heap \<Rightarrow> 'a \<Rightarrow> bool) \<Rightarrow> heap \<Rightarrow> pointer option \<Rightarrow> bool" where
  "valid_pointer T valid h p =
     (case p of
        None \<Rightarrow> True
      | Some (a, i) \<Rightarrow> a < length h \<and> i < length (unpack T (h ! a)) \<and> valid h (unpack T (h ! a) ! i))"

definition reach_pointer :: "'a elem_type \<Rightarrow> (heap \<Rightarrow> 'a \<Rightarrow> addr set) \<Rightarrow> heap \<Rightarrow> pointer option \<Rightarrow> addr set" where
  "reach_pointer T reach h p =
     (case p of None \<Rightarrow> {} | Some (a, i) \<Rightarrow> insert a (reach h (unpack T (h ! a) ! i)))"

definition val_pointer :: "'a elem_type \<Rightarrow> (heap \<Rightarrow> 'a \<Rightarrow> 'v) \<Rightarrow> heap \<Rightarrow> pointer option \<Rightarrow> 'v option" where
  "val_pointer T val h p =
     (case p of None \<Rightarrow> None | Some (a, i) \<Rightarrow> Some (val h (unpack T (h ! a) ! i)))"

lemma frame_slice:
  assumes "deep_copy copy valid reach val"
    and "valid_slice T valid h s" and "agrees (reach_slice T reach h s) h h2"
  shows "valid_slice T valid h2 s \<and> reach_slice T reach h2 s = reach_slice T reach h s \<and>
         val_slice T val h2 s = val_slice T val h s"
proof (cases s)
  case NilSlice
  then show ?thesis by (simp add: valid_slice_def reach_slice_def val_slice_def)
next
  case (SliceOf a off n)
  with assms(3) have cell: "h2 ! a = h ! a" "length h \<le> length h2"
    by (auto simp: agrees_def reach_slice_def)
  have elem: "valid h2 x \<and> reach h2 x = reach h x \<and> val h2 x = val h x"
    if "x \<in> set (elements T h s)" for x
  proof (rule deep_copy.frame [OF assms(1)])
    show "valid h x" using assms(2) that by (simp add: valid_slice_def SliceOf)
    have "reach h x \<subseteq> reach_slice T reach h s" using that by (auto simp: reach_slice_def SliceOf)
    with assms(3) show "agrees (reach h x) h h2" by (auto simp: agrees_def)
  qed
  then show ?thesis
    using assms(2) cell by (auto simp: SliceOf valid_slice_def reach_slice_def val_slice_def)
qed

lemma bounded_slice:
  assumes "deep_copy copy valid reach val" and "valid_slice T valid h s"
  shows "reach_slice T reach h s \<subseteq> {..<length h}"
proof (cases s)
  case NilSlice
  then show ?thesis by (simp add: reach_slice_def)
next
  case (SliceOf a off n)
  have "reach h x \<subseteq> {..<length h}" if "x \<in> set (elements T h s)" for x
    by (rule deep_copy.bounded [OF assms(1)]) (use assms(2) that in \<open>simp add: valid_slice_def SliceOf\<close>)
  then have "(\<Union>x \<in> set (elements T h s). reach h x) \<subseteq> {..<length h}" by (rule UN_least)
  with assms(2) show ?thesis by (simp add: reach_slice_def valid_slice_def SliceOf)
qed


lemma frame_pointer:
  assumes "deep_copy copy valid reach val"
    and "valid_pointer T valid h p" and "agrees (reach_pointer T reach h p) h h2"
  shows "valid_pointer T valid h2 p \<and> reach_pointer T reach h2 p = reach_pointer T reach h p \<and>
         val_pointer T val h2 p = val_pointer T val h p"
proof (cases p)
  case None
  then show ?thesis by (simp add: valid_pointer_def reach_pointer_def val_pointer_def)
next
  case (Some q)
  obtain a i where q: "q = (a, i)" by (cases q)
  let ?x = "unpack T (h ! a) ! i"
  have "valid h ?x" "agrees (reach h ?x) h h2" "h2 ! a = h ! a" "length h \<le> length h2"
    using assms(2,3) by (simp_all add: Some q valid_pointer_def reach_pointer_def agrees_def)
  with deep_copy.frame [OF assms(1), of h ?x h2] assms(2) show ?thesis
    by (simp add: Some q valid_pointer_def reach_pointer_def val_pointer_def)
qed

lemma bounded_pointer:
  assumes "deep_copy copy valid reach val" and "valid_pointer T valid h p"
  shows "reach_pointer T reach h p \<subseteq> {..<length h}"
proof (cases p)
  case None
  then show ?thesis by (simp add: reach_pointer_def)
next
  case (Some q)
  obtain a i where q: "q = (a, i)" by (cases q)
  from deep_copy.bounded [OF assms(1), of h "unpack T (h ! a) ! i"] assms(2) show ?thesis
    by (simp add: Some q reach_pointer_def valid_pointer_def)
qed

text \<open>A slice of plain elements.\<close>

abbreviation (input) no_refs :: "heap \<Rightarrow> 'a \<Rightarrow> addr set" where
  "no_refs \<equiv> \<lambda>_ _. {}"

abbreviation (input) any_value :: "heap \<Rightarrow> 'a \<Rightarrow> bool" where
  "any_value \<equiv> \<lambda>_ _. True"

abbreviation (input) itself :: "heap \<Rightarrow> 'a \<Rightarrow> 'a" where
  "itself \<equiv> \<lambda>_ x. x"

lemma deep_copy_plain_slice:
  assumes T: "elem_type_ok (T :: 'a elem_type)"
  shows "deep_copy (copy_plain_slice T) (valid_slice T any_value) (reach_slice T no_refs)
           (val_slice T itself)"
proof (unfold_locales, goal_cases)
  case (1 h s s' h')
  show ?case
  proof (cases s)
    case NilSlice
    with 1 show ?thesis
      by (simp add: copy_plain_slice_def valid_slice_def reach_slice_def val_slice_def fresh_for_def)
  next
    case (SliceOf a off n)
    let ?xs = "take n (drop off (unpack T (h ! a)))"
    from 1 have len: "length ?xs = n" "a < length h" by (auto simp: SliceOf valid_slice_def)
    with 1(2) T have s': "s' = SliceOf (length h) 0 n" "h' = h @ [pack T ?xs]"
      by (auto simp: SliceOf copy_plain_slice_def make_def alloc_def nth_append elem_type_ok_def Let_def)
    with len T 1(1) show ?thesis
      by (auto simp: SliceOf valid_slice_def reach_slice_def val_slice_def fresh_for_def nth_append elem_type_ok_def)
  qed
next
  case (2 h s)
  then show ?case by (rule bounded_slice [OF deep_copy_return])
next
  case (3 h s h2)
  then show ?case by (rule frame_slice [OF deep_copy_return])
qed

text \<open>A pointer.\<close>

lemma deep_copy_pointer:
  assumes T: "elem_type_ok (T :: 'a elem_type)" and copy: "deep_copy copy valid reach val"
  shows "deep_copy (copy_pointer T copy) (valid_pointer T valid) (reach_pointer T reach)
           (val_pointer T val)"
proof (unfold_locales, goal_cases)
  case (1 h p p' h')
  show ?case
  proof (cases p)
    case None
    with 1 show ?thesis
      by (simp add: copy_pointer_def valid_pointer_def reach_pointer_def val_pointer_def fresh_for_def)
  next
    case (Some q)
    obtain a i where q: "q = (a, i)" by (cases q)
    let ?x = "unpack T (h ! a) ! i" and ?h1 = "h @ [pack T [zero T]]"
    from 1 have x: "a < length h" "i < length (unpack T (h ! a))" "valid h ?x"
      by (simp_all add: Some q valid_pointer_def)
    obtain y h2 where run: "run_state (copy ?x) ?h1 = (y, h2)" by (metis surj_pair)
    from deep_copy.extend [OF copy x(3)] have "valid ?h1 ?x" "val ?h1 ?x = val h ?x" by auto
    with deep_copy.copies [OF copy _ run] have y: "fresh_for ?h1 h2 (reach h2 y)" "valid h2 y"
      "val h2 y = val h ?x" by auto
    from y(1) obtain new where h2: "h2 = ?h1 @ new" by (auto simp: fresh_for_def)
    let ?h3 = "h @ [pack T [y]] @ new"
    have end_: "p' = Some (length h, 0)" "h' = ?h3"
      using 1(2) run x T
      by (auto simp: Some q copy_pointer_def alloc_def load_def store_def nth_append h2 elem_type_ok_def)
    have "agrees (reach h2 y) h2 ?h3"
      using y(1) by (auto simp: agrees_def h2 fresh_for_def nth_append nth_Cons')
    with deep_copy.frame [OF copy y(2)] have "valid ?h3 y \<and> reach ?h3 y = reach h2 y \<and> val ?h3 y = val h2 y" .
    moreover have "reach h2 y \<subseteq> {length h..<length ?h3}" using y(1) by (auto simp: fresh_for_def h2)
    ultimately show ?thesis using T y
      by (auto simp: end_ Some q valid_pointer_def reach_pointer_def val_pointer_def fresh_for_def
            nth_append elem_type_ok_def)
  qed
next
  case (2 h p)
  then show ?case by (rule bounded_pointer [OF copy])
next
  case (3 h p h2)
  then show ?case by (rule frame_pointer [OF copy])
qed


text \<open>
  A slice of structs: after some of the elements have been copied, the new array holds copies of
  them that lead to cells allocated after it.
\<close>

definition copied_elements ::
  "'a elem_type \<Rightarrow> (heap \<Rightarrow> 'a \<Rightarrow> bool) \<Rightarrow> (heap \<Rightarrow> 'a \<Rightarrow> addr set) \<Rightarrow> (heap \<Rightarrow> 'a \<Rightarrow> 'v) \<Rightarrow>
   heap \<Rightarrow> 'a list \<Rightarrow> nat set \<Rightarrow> heap \<Rightarrow> bool" where
  "copied_elements T valid reach val h xs finished h' \<longleftrightarrow>
     (\<exists>ys new. h' = h @ pack T ys # new \<and> length ys = length xs \<and>
        (\<forall>j \<in> finished. valid h' (ys ! j) \<and> val h' (ys ! j) = val h (xs ! j) \<and>
                     reach h' (ys ! j) \<subseteq> {Suc (length h)..<length h'}))"

lemma each_element_copies:
  assumes T: "elem_type_ok (T :: 'a elem_type)" and copy: "deep_copy copy valid reach val"
    and xs: "xs = take n (drop off (unpack T (h ! a)))" "length xs = n" "a < length h"
    and valid: "\<forall>x \<in> set xs. valid h x"
  shows "set is \<subseteq> {..<n} \<Longrightarrow> copied_elements T valid reach val h xs finished h1 \<Longrightarrow> finished \<subseteq> {..<n} \<Longrightarrow>
         run_state (each_element T copy (a, off) (length h) is) h1 = (u, h2) \<Longrightarrow>
         copied_elements T valid reach val h xs (set is \<union> finished) h2"
proof (induction "is" arbitrary: h1 "finished")
  case Nil
  then show ?case by simp
next
  case (Cons i "is")
  from Cons.prems(2) obtain ys new where h1: "h1 = h @ pack T ys # new" "length ys = length xs"
    and old_finished: "\<And>j. j \<in> finished \<Longrightarrow> valid h1 (ys ! j) \<and> val h1 (ys ! j) = val h (xs ! j) \<and>
                     reach h1 (ys ! j) \<subseteq> {Suc (length h)..<length h1}"
    by (auto simp: copied_elements_def)
  from Cons.prems(1) have i: "i < n" by simp
  with xs have load: "unpack T (h1 ! a) ! (off + i) = xs ! i" by (simp add: h1 nth_append)
  obtain y h1' where run: "run_state (copy (xs ! i)) h1 = (y, h1')" by (metis surj_pair)
  from i xs(2) valid have xi: "valid h (xs ! i)" by simp
  from deep_copy.extend [OF copy xi] have "valid h1 (xs ! i)" "val h1 (xs ! i) = val h (xs ! i)"
    by (auto simp: h1)
  with deep_copy.copies [OF copy _ run] have y: "fresh_for h1 h1' (reach h1' y)" "valid h1' y"
    "val h1' y = val h (xs ! i)" by auto
  from y(1) obtain more where h1': "h1' = h1 @ more" by (auto simp: fresh_for_def)
  define h3 where "h3 = h1'[length h := pack T (ys[i := y])]"
  have h3: "h3 = h @ pack T (ys[i := y]) # new @ more"
    by (simp add: h3_def h1' h1)
  have rest: "run_state (each_element T copy (a, off) (length h) is) h3 = (u, h2)"
    using Cons.prems(4) load run T
    by (simp add: load_def store_def h3_def h1' h1 nth_append elem_type_ok_def)
  have keep: "valid h3 z \<and> reach h3 z = reach h1' z \<and> val h3 z = val h1' z"
    if "valid h1' z" "reach h1' z \<subseteq> {Suc (length h)..<length h1'}" for z
  proof (rule deep_copy.frame [OF copy that(1)])
    show "agrees (reach h1' z) h1' h3"
      using that(2) by (auto simp: agrees_def h3_def subset_iff)
  qed
  have "copied_elements T valid reach val h xs (insert i finished) h3"
    unfolding copied_elements_def
  proof (intro exI conjI)
    show "h3 = h @ pack T (ys[i := y]) # (new @ more)" by (fact h3)
    show "length (ys[i := y]) = length xs" by (simp add: h1(2))
    have "valid h3 (ys[i := y] ! j) \<and> val h3 (ys[i := y] ! j) = val h (xs ! j) \<and>
          reach h3 (ys[i := y] ! j) \<subseteq> {Suc (length h)..<length h3}"
      if j: "j \<in> insert i finished" for j
    proof (cases "j = i")
      case True
      have above: "reach h1' y \<subseteq> {Suc (length h)..<length h1'}"
        using y(1) by (auto simp: fresh_for_def h1)
      from keep [OF y(2) above] above y(3) True h1(2) i xs(2) show ?thesis
        by (simp add: h3_def)
    next
      case False
      with j old_finished have old: "valid h1 (ys ! j)" "val h1 (ys ! j) = val h (xs ! j)"
        "reach h1 (ys ! j) \<subseteq> {Suc (length h)..<length h1}" by auto
      from deep_copy.extend [OF copy old(1), of more] have
        ext: "valid h1' (ys ! j)" "val h1' (ys ! j) = val h1 (ys ! j)" "reach h1' (ys ! j) = reach h1 (ys ! j)"
        by (simp_all add: h1')
      have above: "reach h1' (ys ! j) \<subseteq> {Suc (length h)..<length h1'}"
        using old(3) ext(3) by (auto simp: h1')
      from keep [OF ext(1) above] above ext old False show ?thesis by (simp add: h3_def)
    qed
    then show "\<forall>j \<in> insert i finished. valid h3 (ys[i := y] ! j) \<and> val h3 (ys[i := y] ! j) = val h (xs ! j) \<and>
          reach h3 (ys[i := y] ! j) \<subseteq> {Suc (length h)..<length h3}" by blast
  qed
  with Cons.IH [OF _ this _ rest] Cons.prems i show ?case by auto
qed


lemma deep_copy_struct_slice:
  assumes T: "elem_type_ok (T :: 'a elem_type)" and copy: "deep_copy copy valid reach val"
  shows "deep_copy (copy_struct_slice T copy) (valid_slice T valid) (reach_slice T reach)
           (val_slice T val)"
proof (unfold_locales, goal_cases)
  case (1 h s s' h')
  show ?case
  proof (cases s)
    case NilSlice
    with 1 show ?thesis
      by (simp add: copy_struct_slice_def valid_slice_def reach_slice_def val_slice_def fresh_for_def)
  next
    case (SliceOf a off n)
    define xs where "xs = take n (drop off (unpack T (h ! a)))"
    from 1(1) have xs: "length xs = n" "a < length h" "\<forall>x \<in> set xs. valid h x"
      by (auto simp: SliceOf valid_slice_def xs_def)
    let ?h1 = "h @ [pack T (replicate n (zero T))]"
    from 1(2) have run: "run_state (each_element T copy (a, off) (length h) [0..<n]) ?h1 = ((), h')"
      and s': "s' = SliceOf (length h) 0 n"
      by (auto simp: SliceOf copy_struct_slice_def make_def alloc_def split: prod.splits)
    have start: "copied_elements T valid reach val h xs {} ?h1"
      using xs(1) by (auto simp: copied_elements_def)
    from each_element_copies [OF T copy xs_def xs _ start _ run]
    have "copied_elements T valid reach val h xs {..<n} h'" by (simp add: lessThan_atLeast0)
    then obtain ys new where h': "h' = h @ pack T ys # new" "length ys = n"
      and ys: "\<And>j. j < n \<Longrightarrow> valid h' (ys ! j) \<and> val h' (ys ! j) = val h (xs ! j) \<and>
                     reach h' (ys ! j) \<subseteq> {Suc (length h)..<length h'}"
      by (auto simp: copied_elements_def xs(1))
    have elems: "elements T h' s' = ys" "unpack T (h' ! length h) = ys"
      using T by (simp_all add: s' h' nth_append elem_type_ok_def)
    have "reach h' y \<subseteq> {length h..<length h'} \<and> valid h' y" if "y \<in> set ys" for y
    proof -
      from that obtain j where "j < n" "y = ys ! j" by (auto simp: in_set_conv_nth h'(2))
      with ys [of j] show ?thesis by auto
    qed
    moreover have "map (val h') ys = map (val h) xs"
      using ys by (intro nth_equalityI) (simp_all add: h'(2) xs(1))
    moreover have "fresh_for h h' (reach_slice T reach h' s')"
      using calculation(1) elems(1) by (auto simp: fresh_for_def reach_slice_def s' h')
    ultimately show ?thesis using elems h'
      by (auto simp: SliceOf s' valid_slice_def val_slice_def xs_def)
  qed
next
  case (2 h s)
  then show ?case by (rule bounded_slice [OF copy])
next
  case (3 h s h2)
  then show ?case by (rule frame_slice [OF copy])
qed

end
