(* ===== verification/DeepCopy.thy ===== *)
theory DeepCopy
  imports Memory
begin

text \<open>
  \<open>api/v1alpha1/zz_generated.deepcopy.go\<close>: the copy functions controller-gen writes for the
  custom resource. controller-runtime hands the reconciler a copy of the object in its cache;
  what makes the in-place changes of \<open>Reconcile\<close> harmless to the cache is proved here. The copy
  functions of Kubernetes' own structs are arguments of the model (\<open>copy_library\<close>) with the
  contract of the locale \<open>deep_copy\<close>. Objects are compared by the values the heap gives them
  (\<open>val_\<close> functions), which are the records of \<open>ApiTypes\<close>: there a nil slice or map and an empty
  one are the same list.
\<close>

section \<open>Element types\<close>

definition string_elem :: "string elem_type" where
  "string_elem = \<lparr>pack = Strings, unpack = (\<lambda>c. case c of Strings xs \<Rightarrow> xs | _ \<Rightarrow> []), zero = []\<rparr>"

definition int_elem :: "int elem_type" where
  "int_elem = \<lparr>pack = Ints, unpack = (\<lambda>c. case c of Ints xs \<Rightarrow> xs | _ \<Rightarrow> []), zero = 0\<rparr>"

definition map_elem :: "smap elem_type" where
  "map_elem = \<lparr>pack = Maps, unpack = (\<lambda>c. case c of Maps xs \<Rightarrow> xs | _ \<Rightarrow> []), zero = []\<rparr>"

definition owner_elem :: "OwnerReference elem_type" where
  "owner_elem = \<lparr>pack = OwnerRefs, unpack = (\<lambda>c. case c of OwnerRefs xs \<Rightarrow> xs | _ \<Rightarrow> []),
     zero = \<lparr>or_APIVersion = [], or_Kind = [], or_Name = [], or_UID = []\<rparr>\<rparr>"

definition requirement_elem :: "h_LabelSelectorRequirement elem_type" where
  "requirement_elem = \<lparr>pack = Requirements, unpack = (\<lambda>c. case c of Requirements xs \<Rightarrow> xs | _ \<Rightarrow> []),
     zero = \<lparr>hr_Key = [], hr_Operator = [], hr_Values = NilSlice\<rparr>\<rparr>"

definition labelSelector_elem :: "h_LabelSelector elem_type" where
  "labelSelector_elem = \<lparr>pack = LabelSelectors, unpack = (\<lambda>c. case c of LabelSelectors xs \<Rightarrow> xs | _ \<Rightarrow> []),
     zero = \<lparr>hl_MatchLabels = None, hl_MatchExpressions = NilSlice\<rparr>\<rparr>"

definition toleration_elem :: "h_Toleration elem_type" where
  "toleration_elem = \<lparr>pack = TolerationCells, unpack = (\<lambda>c. case c of TolerationCells xs \<Rightarrow> xs | _ \<Rightarrow> []),
     zero = \<lparr>ht_Key = [], ht_Operator = [], ht_Value = [], ht_Effect = [], ht_TolerationSeconds = None\<rparr>\<rparr>"

definition condition_elem :: "Condition elem_type" where
  "condition_elem = \<lparr>pack = ConditionCells, unpack = (\<lambda>c. case c of ConditionCells xs \<Rightarrow> xs | _ \<Rightarrow> []),
     zero = \<lparr>cond_Type = [], cond_Status = [], cond_Reason = [], cond_Message = [],
             cond_LastTransitionTime = 0\<rparr>\<rparr>"

text \<open>The zero values \<open>new(T)\<close> and \<open>make\<close> start from.\<close>

definition zero_h_Scheduling :: h_Scheduling where
  "zero_h_Scheduling = \<lparr>h_Tolerations = NilSlice, h_Namespace = []\<rparr>"

definition zero_h_Config :: h_Config where
  "zero_h_Config = \<lparr>h_Scheduling = zero_h_Scheduling, h_RandomWait = RandomWait zero_Config, h_JobImage = [],
     h_OverrideReleaseVersion = OverrideReleaseVersion zero_Config, h_PullScriptConfigMapName = []\<rparr>"

definition zero_h_Selector :: h_Selector where
  "zero_h_Selector = \<lparr>h_NodeSelector = None, h_MachineConfigPools = NilSlice\<rparr>"

definition zero_h_Spec :: h_Spec where
  "zero_h_Spec = \<lparr>h_State = [], h_Selector = zero_h_Selector, h_Prime = False, h_Parallelism = 0,
     h_Config = zero_h_Config\<rparr>"

definition zero_h_Status :: h_Status where
  "zero_h_Status = \<lparr>h_ClusterInfrastructure = [], h_CurrentVersion = [], h_TargetVersion = [],
     h_DesiredVersion = [], h_DesiredImage = [], h_LastCompletedVersion = [], h_Conditions = NilSlice,
     h_NodesSelected = NilSlice, h_NodesPreheated = NilSlice, h_NodesWarming = NilSlice,
     h_NodesWaiting = NilSlice, h_PrimerNodes = NilSlice\<rparr>"

definition zero_TypeMeta :: TypeMeta where
  "zero_TypeMeta = \<lparr>tm_Kind = [], tm_APIVersion = []\<rparr>"

definition zero_h_ObjectMeta :: h_ObjectMeta where
  "zero_h_ObjectMeta = \<lparr>hm_Name = [], hm_Namespace = [], hm_UID = [], hm_ResourceVersion = [],
     hm_Generation = 0, hm_Labels = None, hm_OwnerReferences = NilSlice\<rparr>"

definition zero_h_UpgradeAccelerator :: h_UpgradeAccelerator where
  "zero_h_UpgradeAccelerator = \<lparr>h_TypeMeta = zero_TypeMeta, h_ObjectMeta = zero_h_ObjectMeta,
     h_Spec = zero_h_Spec, h_Status = zero_h_Status\<rparr>"

definition zero_h_List :: h_List where
  "zero_h_List = \<lparr>hli_TypeMeta = zero_TypeMeta,
     hli_ListMeta = \<lparr>hlm_ResourceVersion = [], hlm_Continue = [], hlm_RemainingItemCount = None\<rparr>,
     hli_Items = NilSlice\<rparr>"

definition override_elem :: "OverrideReleaseVersionType elem_type" where
  "override_elem = \<lparr>pack = Overrides, unpack = (\<lambda>c. case c of Overrides xs \<Rightarrow> xs | _ \<Rightarrow> []),
     zero = OverrideReleaseVersion zero_Config\<rparr>"

definition randomWait_elem :: "UpgradeAcceleratorConfigRandomWait elem_type" where
  "randomWait_elem = \<lparr>pack = RandomWaits, unpack = (\<lambda>c. case c of RandomWaits xs \<Rightarrow> xs | _ \<Rightarrow> []),
     zero = RandomWait zero_Config\<rparr>"

definition scheduling_elem :: "h_Scheduling elem_type" where
  "scheduling_elem = \<lparr>pack = Schedulings, unpack = (\<lambda>c. case c of Schedulings xs \<Rightarrow> xs | _ \<Rightarrow> []),
     zero = zero_h_Scheduling\<rparr>"

definition config_elem :: "h_Config elem_type" where
  "config_elem = \<lparr>pack = Configs, unpack = (\<lambda>c. case c of Configs xs \<Rightarrow> xs | _ \<Rightarrow> []),
     zero = zero_h_Config\<rparr>"

definition selector_elem :: "h_Selector elem_type" where
  "selector_elem = \<lparr>pack = Selectors, unpack = (\<lambda>c. case c of Selectors xs \<Rightarrow> xs | _ \<Rightarrow> []),
     zero = zero_h_Selector\<rparr>"

definition spec_elem :: "h_Spec elem_type" where
  "spec_elem = \<lparr>pack = Specs, unpack = (\<lambda>c. case c of Specs xs \<Rightarrow> xs | _ \<Rightarrow> []), zero = zero_h_Spec\<rparr>"

definition status_elem :: "h_Status elem_type" where
  "status_elem = \<lparr>pack = Statuses, unpack = (\<lambda>c. case c of Statuses xs \<Rightarrow> xs | _ \<Rightarrow> []),
     zero = zero_h_Status\<rparr>"

definition accelerator_elem :: "h_UpgradeAccelerator elem_type" where
  "accelerator_elem = \<lparr>pack = Accelerators, unpack = (\<lambda>c. case c of Accelerators xs \<Rightarrow> xs | _ \<Rightarrow> []),
     zero = zero_h_UpgradeAccelerator\<rparr>"

definition list_elem :: "h_List elem_type" where
  "list_elem = \<lparr>pack = Lists, unpack = (\<lambda>c. case c of Lists xs \<Rightarrow> xs | _ \<Rightarrow> []), zero = zero_h_List\<rparr>"

lemmas elem_defs = string_elem_def int_elem_def map_elem_def owner_elem_def requirement_elem_def
  labelSelector_elem_def toleration_elem_def condition_elem_def override_elem_def randomWait_elem_def
  scheduling_elem_def config_elem_def selector_elem_def spec_elem_def status_elem_def
  accelerator_elem_def list_elem_def

lemma elem_types_ok [simp, intro]:
  "elem_type_ok string_elem" "elem_type_ok int_elem" "elem_type_ok map_elem" "elem_type_ok owner_elem"
  "elem_type_ok requirement_elem" "elem_type_ok labelSelector_elem" "elem_type_ok toleration_elem"
  "elem_type_ok condition_elem" "elem_type_ok override_elem" "elem_type_ok randomWait_elem"
  "elem_type_ok scheduling_elem" "elem_type_ok config_elem" "elem_type_ok selector_elem"
  "elem_type_ok spec_elem" "elem_type_ok status_elem" "elem_type_ok accelerator_elem"
  "elem_type_ok list_elem"
  by (simp_all add: elem_type_ok_def elem_defs)

section \<open>What the structs denote\<close>

text \<open>
  For every struct: the validity of its references, the cells it leads to, and the record of
  theory ApiTypes it denotes. The first five are structs of Kubernetes.
\<close>

abbreviation (input) plain_slice_val :: "'a elem_type \<Rightarrow> heap \<Rightarrow> slice \<Rightarrow> 'a list" where
  "plain_slice_val T h s \<equiv> slice_elements (val_slice T itself h s)"

definition valid_Requirement :: "heap \<Rightarrow> h_LabelSelectorRequirement \<Rightarrow> bool" where
  "valid_Requirement h x = valid_slice string_elem any_value h (hr_Values x)"

definition reach_Requirement :: "heap \<Rightarrow> h_LabelSelectorRequirement \<Rightarrow> addr set" where
  "reach_Requirement h x = reach_slice string_elem no_refs h (hr_Values x)"

definition val_Requirement :: "heap \<Rightarrow> h_LabelSelectorRequirement \<Rightarrow> LabelSelectorRequirement" where
  "val_Requirement h x = \<lparr>lsr_Key = hr_Key x, lsr_Operator = hr_Operator x,
     lsr_Values = plain_slice_val string_elem h (hr_Values x)\<rparr>"

definition valid_LabelSelector :: "heap \<Rightarrow> h_LabelSelector \<Rightarrow> bool" where
  "valid_LabelSelector h x \<longleftrightarrow>
     valid_pointer map_elem any_value h (hl_MatchLabels x) \<and>
     valid_slice requirement_elem valid_Requirement h (hl_MatchExpressions x)"

definition reach_LabelSelector :: "heap \<Rightarrow> h_LabelSelector \<Rightarrow> addr set" where
  "reach_LabelSelector h x =
     reach_pointer map_elem no_refs h (hl_MatchLabels x) \<union>
     reach_slice requirement_elem reach_Requirement h (hl_MatchExpressions x)"

definition val_LabelSelector :: "heap \<Rightarrow> h_LabelSelector \<Rightarrow> LabelSelector" where
  "val_LabelSelector h x =
     \<lparr>MatchLabels = slice_elements (val_pointer map_elem itself h (hl_MatchLabels x)),
      MatchExpressions =
        slice_elements (val_slice requirement_elem val_Requirement h (hl_MatchExpressions x))\<rparr>"

definition valid_Toleration :: "heap \<Rightarrow> h_Toleration \<Rightarrow> bool" where
  "valid_Toleration h x = valid_pointer int_elem any_value h (ht_TolerationSeconds x)"

definition reach_Toleration :: "heap \<Rightarrow> h_Toleration \<Rightarrow> addr set" where
  "reach_Toleration h x = reach_pointer int_elem no_refs h (ht_TolerationSeconds x)"

definition val_Toleration :: "heap \<Rightarrow> h_Toleration \<Rightarrow> Toleration" where
  "val_Toleration h x = \<lparr>tol_Key = ht_Key x, tol_Operator = ht_Operator x, tol_Value = ht_Value x,
     tol_Effect = ht_Effect x,
     tol_TolerationSeconds = val_pointer int_elem itself h (ht_TolerationSeconds x)\<rparr>"

definition valid_ObjectMeta :: "heap \<Rightarrow> h_ObjectMeta \<Rightarrow> bool" where
  "valid_ObjectMeta h x \<longleftrightarrow>
     valid_pointer map_elem any_value h (hm_Labels x) \<and>
     valid_slice owner_elem any_value h (hm_OwnerReferences x)"

definition reach_ObjectMeta :: "heap \<Rightarrow> h_ObjectMeta \<Rightarrow> addr set" where
  "reach_ObjectMeta h x =
     reach_pointer map_elem no_refs h (hm_Labels x) \<union>
     reach_slice owner_elem no_refs h (hm_OwnerReferences x)"

definition val_ObjectMeta :: "heap \<Rightarrow> h_ObjectMeta \<Rightarrow> ObjectMeta" where
  "val_ObjectMeta h x = \<lparr>Name = hm_Name x, Namespace = hm_Namespace x, UID = hm_UID x,
     ResourceVersion = hm_ResourceVersion x, Generation = hm_Generation x,
     Labels = slice_elements (val_pointer map_elem itself h (hm_Labels x)),
     OwnerReferences = plain_slice_val owner_elem h (hm_OwnerReferences x)\<rparr>"

definition valid_ListMeta :: "heap \<Rightarrow> h_ListMeta \<Rightarrow> bool" where
  "valid_ListMeta h x = valid_pointer int_elem any_value h (hlm_RemainingItemCount x)"

definition reach_ListMeta :: "heap \<Rightarrow> h_ListMeta \<Rightarrow> addr set" where
  "reach_ListMeta h x = reach_pointer int_elem no_refs h (hlm_RemainingItemCount x)"

definition val_ListMeta :: "heap \<Rightarrow> h_ListMeta \<Rightarrow> string \<times> string \<times> int option" where
  "val_ListMeta h x = (hlm_ResourceVersion x, hlm_Continue x,
     val_pointer int_elem itself h (hlm_RemainingItemCount x))"

text \<open>The structs of the custom resource.\<close>

definition valid_Scheduling :: "heap \<Rightarrow> h_Scheduling \<Rightarrow> bool" where
  "valid_Scheduling h x = valid_slice toleration_elem valid_Toleration h (h_Tolerations x)"

definition reach_Scheduling :: "heap \<Rightarrow> h_Scheduling \<Rightarrow> addr set" where
  "reach_Scheduling h x = reach_slice toleration_elem reach_Toleration h (h_Tolerations x)"

definition val_Scheduling :: "heap \<Rightarrow> h_Scheduling \<Rightarrow> UpgradeAcceleratorConfigScheduling" where
  "val_Scheduling h x =
     \<lparr>Tolerations = slice_elements (val_slice toleration_elem val_Toleration h (h_Tolerations x)),
      sched_Namespace = h_Namespace x\<rparr>"

definition valid_Config :: "heap \<Rightarrow> h_Config \<Rightarrow> bool" where
  "valid_Config h x = valid_Scheduling h (h_Scheduling x)"

definition reach_Config :: "heap \<Rightarrow> h_Config \<Rightarrow> addr set" where
  "reach_Config h x = reach_Scheduling h (h_Scheduling x)"

definition val_Config :: "heap \<Rightarrow> h_Config \<Rightarrow> UpgradeAcceleratorConfig" where
  "val_Config h x = \<lparr>Scheduling = val_Scheduling h (h_Scheduling x), RandomWait = h_RandomWait x,
     JobImage = h_JobImage x, OverrideReleaseVersion = h_OverrideReleaseVersion x,
     PullScriptConfigMapName = h_PullScriptConfigMapName x\<rparr>"

definition valid_Selector :: "heap \<Rightarrow> h_Selector \<Rightarrow> bool" where
  "valid_Selector h x \<longleftrightarrow>
     valid_pointer labelSelector_elem valid_LabelSelector h (h_NodeSelector x) \<and>
     valid_slice string_elem any_value h (h_MachineConfigPools x)"

definition reach_Selector :: "heap \<Rightarrow> h_Selector \<Rightarrow> addr set" where
  "reach_Selector h x =
     reach_pointer labelSelector_elem reach_LabelSelector h (h_NodeSelector x) \<union>
     reach_slice string_elem no_refs h (h_MachineConfigPools x)"

definition val_Selector :: "heap \<Rightarrow> h_Selector \<Rightarrow> SelectorType" where
  "val_Selector h x =
     \<lparr>NodeSelector = val_pointer labelSelector_elem val_LabelSelector h (h_NodeSelector x),
      MachineConfigPools = plain_slice_val string_elem h (h_MachineConfigPools x)\<rparr>"

definition valid_Spec :: "heap \<Rightarrow> h_Spec \<Rightarrow> bool" where
  "valid_Spec h x \<longleftrightarrow> valid_Selector h (h_Selector x) \<and> valid_Config h (h_Config x)"

definition reach_Spec :: "heap \<Rightarrow> h_Spec \<Rightarrow> addr set" where
  "reach_Spec h x = reach_Selector h (h_Selector x) \<union> reach_Config h (h_Config x)"

definition val_Spec :: "heap \<Rightarrow> h_Spec \<Rightarrow> UpgradeAcceleratorSpec" where
  "val_Spec h x = \<lparr>spec_State = h_State x, Selector = val_Selector h (h_Selector x), Prime = h_Prime x,
     Parallelism = h_Parallelism x, Config = val_Config h (h_Config x)\<rparr>"

definition valid_Status :: "heap \<Rightarrow> h_Status \<Rightarrow> bool" where
  "valid_Status h x \<longleftrightarrow>
     valid_slice condition_elem any_value h (h_Conditions x) \<and>
     valid_slice string_elem any_value h (h_NodesSelected x) \<and>
     valid_slice string_elem any_value h (h_NodesPreheated x) \<and>
     valid_slice string_elem any_value h (h_NodesWarming x) \<and>
     valid_slice string_elem any_value h (h_NodesWaiting x) \<and>
     valid_slice string_elem any_value h (h_PrimerNodes x)"

definition reach_Status :: "heap \<Rightarrow> h_Status \<Rightarrow> addr set" where
  "reach_Status h x =
     reach_slice condition_elem no_refs h (h_Conditions x) \<union>
     (reach_slice string_elem no_refs h (h_NodesSelected x) \<union>
     (reach_slice string_elem no_refs h (h_NodesPreheated x) \<union>
     (reach_slice string_elem no_refs h (h_NodesWarming x) \<union>
     (reach_slice string_elem no_refs h (h_NodesWaiting x) \<union>
      reach_slice string_elem no_refs h (h_PrimerNodes x)))))"

definition val_Status :: "heap \<Rightarrow> h_Status \<Rightarrow> UpgradeAcceleratorStatus" where
  "val_Status h x =
     \<lparr>ClusterInfrastructure = h_ClusterInfrastructure x, CurrentVersion = h_CurrentVersion x,
      TargetVersion = h_TargetVersion x, DesiredVersion = h_DesiredVersion x,
      DesiredImage = h_DesiredImage x, LastCompletedVersion = h_LastCompletedVersion x,
      Conditions = plain_slice_val condition_elem h (h_Conditions x),
      NodesSelected = plain_slice_val string_elem h (h_NodesSelected x),
      NodesPreheated = plain_slice_val string_elem h (h_NodesPreheated x),
      NodesWarming = plain_slice_val string_elem h (h_NodesWarming x),
      NodesWaiting = plain_slice_val string_elem h (h_NodesWaiting x),
      PrimerNodes = plain_slice_val string_elem h (h_PrimerNodes x)\<rparr>"

definition valid_UpgradeAccelerator :: "heap \<Rightarrow> h_UpgradeAccelerator \<Rightarrow> bool" where
  "valid_UpgradeAccelerator h x \<longleftrightarrow> valid_ObjectMeta h (h_ObjectMeta x) \<and>
     valid_Spec h (h_Spec x) \<and> valid_Status h (h_Status x)"

definition reach_UpgradeAccelerator :: "heap \<Rightarrow> h_UpgradeAccelerator \<Rightarrow> addr set" where
  "reach_UpgradeAccelerator h x =
     reach_ObjectMeta h (h_ObjectMeta x) \<union> (reach_Spec h (h_Spec x) \<union> reach_Status h (h_Status x))"

definition val_UpgradeAccelerator :: "heap \<Rightarrow> h_UpgradeAccelerator \<Rightarrow> TypeMeta \<times> UpgradeAccelerator" where
  "val_UpgradeAccelerator h x = (h_TypeMeta x,
     \<lparr>Metadata = val_ObjectMeta h (h_ObjectMeta x), Spec = val_Spec h (h_Spec x),
      Status = val_Status h (h_Status x)\<rparr>)"

definition valid_List :: "heap \<Rightarrow> h_List \<Rightarrow> bool" where
  "valid_List h x \<longleftrightarrow> valid_ListMeta h (hli_ListMeta x) \<and>
     valid_slice accelerator_elem valid_UpgradeAccelerator h (hli_Items x)"

definition reach_List :: "heap \<Rightarrow> h_List \<Rightarrow> addr set" where
  "reach_List h x = reach_ListMeta h (hli_ListMeta x) \<union>
     reach_slice accelerator_elem reach_UpgradeAccelerator h (hli_Items x)"

definition val_List ::
  "heap \<Rightarrow> h_List \<Rightarrow> TypeMeta \<times> (string \<times> string \<times> int option) \<times> (TypeMeta \<times> UpgradeAccelerator) list option" where
  "val_List h x = (hli_TypeMeta x, val_ListMeta h (hli_ListMeta x),
     val_slice accelerator_elem val_UpgradeAccelerator h (hli_Items x))"

section \<open>The generated functions\<close>

record copy_library =
  LabelSelector_DeepCopyInto :: "h_LabelSelector \<Rightarrow> h_LabelSelector mem"
  Toleration_DeepCopyInto :: "h_Toleration \<Rightarrow> h_Toleration mem"
  Condition_DeepCopyInto :: "Condition \<Rightarrow> Condition mem"
  ObjectMeta_DeepCopyInto :: "h_ObjectMeta \<Rightarrow> h_ObjectMeta mem"
  ListMeta_DeepCopyInto :: "h_ListMeta \<Rightarrow> h_ListMeta mem"

text \<open>\<open>DeepCopyInto(out)\<close> overwrites \<open>*out\<close> as a whole; the result is its new content.\<close>

definition Override_DeepCopyInto :: "OverrideReleaseVersionType \<Rightarrow> OverrideReleaseVersionType mem" where
  "Override_DeepCopyInto inp = State_Monad.return inp"

definition RandomWait_DeepCopyInto ::
  "UpgradeAcceleratorConfigRandomWait \<Rightarrow> UpgradeAcceleratorConfigRandomWait mem" where
  "RandomWait_DeepCopyInto inp = State_Monad.return inp"

definition Selector_DeepCopyInto :: "copy_library \<Rightarrow> h_Selector \<Rightarrow> h_Selector mem" where
  "Selector_DeepCopyInto L inp = do {
     nodeSelector \<leftarrow> copy_pointer labelSelector_elem (LabelSelector_DeepCopyInto L) (h_NodeSelector inp);
     machineConfigPools \<leftarrow> copy_plain_slice string_elem (h_MachineConfigPools inp);
     State_Monad.return
       (inp\<lparr>h_NodeSelector := nodeSelector, h_MachineConfigPools := machineConfigPools\<rparr>)
   }"

definition Scheduling_DeepCopyInto :: "copy_library \<Rightarrow> h_Scheduling \<Rightarrow> h_Scheduling mem" where
  "Scheduling_DeepCopyInto L inp = do {
     tolerations \<leftarrow> copy_struct_slice toleration_elem (Toleration_DeepCopyInto L) (h_Tolerations inp);
     State_Monad.return (inp\<lparr>h_Tolerations := tolerations\<rparr>)
   }"

definition Config_DeepCopyInto :: "copy_library \<Rightarrow> h_Config \<Rightarrow> h_Config mem" where
  "Config_DeepCopyInto L inp = do {
     scheduling \<leftarrow> Scheduling_DeepCopyInto L (h_Scheduling inp);
     State_Monad.return
       (inp\<lparr>h_Scheduling := scheduling, h_RandomWait := h_RandomWait inp,
            h_OverrideReleaseVersion := h_OverrideReleaseVersion inp\<rparr>)
   }"

definition Spec_DeepCopyInto :: "copy_library \<Rightarrow> h_Spec \<Rightarrow> h_Spec mem" where
  "Spec_DeepCopyInto L inp = do {
     selector \<leftarrow> Selector_DeepCopyInto L (h_Selector inp);
     config \<leftarrow> Config_DeepCopyInto L (h_Config inp);
     State_Monad.return (inp\<lparr>h_Selector := selector, h_Config := config\<rparr>)
   }"

definition Status_DeepCopyInto :: "copy_library \<Rightarrow> h_Status \<Rightarrow> h_Status mem" where
  "Status_DeepCopyInto L inp = do {
     conditions \<leftarrow> copy_struct_slice condition_elem (Condition_DeepCopyInto L) (h_Conditions inp);
     nodesSelected \<leftarrow> copy_plain_slice string_elem (h_NodesSelected inp);
     nodesPreheated \<leftarrow> copy_plain_slice string_elem (h_NodesPreheated inp);
     nodesWarming \<leftarrow> copy_plain_slice string_elem (h_NodesWarming inp);
     nodesWaiting \<leftarrow> copy_plain_slice string_elem (h_NodesWaiting inp);
     primerNodes \<leftarrow> copy_plain_slice string_elem (h_PrimerNodes inp);
     State_Monad.return
       (inp\<lparr>h_Conditions := conditions, h_NodesSelected := nodesSelected,
            h_NodesPreheated := nodesPreheated, h_NodesWarming := nodesWarming,
            h_NodesWaiting := nodesWaiting, h_PrimerNodes := primerNodes\<rparr>)
   }"

definition UpgradeAccelerator_DeepCopyInto ::
  "copy_library \<Rightarrow> h_UpgradeAccelerator \<Rightarrow> h_UpgradeAccelerator mem" where
  "UpgradeAccelerator_DeepCopyInto L inp = do {
     objectMeta \<leftarrow> ObjectMeta_DeepCopyInto L (h_ObjectMeta inp);
     spec \<leftarrow> Spec_DeepCopyInto L (h_Spec inp);
     status \<leftarrow> Status_DeepCopyInto L (h_Status inp);
     State_Monad.return
       (inp\<lparr>h_TypeMeta := h_TypeMeta inp, h_ObjectMeta := objectMeta, h_Spec := spec, h_Status := status\<rparr>)
   }"

definition List_DeepCopyInto :: "copy_library \<Rightarrow> h_List \<Rightarrow> h_List mem" where
  "List_DeepCopyInto L inp = do {
     listMeta \<leftarrow> ListMeta_DeepCopyInto L (hli_ListMeta inp);
     items \<leftarrow> copy_struct_slice accelerator_elem (UpgradeAccelerator_DeepCopyInto L) (hli_Items inp);
     State_Monad.return
       (inp\<lparr>hli_TypeMeta := hli_TypeMeta inp, hli_ListMeta := listMeta, hli_Items := items\<rparr>)
   }"

text \<open>\<open>DeepCopy()\<close>: nil for nil, else \<open>new(T)\<close> and \<open>DeepCopyInto\<close>.\<close>

definition Override_DeepCopy :: "pointer option \<Rightarrow> pointer option mem" where
  "Override_DeepCopy = copy_pointer override_elem Override_DeepCopyInto"

definition RandomWait_DeepCopy :: "pointer option \<Rightarrow> pointer option mem" where
  "RandomWait_DeepCopy = copy_pointer randomWait_elem RandomWait_DeepCopyInto"

definition Selector_DeepCopy :: "copy_library \<Rightarrow> pointer option \<Rightarrow> pointer option mem" where
  "Selector_DeepCopy L = copy_pointer selector_elem (Selector_DeepCopyInto L)"

definition Scheduling_DeepCopy :: "copy_library \<Rightarrow> pointer option \<Rightarrow> pointer option mem" where
  "Scheduling_DeepCopy L = copy_pointer scheduling_elem (Scheduling_DeepCopyInto L)"

definition Config_DeepCopy :: "copy_library \<Rightarrow> pointer option \<Rightarrow> pointer option mem" where
  "Config_DeepCopy L = copy_pointer config_elem (Config_DeepCopyInto L)"

definition Spec_DeepCopy :: "copy_library \<Rightarrow> pointer option \<Rightarrow> pointer option mem" where
  "Spec_DeepCopy L = copy_pointer spec_elem (Spec_DeepCopyInto L)"

definition Status_DeepCopy :: "copy_library \<Rightarrow> pointer option \<Rightarrow> pointer option mem" where
  "Status_DeepCopy L = copy_pointer status_elem (Status_DeepCopyInto L)"

definition UpgradeAccelerator_DeepCopy :: "copy_library \<Rightarrow> pointer option \<Rightarrow> pointer option mem" where
  "UpgradeAccelerator_DeepCopy L = copy_pointer accelerator_elem (UpgradeAccelerator_DeepCopyInto L)"

definition List_DeepCopy :: "copy_library \<Rightarrow> pointer option \<Rightarrow> pointer option mem" where
  "List_DeepCopy L = copy_pointer list_elem (List_DeepCopyInto L)"

text \<open>The \<open>runtime.Object\<close> interface: a nil pointer becomes the nil interface.\<close>

datatype runtime_Object = UpgradeAcceleratorObject pointer | UpgradeAcceleratorListObject pointer

definition UpgradeAccelerator_DeepCopyObject ::
  "copy_library \<Rightarrow> pointer option \<Rightarrow> runtime_Object option mem" where
  "UpgradeAccelerator_DeepCopyObject L inp = do {
     c \<leftarrow> UpgradeAccelerator_DeepCopy L inp;
     State_Monad.return (map_option UpgradeAcceleratorObject c)
   }"

definition List_DeepCopyObject :: "copy_library \<Rightarrow> pointer option \<Rightarrow> runtime_Object option mem" where
  "List_DeepCopyObject L inp = do {
     c \<leftarrow> List_DeepCopy L inp;
     State_Monad.return (map_option UpgradeAcceleratorListObject c)
   }"

section \<open>They are deep copies\<close>

locale copying =
  fixes L :: copy_library
  assumes label_selector: "deep_copy (LabelSelector_DeepCopyInto L) valid_LabelSelector reach_LabelSelector val_LabelSelector"
    and toleration: "deep_copy (Toleration_DeepCopyInto L) valid_Toleration reach_Toleration val_Toleration"
    and condition: "deep_copy (Condition_DeepCopyInto L) any_value no_refs itself"
    and object_meta: "deep_copy (ObjectMeta_DeepCopyInto L) valid_ObjectMeta reach_ObjectMeta val_ObjectMeta"
    and list_meta: "deep_copy (ListMeta_DeepCopyInto L) valid_ListMeta reach_ListMeta val_ListMeta"
begin

lemma copies_Selector: "deep_copy (Selector_DeepCopyInto L) valid_Selector reach_Selector val_Selector"
  by (rule deep_copy_view [OF deep_copy_pair
        [OF deep_copy_pointer [OF _ label_selector] deep_copy_plain_slice [of string_elem]],
        where view = "\<lambda>x. (h_NodeSelector x, h_MachineConfigPools x)"
          and put = "\<lambda>(p, m) x. x\<lparr>h_NodeSelector := p, h_MachineConfigPools := m\<rparr>"
          and rest = "\<lambda>_. ()"
          and build = "\<lambda>(p, m) _. \<lparr>NodeSelector = p, MachineConfigPools = slice_elements m\<rparr>"])
     (auto simp: Selector_DeepCopyInto_def copy_pair_def valid_Selector_def reach_Selector_def val_Selector_def)

lemma copies_Scheduling:
  "deep_copy (Scheduling_DeepCopyInto L) valid_Scheduling reach_Scheduling val_Scheduling"
  by (rule deep_copy_view [OF deep_copy_struct_slice [OF _ toleration],
        where view = h_Tolerations and put = "\<lambda>t x. x\<lparr>h_Tolerations := t\<rparr>" and rest = h_Namespace
          and build = "\<lambda>t ns. \<lparr>Tolerations = slice_elements t, sched_Namespace = ns\<rparr>"])
     (auto simp: Scheduling_DeepCopyInto_def valid_Scheduling_def reach_Scheduling_def val_Scheduling_def)

end

context copying
begin

lemma copies_Config: "deep_copy (Config_DeepCopyInto L) valid_Config reach_Config val_Config"
  by (rule deep_copy_view [OF copies_Scheduling,
        where view = h_Scheduling and put = "\<lambda>s x. x\<lparr>h_Scheduling := s\<rparr>"
          and rest = "\<lambda>x. (h_RandomWait x, h_JobImage x, h_OverrideReleaseVersion x, h_PullScriptConfigMapName x)"
          and build = "\<lambda>s (rw, ji, orv, ps). \<lparr>Scheduling = s, RandomWait = rw, JobImage = ji,
            OverrideReleaseVersion = orv, PullScriptConfigMapName = ps\<rparr>"])
     (auto simp: Config_DeepCopyInto_def valid_Config_def reach_Config_def val_Config_def)

lemma copies_Spec: "deep_copy (Spec_DeepCopyInto L) valid_Spec reach_Spec val_Spec"
  by (rule deep_copy_view [OF deep_copy_pair [OF copies_Selector copies_Config],
        where view = "\<lambda>x. (h_Selector x, h_Config x)"
          and put = "\<lambda>(s, c) x. x\<lparr>h_Selector := s, h_Config := c\<rparr>"
          and rest = "\<lambda>x. (h_State x, h_Prime x, h_Parallelism x)"
          and build = "\<lambda>(s, c) (st, p, n). \<lparr>spec_State = st, Selector = s, Prime = p, Parallelism = n, Config = c\<rparr>"])
     (auto simp: Spec_DeepCopyInto_def copy_pair_def valid_Spec_def reach_Spec_def val_Spec_def)

lemma copies_Status: "deep_copy (Status_DeepCopyInto L) valid_Status reach_Status val_Status"
proof -
  note strings = deep_copy_plain_slice [of string_elem, OF elem_types_ok(1)]
  note fields = deep_copy_pair [OF deep_copy_struct_slice [OF elem_types_ok(8) condition]
    deep_copy_pair [OF strings deep_copy_pair [OF strings deep_copy_pair [OF strings
    deep_copy_pair [OF strings strings]]]]]
  show ?thesis
    by (rule deep_copy_view [OF fields,
          where view = "\<lambda>x. (h_Conditions x, h_NodesSelected x, h_NodesPreheated x, h_NodesWarming x,
              h_NodesWaiting x, h_PrimerNodes x)"
            and put = "\<lambda>(c, s, p, w, wt, pn) x. x\<lparr>h_Conditions := c, h_NodesSelected := s,
              h_NodesPreheated := p, h_NodesWarming := w, h_NodesWaiting := wt, h_PrimerNodes := pn\<rparr>"
            and rest = "\<lambda>x. (h_ClusterInfrastructure x, h_CurrentVersion x, h_TargetVersion x,
              h_DesiredVersion x, h_DesiredImage x, h_LastCompletedVersion x)"
            and build = "\<lambda>(c, s, p, w, wt, pn) (ci, cv, tv, dv, di, lc).
              \<lparr>ClusterInfrastructure = ci, CurrentVersion = cv, TargetVersion = tv, DesiredVersion = dv,
               DesiredImage = di, LastCompletedVersion = lc, Conditions = slice_elements c,
               NodesSelected = slice_elements s, NodesPreheated = slice_elements p,
               NodesWarming = slice_elements w, NodesWaiting = slice_elements wt,
               PrimerNodes = slice_elements pn\<rparr>"])
       (auto simp: Status_DeepCopyInto_def copy_pair_def valid_Status_def reach_Status_def val_Status_def)
qed

lemma copies_UpgradeAccelerator:
  "deep_copy (UpgradeAccelerator_DeepCopyInto L) valid_UpgradeAccelerator reach_UpgradeAccelerator
     val_UpgradeAccelerator"
  by (rule deep_copy_view [OF deep_copy_pair [OF object_meta deep_copy_pair [OF copies_Spec copies_Status]],
        where view = "\<lambda>x. (h_ObjectMeta x, h_Spec x, h_Status x)"
          and put = "\<lambda>(m, sp, st) x. x\<lparr>h_ObjectMeta := m, h_Spec := sp, h_Status := st\<rparr>"
          and rest = h_TypeMeta
          and build = "\<lambda>(m, sp, st) t. (t, \<lparr>Metadata = m, Spec = sp, Status = st\<rparr>)"])
     (auto simp: UpgradeAccelerator_DeepCopyInto_def copy_pair_def valid_UpgradeAccelerator_def
        reach_UpgradeAccelerator_def val_UpgradeAccelerator_def)

lemma copies_List: "deep_copy (List_DeepCopyInto L) valid_List reach_List val_List"
  by (rule deep_copy_view [OF deep_copy_pair [OF list_meta
          deep_copy_struct_slice [OF elem_types_ok(16) copies_UpgradeAccelerator]],
        where view = "\<lambda>x. (hli_ListMeta x, hli_Items x)"
          and put = "\<lambda>(m, i) x. x\<lparr>hli_ListMeta := m, hli_Items := i\<rparr>"
          and rest = hli_TypeMeta and build = "\<lambda>(m, i) t. (t, m, i)"])
     (auto simp: List_DeepCopyInto_def copy_pair_def valid_List_def reach_List_def val_List_def)

lemma copies_UpgradeAccelerator_object:
  "deep_copy (UpgradeAccelerator_DeepCopy L) (valid_pointer accelerator_elem valid_UpgradeAccelerator)
     (reach_pointer accelerator_elem reach_UpgradeAccelerator)
     (val_pointer accelerator_elem val_UpgradeAccelerator)"
  unfolding UpgradeAccelerator_DeepCopy_def
  by (rule deep_copy_pointer [OF elem_types_ok(16) copies_UpgradeAccelerator])

lemma copies_List_object:
  "deep_copy (List_DeepCopy L) (valid_pointer list_elem valid_List) (reach_pointer list_elem reach_List)
     (val_pointer list_elem val_List)"
  unfolding List_DeepCopy_def by (rule deep_copy_pointer [OF elem_types_ok(17) copies_List])

end

sublocale copying \<subseteq> accelerator_object: deep_copy "UpgradeAccelerator_DeepCopy L"
    "valid_pointer accelerator_elem valid_UpgradeAccelerator"
    "reach_pointer accelerator_elem reach_UpgradeAccelerator"
    "val_pointer accelerator_elem val_UpgradeAccelerator"
  by (rule copies_UpgradeAccelerator_object)

sublocale copying \<subseteq> list_object: deep_copy "List_DeepCopy L"
    "valid_pointer list_elem valid_List" "reach_pointer list_elem reach_List"
    "val_pointer list_elem val_List"
  by (rule copies_List_object)

sublocale copying \<subseteq> status_object: deep_copy "Status_DeepCopy L"
    "valid_pointer status_elem valid_Status" "reach_pointer status_elem reach_Status"
    "val_pointer status_elem val_Status"
  unfolding Status_DeepCopy_def by (rule deep_copy_pointer [OF elem_types_ok(15) copies_Status])

sublocale copying \<subseteq> spec_object: deep_copy "Spec_DeepCopy L"
    "valid_pointer spec_elem valid_Spec" "reach_pointer spec_elem reach_Spec"
    "val_pointer spec_elem val_Spec"
  unfolding Spec_DeepCopy_def by (rule deep_copy_pointer [OF elem_types_ok(14) copies_Spec])

interpretation override_object: deep_copy Override_DeepCopy
    "valid_pointer override_elem any_value" "reach_pointer override_elem no_refs"
    "val_pointer override_elem itself"
  unfolding Override_DeepCopy_def
  by (rule deep_copy_pointer [OF elem_types_ok(9)]) (simp add: Override_DeepCopyInto_def [abs_def] deep_copy_return)

section \<open>A library of copy functions\<close>

text \<open>
  Copy functions with the contract, written like the generated ones; they show that the
  hypotheses on the library can hold and let whole copies be computed.
\<close>

definition plain_library :: copy_library where
  "plain_library = \<lparr>
     LabelSelector_DeepCopyInto = (\<lambda>x. do {
       labels \<leftarrow> copy_pointer map_elem State_Monad.return (hl_MatchLabels x);
       exprs \<leftarrow> copy_struct_slice requirement_elem (\<lambda>r. do {
         values \<leftarrow> copy_plain_slice string_elem (hr_Values r);
         State_Monad.return (r\<lparr>hr_Values := values\<rparr>)
       }) (hl_MatchExpressions x);
       State_Monad.return (x\<lparr>hl_MatchLabels := labels, hl_MatchExpressions := exprs\<rparr>)
     }),
     Toleration_DeepCopyInto = (\<lambda>x. do {
       seconds \<leftarrow> copy_pointer int_elem State_Monad.return (ht_TolerationSeconds x);
       State_Monad.return (x\<lparr>ht_TolerationSeconds := seconds\<rparr>)
     }),
     Condition_DeepCopyInto = State_Monad.return,
     ObjectMeta_DeepCopyInto = (\<lambda>x. do {
       labels \<leftarrow> copy_pointer map_elem State_Monad.return (hm_Labels x);
       owners \<leftarrow> copy_plain_slice owner_elem (hm_OwnerReferences x);
       State_Monad.return (x\<lparr>hm_Labels := labels, hm_OwnerReferences := owners\<rparr>)
     }),
     ListMeta_DeepCopyInto = (\<lambda>x. do {
       count \<leftarrow> copy_pointer int_elem State_Monad.return (hlm_RemainingItemCount x);
       State_Monad.return (x\<lparr>hlm_RemainingItemCount := count\<rparr>)
     })\<rparr>"

lemma deep_copy_requirement:
  "deep_copy (\<lambda>r. do {
       values \<leftarrow> copy_plain_slice string_elem (hr_Values r);
       State_Monad.return (r\<lparr>hr_Values := values\<rparr>)
     }) valid_Requirement reach_Requirement val_Requirement"
  by (rule deep_copy_view [OF deep_copy_plain_slice [OF elem_types_ok(1)],
        where view = hr_Values and put = "\<lambda>v x. x\<lparr>hr_Values := v\<rparr>"
          and rest = "\<lambda>x. (hr_Key x, hr_Operator x)"
          and build = "\<lambda>v (k, p). \<lparr>lsr_Key = k, lsr_Operator = p, lsr_Values = slice_elements v\<rparr>"])
     (auto simp: valid_Requirement_def reach_Requirement_def val_Requirement_def)

lemma copying_plain_library: "copying plain_library"
proof (rule copying.intro)
  show "deep_copy (LabelSelector_DeepCopyInto plain_library) valid_LabelSelector reach_LabelSelector
      val_LabelSelector"
    by (rule deep_copy_view [OF deep_copy_pair [OF deep_copy_pointer [OF elem_types_ok(3) deep_copy_return]
            deep_copy_struct_slice [OF elem_types_ok(5) deep_copy_requirement]],
          where view = "\<lambda>x. (hl_MatchLabels x, hl_MatchExpressions x)"
            and put = "\<lambda>(l, e) x. x\<lparr>hl_MatchLabels := l, hl_MatchExpressions := e\<rparr>"
            and rest = "\<lambda>_. ()"
            and build = "\<lambda>(l, e) _. \<lparr>MatchLabels = slice_elements l, MatchExpressions = slice_elements e\<rparr>"])
       (auto simp: plain_library_def copy_pair_def valid_LabelSelector_def reach_LabelSelector_def
          val_LabelSelector_def)
  show "deep_copy (Toleration_DeepCopyInto plain_library) valid_Toleration reach_Toleration val_Toleration"
    by (rule deep_copy_view [OF deep_copy_pointer [OF elem_types_ok(2) deep_copy_return],
          where view = ht_TolerationSeconds and put = "\<lambda>s x. x\<lparr>ht_TolerationSeconds := s\<rparr>"
            and rest = "\<lambda>x. (ht_Key x, ht_Operator x, ht_Value x, ht_Effect x)"
            and build = "\<lambda>s (k, p, v, e). \<lparr>tol_Key = k, tol_Operator = p, tol_Value = v, tol_Effect = e,
              tol_TolerationSeconds = s\<rparr>"])
       (auto simp: plain_library_def valid_Toleration_def reach_Toleration_def val_Toleration_def)
  show "deep_copy (Condition_DeepCopyInto plain_library) any_value no_refs itself"
    by (simp add: plain_library_def deep_copy_return)
  show "deep_copy (ObjectMeta_DeepCopyInto plain_library) valid_ObjectMeta reach_ObjectMeta val_ObjectMeta"
    by (rule deep_copy_view [OF deep_copy_pair [OF deep_copy_pointer [OF elem_types_ok(3) deep_copy_return]
            deep_copy_plain_slice [OF elem_types_ok(4)]],
          where view = "\<lambda>x. (hm_Labels x, hm_OwnerReferences x)"
            and put = "\<lambda>(l, r) x. x\<lparr>hm_Labels := l, hm_OwnerReferences := r\<rparr>"
            and rest = "\<lambda>x. (hm_Name x, hm_Namespace x, hm_UID x, hm_ResourceVersion x, hm_Generation x)"
            and build = "\<lambda>(l, r) (n, ns, u, rv, g). \<lparr>Name = n, Namespace = ns, UID = u, ResourceVersion = rv,
              Generation = g, Labels = slice_elements l, OwnerReferences = slice_elements r\<rparr>"])
       (auto simp: plain_library_def copy_pair_def valid_ObjectMeta_def reach_ObjectMeta_def val_ObjectMeta_def)
  show "deep_copy (ListMeta_DeepCopyInto plain_library) valid_ListMeta reach_ListMeta val_ListMeta"
    by (rule deep_copy_view [OF deep_copy_pointer [OF elem_types_ok(2) deep_copy_return],
          where view = hlm_RemainingItemCount and put = "\<lambda>c x. x\<lparr>hlm_RemainingItemCount := c\<rparr>"
            and rest = "\<lambda>x. (hlm_ResourceVersion x, hlm_Continue x)"
            and build = "\<lambda>c (v, k). (v, k, c)"])
       (auto simp: plain_library_def valid_ListMeta_def reach_ListMeta_def val_ListMeta_def)
qed

interpretation plain_copies: copying plain_library
  by (rule copying_plain_library)

section \<open>The custom resource\<close>

text \<open>C12: DeepCopy of a custom resource refines the identity on values: it changes no
cell that was allocated before, the copy reads as the same value, all of its slices, maps and
pointers included, and everything the copy reaches lies in cells the call allocated; nil gives
nil. The copies of the types outside the repository are assumed to do the same.\<close>

theorem UpgradeAccelerator_DeepCopy_spec:
  assumes "copying L"
    and "valid_pointer accelerator_elem valid_UpgradeAccelerator h inp"
    and "run_state (UpgradeAccelerator_DeepCopy L inp) h = (out, h')"
  shows "take (length h) h' = h \<and>
         val_pointer accelerator_elem val_UpgradeAccelerator h' out =
           val_pointer accelerator_elem val_UpgradeAccelerator h inp \<and>
         reach_pointer accelerator_elem reach_UpgradeAccelerator h' out \<subseteq> {length h..<length h'}"
  using deep_copy.copies [OF copying.copies_UpgradeAccelerator_object [OF assms(1)] assms(2,3)]
  by (auto simp: fresh_for_def)

text \<open>C11: A copy and its original are independent, so the reconciler may mutate an object
the cache handed out as a copy: later writes to any cell but those of the original heap leave
the original as it reads, and later writes to the original heap leave the copy as it
reads.\<close>

theorem UpgradeAccelerator_DeepCopy_independent:
  assumes "copying L"
    and "valid_pointer accelerator_elem valid_UpgradeAccelerator h inp"
    and "run_state (UpgradeAccelerator_DeepCopy L inp) h = (out, h')"
    and "length h' \<le> length h2"
  shows "((\<forall>a < length h. h2 ! a = h' ! a) \<longrightarrow>
            val_pointer accelerator_elem val_UpgradeAccelerator h2 inp =
              val_pointer accelerator_elem val_UpgradeAccelerator h inp) \<and>
         ((\<forall>a. length h \<le> a \<longrightarrow> a < length h' \<longrightarrow> h2 ! a = h' ! a) \<longrightarrow>
            val_pointer accelerator_elem val_UpgradeAccelerator h2 out =
              val_pointer accelerator_elem val_UpgradeAccelerator h inp)"
  using deep_copy.independent [OF copying.copies_UpgradeAccelerator_object [OF assms(1)] assms(2,3), of h2]
    assms(4)
  by (auto simp: agrees_def)

text \<open>
  The object behind the interface is nil for a nil list only, reads as the list does and shares
  no cell with it.
\<close>

theorem List_DeepCopyObject_spec:
  assumes "copying L"
    and "valid_pointer list_elem valid_List h inp"
    and "run_state (List_DeepCopyObject L inp) h = (object, h')"
  shows "(object = None \<longleftrightarrow> inp = None) \<and>
         (\<forall>out. object = Some (UpgradeAcceleratorListObject out) \<longrightarrow>
            val_pointer list_elem val_List h' (Some out) = val_pointer list_elem val_List h inp \<and>
            reach_pointer list_elem reach_List h' (Some out) \<inter> reach_pointer list_elem reach_List h' inp = {})"
proof -
  from assms(3) obtain out where run: "run_state (List_DeepCopy L inp) h = (out, h')"
    and object: "object = map_option UpgradeAcceleratorListObject out"
    by (auto simp: List_DeepCopyObject_def split: prod.splits)
  note copy = copying.copies_List_object [OF assms(1)]
  from deep_copy.copies [OF copy assms(2) run] have out: "fresh_for h h' (reach_pointer list_elem reach_List h' out)"
    "val_pointer list_elem val_List h' out = val_pointer list_elem val_List h inp" by auto
  from out(1) obtain new where h': "h' = h @ new" by (auto simp: fresh_for_def)
  from deep_copy.extend [OF copy assms(2), of new] deep_copy.bounded [OF copy assms(2)]
  have "reach_pointer list_elem reach_List h' inp \<subseteq> {..<length h}" by (simp add: h')
  moreover from out(1) have "reach_pointer list_elem reach_List h' out \<subseteq> {length h..<length h'}"
    by (simp add: fresh_for_def)
  ultimately have apart: "reach_pointer list_elem reach_List h' out \<inter> reach_pointer list_elem reach_List h' inp = {}"
    by fastforce
  have "out = None \<longleftrightarrow> inp = None"
    using out(2) by (auto simp: val_pointer_def split: option.splits)
  with out(2) apart show ?thesis by (auto simp: object)
qed

text \<open>An accelerator in memory: one waiting and one warming node in two windows of one array.\<close>

definition cached_accelerator :: h_UpgradeAccelerator where
  "cached_accelerator = zero_h_UpgradeAccelerator\<lparr>
     h_ObjectMeta := zero_h_ObjectMeta\<lparr>hm_Name := ''ua'', hm_Labels := Some (1, 0)\<rparr>,
     h_Spec := zero_h_Spec\<lparr>h_Selector := \<lparr>h_NodeSelector = Some (3, 0), h_MachineConfigPools = NilSlice\<rparr>,
       h_Config := zero_h_Config\<lparr>h_Scheduling := \<lparr>h_Tolerations = SliceOf 4 0 1, h_Namespace = []\<rparr>\<rparr>\<rparr>,
     h_Status := zero_h_Status\<lparr>h_NodesWaiting := SliceOf 0 0 1, h_NodesWarming := SliceOf 0 1 1,
       h_Conditions := SliceOf 2 0 1\<rparr>\<rparr>"

definition cache :: heap where
  "cache =
     [Strings [''a'', ''b''],
      Maps [[(''app'', ''x'')], [(''role'', ''worker'')]],
      ConditionCells [zero condition_elem\<lparr>cond_Type := ''Running''\<rparr>],
      LabelSelectors [\<lparr>hl_MatchLabels = Some (1, 1), hl_MatchExpressions = NilSlice\<rparr>],
      TolerationCells [zero toleration_elem\<lparr>ht_Key := ''k'', ht_TolerationSeconds := Some (5, 0)\<rparr>],
      Ints [300],
      Accelerators [cached_accelerator],
      Lists [zero_h_List\<lparr>hli_Items := SliceOf 6 0 1\<rparr>]]"

lemmas cache_defs = cache_def cached_accelerator_def zero_h_UpgradeAccelerator_def zero_h_ObjectMeta_def
  zero_h_Spec_def zero_h_Selector_def zero_h_Config_def zero_h_Scheduling_def zero_h_Status_def
  zero_h_List_def zero_TypeMeta_def

lemma valid_cache:
  "valid_pointer accelerator_elem valid_UpgradeAccelerator cache (Some (6, 0))"
  "valid_pointer list_elem valid_List cache (Some (7, 0))"
  by code_simp+

lemma copy_of_cached:
  "\<exists>out new. run_state (UpgradeAccelerator_DeepCopy plain_library (Some (6, 0))) cache = (Some out, cache @ new) \<and>
     NodesWaiting (Status (snd (the (val_pointer accelerator_elem val_UpgradeAccelerator (cache @ new) (Some out))))) = [''a'']"
  by (rule exI [of _ "(8, 0)"],
      rule exI [of _ "drop 8 (snd (run_state (UpgradeAccelerator_DeepCopy plain_library (Some (6, 0))) cache))"])
     code_simp


theorem UpgradeAccelerator_DeepCopy_spec_witness:
  "\<exists>out h'. run_state (UpgradeAccelerator_DeepCopy plain_library (Some (6, 0))) cache = (out, h') \<and>
     take (length cache) h' = cache \<and>
     val_pointer accelerator_elem val_UpgradeAccelerator h' out =
       val_pointer accelerator_elem val_UpgradeAccelerator cache (Some (6, 0))"
proof -
  obtain out h' where run: "run_state (UpgradeAccelerator_DeepCopy plain_library (Some (6, 0))) cache = (out, h')"
    by (metis surj_pair)
  from UpgradeAccelerator_DeepCopy_spec [OF copying_plain_library valid_cache(1) run] run show ?thesis by blast
qed

text \<open>Every cell of the copy overwritten: the cached object still reads as before.\<close>

theorem UpgradeAccelerator_DeepCopy_independent_witness:
  "\<exists>out h'. run_state (UpgradeAccelerator_DeepCopy plain_library (Some (6, 0))) cache = (out, h') \<and>
     val_pointer accelerator_elem val_UpgradeAccelerator
       (take (length cache) h' @ replicate (length h' - length cache) (Strings [''z''])) (Some (6, 0)) =
     val_pointer accelerator_elem val_UpgradeAccelerator cache (Some (6, 0))"
proof -
  obtain out h' where run: "run_state (UpgradeAccelerator_DeepCopy plain_library (Some (6, 0))) cache = (out, h')"
    by (metis surj_pair)
  let ?h2 = "take (length cache) h' @ replicate (length h' - length cache) (Strings [''z''])"
  have "length h' \<le> length ?h2" "\<forall>a < length cache. ?h2 ! a = h' ! a"
    using deep_copy.copies [OF copying.copies_UpgradeAccelerator_object [OF copying_plain_library] valid_cache(1) run]
    by (auto simp: fresh_for_def nth_append)
  with UpgradeAccelerator_DeepCopy_independent [OF copying_plain_library valid_cache(1) run, of ?h2] run
  show ?thesis by blast
qed

theorem List_DeepCopyObject_spec_witness:
  "\<exists>object h'. run_state (List_DeepCopyObject plain_library (Some (7, 0))) cache = (object, h') \<and> object \<noteq> None"
proof -
  obtain object h' where run: "run_state (List_DeepCopyObject plain_library (Some (7, 0))) cache = (object, h')"
    by (metis surj_pair)
  from List_DeepCopyObject_spec [OF copying_plain_library valid_cache(2) run] run show ?thesis by blast
qed

end
