(* ===== verification/Entrypoint.thy ===== *)
theory Entrypoint
  imports Client
begin

text \<open>
  \<open>cmd/main.go\<close>: the scheme registration of \<open>init\<close>, the flags with the parser of package \<open>flag\<close>, the
  TLS options of the two servers, the options of the manager and the calls that start it. The flags other libraries register
  (zap, the kubeconfig flag) and the calls into controller-runtime are arguments of the model.
\<close>

section \<open>Flags\<close>

record flags =
  metricsAddr :: string
  metricsCertPath :: string
  metricsCertName :: string
  metricsCertKey :: string
  webhookCertPath :: string
  webhookCertName :: string
  webhookCertKey :: string
  enableLeaderElection :: bool
  probeAddr :: string
  secureMetrics :: bool
  enableHTTP2 :: bool

text \<open>A registered flag: how its \<open>Value.Set\<close> changes the variables, and whether it is boolean.\<close>

datatype flag_value = StringVar "string \<Rightarrow> flags \<Rightarrow> flags" | BoolVar "bool \<Rightarrow> flags \<Rightarrow> flags"

definition flag_set :: "(string \<times> flag_value) list" where
  "flag_set =
     [(''metrics-bind-address'', StringVar (\<lambda>v f. f\<lparr>metricsAddr := v\<rparr>)),
      (''health-probe-bind-address'', StringVar (\<lambda>v f. f\<lparr>probeAddr := v\<rparr>)),
      (''leader-elect'', BoolVar (\<lambda>v f. f\<lparr>enableLeaderElection := v\<rparr>)),
      (''metrics-secure'', BoolVar (\<lambda>v f. f\<lparr>secureMetrics := v\<rparr>)),
      (''webhook-cert-path'', StringVar (\<lambda>v f. f\<lparr>webhookCertPath := v\<rparr>)),
      (''webhook-cert-name'', StringVar (\<lambda>v f. f\<lparr>webhookCertName := v\<rparr>)),
      (''webhook-cert-key'', StringVar (\<lambda>v f. f\<lparr>webhookCertKey := v\<rparr>)),
      (''metrics-cert-path'', StringVar (\<lambda>v f. f\<lparr>metricsCertPath := v\<rparr>)),
      (''metrics-cert-name'', StringVar (\<lambda>v f. f\<lparr>metricsCertName := v\<rparr>)),
      (''metrics-cert-key'', StringVar (\<lambda>v f. f\<lparr>metricsCertKey := v\<rparr>)),
      (''enable-http2'', BoolVar (\<lambda>v f. f\<lparr>enableHTTP2 := v\<rparr>))]"

definition default_flags :: flags where
  "default_flags =
     \<lparr>metricsAddr = ''0'', metricsCertPath = [], metricsCertName = ''tls.crt'', metricsCertKey = ''tls.key'',
      webhookCertPath = [], webhookCertName = ''tls.crt'', webhookCertKey = ''tls.key'',
      enableLeaderElection = False, probeAddr = '':8081'', secureMetrics = True, enableHTTP2 = False\<rparr>"

text \<open>The spellings \<open>strconv.ParseBool\<close> takes.\<close>

definition ParseBool :: "string \<Rightarrow> bool option" where
  "ParseBool s =
     (if s \<in> set [''1'', ''t'', ''T'', ''true'', ''TRUE'', ''True''] then Some True
      else if s \<in> set [''0'', ''f'', ''F'', ''false'', ''FALSE'', ''False''] then Some False
      else None)"

text \<open>
  One argument (\<open>FlagSet.parseOne\<close>): not a flag, so that parsing ends; bad syntax; or the name of
  a flag with the value after its first equals sign, if it has one. A name may not begin with one.
\<close>

datatype argument = NotAFlag | BadSyntax | Flag string "string option"

fun split_equals :: "string \<Rightarrow> string \<times> string option" where
  "split_equals [] = ([], None)"
| "split_equals (c # cs) =
     (if c = CHR ''='' then ([], Some cs)
      else (case split_equals cs of (name, v) \<Rightarrow> (c # name, v)))"

definition flag_name :: "string \<Rightarrow> argument" where
  "flag_name name =
     (case name of
        [] \<Rightarrow> BadSyntax
      | c # cs \<Rightarrow>
          if c = CHR ''-'' \<or> c = CHR ''='' then BadSyntax
          else (case split_equals cs of (rest, v) \<Rightarrow> Flag (c # rest) v))"

definition read_argument :: "string \<Rightarrow> argument" where
  "read_argument s =
     (if length s < 2 \<or> hd s \<noteq> CHR ''-'' then NotAFlag
      else if s ! 1 = CHR ''-'' then (if length s = 2 then NotAFlag else flag_name (drop 2 s))
      else flag_name (drop 1 s))"

text \<open>
  How the process ends before \<open>main\<close> goes on: \<open>flag.Parse\<close> exits with 0 after printing the usage
  and with 2 after an error.
\<close>

datatype exit = Exit nat

text \<open>A flag another library registered: whether it is boolean and which values it takes.\<close>

type_synonym library_flags = "string \<Rightarrow> (bool \<times> (string \<Rightarrow> bool)) option"

definition set_flag :: "library_flags \<Rightarrow> string \<Rightarrow> string \<Rightarrow> flags \<Rightarrow> flags option" where
  "set_flag lib name v f =
     (case map_of flag_set name of
        Some (StringVar upd) \<Rightarrow> Some (upd v f)
      | Some (BoolVar upd) \<Rightarrow> map_option (\<lambda>b. upd b f) (ParseBool v)
      | None \<Rightarrow> (case lib name of Some (_, accepts) \<Rightarrow> if accepts v then Some f else None | None \<Rightarrow> None))"

definition is_bool_flag :: "library_flags \<Rightarrow> string \<Rightarrow> bool option" where
  "is_bool_flag lib name =
     (case map_of flag_set name of
        Some (StringVar _) \<Rightarrow> Some False
      | Some (BoolVar _) \<Rightarrow> Some True
      | None \<Rightarrow> map_option fst (lib name))"

function parse_flags :: "library_flags \<Rightarrow> string list \<Rightarrow> flags \<Rightarrow> exit + flags" where
  "parse_flags lib [] f = Inr f"
| "parse_flags lib (s # args) f =
     (case read_argument s of
        NotAFlag \<Rightarrow> Inr f
      | BadSyntax \<Rightarrow> Inl (Exit 2)
      | Flag name v \<Rightarrow>
          (case is_bool_flag lib name of
             None \<Rightarrow> Inl (Exit (if name = ''help'' \<or> name = ''h'' then 0 else 2))
           | Some True \<Rightarrow>
               (case set_flag lib name (case v of Some v \<Rightarrow> v | None \<Rightarrow> ''true'') f of
                  None \<Rightarrow> Inl (Exit 2) | Some f' \<Rightarrow> parse_flags lib args f')
           | Some False \<Rightarrow>
               (case (v, args) of
                  (Some v, _) \<Rightarrow>
                    (case set_flag lib name v f of None \<Rightarrow> Inl (Exit 2) | Some f' \<Rightarrow> parse_flags lib args f')
                | (None, v # rest) \<Rightarrow>
                    (case set_flag lib name v f of None \<Rightarrow> Inl (Exit 2) | Some f' \<Rightarrow> parse_flags lib rest f')
                | (None, []) \<Rightarrow> Inl (Exit 2))))"
  by pat_completeness auto
termination by (relation "measure (\<lambda>(_, args, _). length args)") auto

section \<open>Paths\<close>

text \<open>\<open>filepath.Join\<close> of two elements: empty elements are dropped, the result is cleaned.\<close>

fun path_elements :: "string \<Rightarrow> string \<Rightarrow> string list" where
  "path_elements acc [] = [rev acc]"
| "path_elements acc (c # cs) =
     (if c = CHR ''/'' then rev acc # path_elements [] cs else path_elements (c # acc) cs)"

definition clean_element :: "bool \<Rightarrow> string \<Rightarrow> string list \<Rightarrow> string list" where
  "clean_element rooted e out =
     (if e = [] \<or> e = ''.'' then out
      else if e = ''..'' then
        (if out \<noteq> [] \<and> last out \<noteq> ''..'' then butlast out
         else if rooted then out else out @ [e])
      else out @ [e])"

definition filepath_Clean :: "string \<Rightarrow> string" where
  "filepath_Clean path =
     (let rooted = (path \<noteq> [] \<and> hd path = CHR ''/'');
          out = fold (clean_element rooted) (path_elements [] path) [];
          cleaned = (if rooted then ''/'' else []) @ strings_Join out ''/''
      in if cleaned = [] then ''.'' else cleaned)"

definition filepath_Join :: "string \<Rightarrow> string \<Rightarrow> string" where
  "filepath_Join dir file =
     (if dir = [] \<and> file = [] then []
      else filepath_Clean (strings_Join (filter (\<lambda>e. e \<noteq> []) [dir, file]) ''/''))"

section \<open>TLS options\<close>

text \<open>A certificate watcher is named by the two files it was created for.\<close>

record cert_watcher =
  cw_Cert :: string
  cw_Key :: string

record tls_Config =
  NextProtos :: "string list"
  GetCertificate :: "cert_watcher option"

datatype tls_option = disableHTTP2 | GetCertificateFrom cert_watcher

fun apply_tls_option :: "tls_option \<Rightarrow> tls_Config \<Rightarrow> tls_Config" where
  "apply_tls_option disableHTTP2 c = c\<lparr>NextProtos := [''http/1.1'']\<rparr>"
| "apply_tls_option (GetCertificateFrom w) c = c\<lparr>GetCertificate := Some w\<rparr>"

text \<open>A server applies its options in order.\<close>

definition apply_tls_options :: "tls_option list \<Rightarrow> tls_Config \<Rightarrow> tls_Config" where
  "apply_tls_options opts c = fold apply_tls_option opts c"

definition base_tls_options :: "flags \<Rightarrow> tls_option list" where
  "base_tls_options f = (if \<not> enableHTTP2 f then [disableHTTP2] else [])"

section \<open>The start of the manager\<close>

record metrics_Options =
  mo_BindAddress :: string
  mo_SecureServing :: bool
  mo_TLSOpts :: "tls_option list"
  mo_WithAuthenticationAndAuthorization :: bool

record manager_Options =
  Metrics :: metrics_Options
  WebhookServer :: "tls_option list"
  HealthProbeBindAddress :: string
  LeaderElection :: bool
  LeaderElectionID :: string

datatype scheme_package = clientgoscheme | openshiftv1alpha1 | machineconfigv1 | configv1

datatype main_call =
    AddToScheme scheme_package
  | NewCertWatcher cert_watcher
  | GetConfig
  | NewManager manager_Options
  | SetupController
  | AddRunnable cert_watcher
  | AddHealthzCheck string
  | AddReadyzCheck string
  | StartManager

text \<open>What a call answers: an error or nil, any function of the calls before it.\<close>

type_synonym main_env = "main_call list \<Rightarrow> main_call \<Rightarrow> error option"

type_synonym 'a main = "(main_call list, (exit, 'a) ctl) state"

text \<open>
  A call whose error ends the process: logged and with \<open>os.Exit(1)\<close>, or by the panic of
  \<open>utilruntime.Must\<close>, with which a Go process exits with 2.
\<close>

definition exit_on_error :: "nat \<Rightarrow> main_env \<Rightarrow> main_call \<Rightarrow> unit main" where
  "exit_on_error n E c = do {
     tr \<leftarrow> State_Monad.get;
     State_Monad.set (tr @ [c]);
     State_Monad.return (case E tr c of Some err \<Rightarrow> Stop (Exit n) | None \<Rightarrow> Next ())
   }"

definition must :: "main_env \<Rightarrow> main_call \<Rightarrow> unit main" where
  "must E c = exit_on_error 1 E c"

definition Must :: "main_env \<Rightarrow> main_call \<Rightarrow> unit main" where
  "Must E c = exit_on_error 2 E c"

definition go_ahead :: "'a \<Rightarrow> 'a main" where
  "go_ahead a = State_Monad.return (Next a)"

definition new_watcher :: "main_env \<Rightarrow> string \<Rightarrow> string \<Rightarrow> string \<Rightarrow> cert_watcher option main" where
  "new_watcher E path name key =
     (if length path > 0
      then let w = \<lparr>cw_Cert = filepath_Join path name, cw_Key = filepath_Join path key\<rparr>
           in and_then (must E (NewCertWatcher w)) (\<lambda>_. go_ahead (Some w))
      else go_ahead None)"

definition with_certificate :: "tls_option list \<Rightarrow> cert_watcher option \<Rightarrow> tls_option list" where
  "with_certificate opts w = (case w of None \<Rightarrow> opts | Some w \<Rightarrow> opts @ [GetCertificateFrom w])"

definition metricsServerOptions :: "flags \<Rightarrow> cert_watcher option \<Rightarrow> metrics_Options" where
  "metricsServerOptions f metricsCertWatcher =
     \<lparr>mo_BindAddress = metricsAddr f, mo_SecureServing = secureMetrics f,
      mo_TLSOpts = with_certificate (base_tls_options f) metricsCertWatcher,
      mo_WithAuthenticationAndAuthorization = secureMetrics f\<rparr>"

definition manager_options :: "flags \<Rightarrow> cert_watcher option \<Rightarrow> cert_watcher option \<Rightarrow> manager_Options" where
  "manager_options f webhookCertWatcher metricsCertWatcher =
     \<lparr>Metrics = metricsServerOptions f metricsCertWatcher,
      WebhookServer = with_certificate (base_tls_options f) webhookCertWatcher,
      HealthProbeBindAddress = probeAddr f,
      LeaderElection = enableLeaderElection f,
      LeaderElectionID = ''203bc5ad.kemo.dev''\<rparr>"

definition add_watcher :: "main_env \<Rightarrow> cert_watcher option \<Rightarrow> unit main" where
  "add_watcher E w = (case w of None \<Rightarrow> go_ahead () | Some w \<Rightarrow> must E (AddRunnable w))"

definition run_main :: "main_env \<Rightarrow> flags \<Rightarrow> unit main" where
  "run_main E f =
     and_then (new_watcher E (webhookCertPath f) (webhookCertName f) (webhookCertKey f)) (\<lambda>webhookCertWatcher.
     and_then (new_watcher E (metricsCertPath f) (metricsCertName f) (metricsCertKey f)) (\<lambda>metricsCertWatcher.
     and_then (must E GetConfig) (\<lambda>_.
     and_then (must E (NewManager (manager_options f webhookCertWatcher metricsCertWatcher))) (\<lambda>_.
     and_then (must E SetupController) (\<lambda>_.
     and_then (add_watcher E metricsCertWatcher) (\<lambda>_.
     and_then (add_watcher E webhookCertWatcher) (\<lambda>_.
     and_then (must E (AddHealthzCheck ''healthz'')) (\<lambda>_.
     and_then (must E (AddReadyzCheck ''readyz'')) (\<lambda>_.
     must E StartManager)))))))))"

text \<open>The function \<open>main\<close>: the exit code of the process and the calls it made.\<close>

definition main :: "main_env \<Rightarrow> library_flags \<Rightarrow> string list \<Rightarrow> exit \<times> main_call list" where
  "main E lib args =
     (case parse_flags lib args default_flags of
        Inl e \<Rightarrow> (e, [])
      | Inr f \<Rightarrow>
          (case run_state (run_main E f) [] of
             (Stop e, tr) \<Rightarrow> (e, tr)
           | (Next _, tr) \<Rightarrow> (Exit 0, tr)))"

text \<open>The process: \<open>init\<close> of the package fills the scheme before \<open>main\<close> runs.\<close>

definition init :: "main_env \<Rightarrow> unit main" where
  "init E =
     and_then (Must E (AddToScheme clientgoscheme)) (\<lambda>_.
     and_then (Must E (AddToScheme openshiftv1alpha1)) (\<lambda>_.
     and_then (Must E (AddToScheme machineconfigv1)) (\<lambda>_.
     Must E (AddToScheme configv1))))"

definition process :: "main_env \<Rightarrow> library_flags \<Rightarrow> string list \<Rightarrow> exit \<times> main_call list" where
  "process E lib args =
     (case run_state (init E) [] of
        (Stop e, tr) \<Rightarrow> (e, tr)
      | (Next _, tr) \<Rightarrow>
          (case main (\<lambda>tr'. E (tr @ tr')) lib args of (e, tr') \<Rightarrow> (e, tr @ tr')))"

section \<open>Starting up\<close>

text \<open>The calls of a start that meets no error, in order.\<close>

definition option_list :: "'a option \<Rightarrow> 'a list" where
  "option_list x = (case x of None \<Rightarrow> [] | Some a \<Rightarrow> [a])"

definition watcher_of :: "string \<Rightarrow> string \<Rightarrow> string \<Rightarrow> cert_watcher option" where
  "watcher_of path name key =
     (if path = [] then None
      else Some \<lparr>cw_Cert = filepath_Join path name, cw_Key = filepath_Join path key\<rparr>)"

definition webhook_watcher :: "flags \<Rightarrow> cert_watcher option" where
  "webhook_watcher f = watcher_of (webhookCertPath f) (webhookCertName f) (webhookCertKey f)"

definition metrics_watcher :: "flags \<Rightarrow> cert_watcher option" where
  "metrics_watcher f = watcher_of (metricsCertPath f) (metricsCertName f) (metricsCertKey f)"

definition startup_calls :: "flags \<Rightarrow> main_call list" where
  "startup_calls f =
     map NewCertWatcher (option_list (webhook_watcher f) @ option_list (metrics_watcher f)) @
     [GetConfig, NewManager (manager_options f (webhook_watcher f) (metrics_watcher f)), SetupController] @
     map AddRunnable (option_list (metrics_watcher f) @ option_list (webhook_watcher f)) @
     [AddHealthzCheck ''healthz'', AddReadyzCheck ''readyz'', StartManager]"

fun exit_all :: "nat \<Rightarrow> main_env \<Rightarrow> main_call list \<Rightarrow> unit main" where
  "exit_all n E [] = go_ahead ()"
| "exit_all n E (c # cs) = and_then (exit_on_error n E c) (\<lambda>_. exit_all n E cs)"

lemma run_go_ahead [simp]: "run_state (go_ahead a) tr = (Next a, tr)"
  by (simp add: go_ahead_def)

lemma and_then_assoc: "and_then (and_then m f) g = and_then m (\<lambda>x. and_then (f x) g)"
  by (rule state.expand, rule ext) (auto simp: run_and_then split: prod.splits ctl.splits)

lemma and_then_go_ahead: "and_then (go_ahead a) g = g a"
  by (rule state.expand, rule ext) (simp add: run_and_then)

lemma and_then_end: "and_then m go_ahead = m"
  by (rule state.expand, rule ext) (auto simp: run_and_then split: prod.splits ctl.splits)

lemma run_main_calls: "run_main E f = exit_all 1 E (startup_calls f)"
  by (cases "webhookCertPath f = []"; cases "metricsCertPath f = []")
     (simp_all add: run_main_def new_watcher_def add_watcher_def startup_calls_def webhook_watcher_def
        metrics_watcher_def watcher_of_def option_list_def must_def Let_def and_then_assoc and_then_go_ahead and_then_end)

lemma run_exit_all:
  "((\<forall>i < length cs. E (pre @ take i cs) (cs ! i) = None) \<and>
      run_state (exit_all n E cs) pre = (Next (), pre @ cs)) \<or>
   (\<exists>k < length cs. (\<forall>i < k. E (pre @ take i cs) (cs ! i) = None) \<and> E (pre @ take k cs) (cs ! k) \<noteq> None \<and>
      run_state (exit_all n E cs) pre = (Stop (Exit n), pre @ take (Suc k) cs))"
proof (induction cs arbitrary: pre)
  case Nil
  then show ?case by simp
next
  case (Cons c cs)
  show ?case
  proof (cases "E pre c")
    case (Some err)
    then have "run_state (exit_all n E (c # cs)) pre = (Stop (Exit n), pre @ [c])"
      by (simp add: exit_on_error_def run_and_then)
    with Some show ?thesis by (intro disjI2 exI [of _ 0]) simp
  next
    case None
    then have run: "run_state (exit_all n E (c # cs)) pre = run_state (exit_all n E cs) (pre @ [c])"
      by (simp add: exit_on_error_def run_and_then)
    from Cons.IH [of "pre @ [c]"] show ?thesis
    proof (elim disjE exE conjE)
      assume "\<forall>i < length cs. E ((pre @ [c]) @ take i cs) (cs ! i) = None"
        and "run_state (exit_all n E cs) (pre @ [c]) = (Next (), (pre @ [c]) @ cs)"
      with None run show ?thesis by (simp add: All_less_Suc2)
    next
      fix k assume "k < length cs" "\<forall>i < k. E ((pre @ [c]) @ take i cs) (cs ! i) = None"
        "E ((pre @ [c]) @ take k cs) (cs ! k) \<noteq> None"
        "run_state (exit_all n E cs) (pre @ [c]) = (Stop (Exit n), (pre @ [c]) @ take (Suc k) cs)"
      with None run show ?thesis by (intro disjI2 exI [of _ "Suc k"]) (simp add: All_less_Suc2)
    qed
  qed
qed

text \<open>How a start ends: all calls made, or those up to the first that fails.\<close>

definition starts :: "main_env \<Rightarrow> (nat \<Rightarrow> nat) \<Rightarrow> main_call list \<Rightarrow> exit \<times> main_call list \<Rightarrow> bool" where
  "starts E code calls r \<longleftrightarrow>
     (r = (Exit 0, calls) \<and> (\<forall>i < length calls. E (take i calls) (calls ! i) = None)) \<or>
     (\<exists>k < length calls. r = (Exit (code k), take (Suc k) calls) \<and>
        (\<forall>i < k. E (take i calls) (calls ! i) = None) \<and> E (take k calls) (calls ! k) \<noteq> None)"

lemma main_run:
  assumes "parse_flags lib args default_flags = Inr f"
  shows "starts E (\<lambda>_. 1) (startup_calls f) (main E lib args)"
  using run_exit_all [where pre = "[]" and cs = "startup_calls f" and E = E and n = 1] assms
  by (auto simp: starts_def main_def run_main_calls)

definition init_calls :: "main_call list" where
  "init_calls = map AddToScheme [clientgoscheme, openshiftv1alpha1, machineconfigv1, configv1]"

lemma run_init: "init E = exit_all 2 E init_calls"
  by (simp add: init_def init_calls_def Must_def and_then_end)

lemma starts_append:
  assumes "\<forall>i < length a. E (take i a) (a ! i) = None" and "starts (\<lambda>tr. E (a @ tr)) code b (e, tr)"
  shows "starts E (\<lambda>k. if k < length a then n else code (k - length a)) (a @ b) (e, a @ tr)"
proof -
  have first: "E (take i (a @ b)) ((a @ b) ! i) = None" if "i < length a" for i
    using assms(1) that by (simp add: nth_append)
  have second: "E (take i (a @ b)) ((a @ b) ! i) = E (a @ take (i - length a) b) (b ! (i - length a))"
    if "\<not> i < length a" for i using that by (simp add: nth_append)
  from assms(2) consider
    (all) "(e, tr) = (Exit 0, b)" "\<forall>i < length b. E (a @ take i b) (b ! i) = None"
  | (stop) k where "k < length b" "(e, tr) = (Exit (code k), take (Suc k) b)"
      "\<forall>i < k. E (a @ take i b) (b ! i) = None" "E (a @ take k b) (b ! k) \<noteq> None"
    unfolding starts_def by blast
  then show ?thesis
  proof cases
    case all
    then have "E (take i (a @ b)) ((a @ b) ! i) = None" if "i < length (a @ b)" for i
      using first [of i] second [of i] that by (cases "i < length a") auto
    with all(1) show ?thesis unfolding starts_def by blast
  next
    case stop
    then have "E (take i (a @ b)) ((a @ b) ! i) = None" if "i < length a + k" for i
      using first [of i] second [of i] that by (cases "i < length a") auto
    with stop second [of "length a + k"] show ?thesis
      unfolding starts_def by (intro disjI2 exI [of _ "length a + k"]) simp
  qed
qed

lemma process_run:
  assumes "parse_flags lib args default_flags = Inr f"
  shows "starts E (\<lambda>k. if k < 4 then 2 else 1) (init_calls @ startup_calls f) (process E lib args)"
proof -
  have four: "length init_calls = 4" by (simp add: init_calls_def)
  from run_exit_all [where pre = "[]" and cs = init_calls and E = E and n = 2]
  show ?thesis
  proof (elim disjE exE conjE)
    assume ok: "\<forall>i < length init_calls. E ([] @ take i init_calls) (init_calls ! i) = None"
      and run: "run_state (exit_all 2 E init_calls) [] = (Next (), [] @ init_calls)"
    obtain e tr where main: "main (\<lambda>tr'. E (init_calls @ tr')) lib args = (e, tr)" by fastforce
    with main_run [OF assms, of "\<lambda>tr'. E (init_calls @ tr')"]
    have "starts (\<lambda>tr'. E (init_calls @ tr')) (\<lambda>_. 1) (startup_calls f) (e, tr)" by simp
    from starts_append [OF _ this, of 2] ok four main run show ?thesis
      by (simp add: process_def run_init)
  next
    fix k
    assume k: "k < length init_calls" "\<forall>i < k. E ([] @ take i init_calls) (init_calls ! i) = None"
      "E ([] @ take k init_calls) (init_calls ! k) \<noteq> None"
      and run: "run_state (exit_all 2 E init_calls) [] = (Stop (Exit 2), [] @ take (Suc k) init_calls)"
    then show ?thesis
      using four by (auto simp: process_def run_init starts_def nth_append intro!: exI [of _ k])
  qed
qed

text \<open>C37: The process registers its four schemes and makes the start-up calls in order
(certificate watchers, configuration, manager with its options, controller, watchers added,
health and ready checks, start) up to the first that fails: it exits right after that call, with
2 when a scheme was refused and with 1 otherwise, and with 0 when none fails.\<close>

theorem main_calls:
  assumes "parse_flags lib args default_flags = Inr f"
    and "calls = map AddToScheme [clientgoscheme, openshiftv1alpha1, machineconfigv1, configv1] @
                 startup_calls f"
  shows "(process E lib args = (Exit 0, calls) \<and>
            (\<forall>i < length calls. E (take i calls) (calls ! i) = None)) \<or>
         (\<exists>k < length calls.
            process E lib args = (Exit (if k < 4 then 2 else 1), take (Suc k) calls) \<and>
            (\<forall>i < k. E (take i calls) (calls ! i) = None) \<and>
            E (take k calls) (calls ! k) \<noteq> None)"
  using process_run [OF assms(1), of E] unfolding starts_def init_calls_def assms(2) .

theorem main_calls_witness:
  "\<exists>k. process (\<lambda>tr c. if c = SetupController then Some \<lparr>IsNotFound = False, Error = ''x''\<rparr> else None)
         (\<lambda>_. None) [''--leader-elect''] =
       (Exit (if k < 4 then 2 else 1),
        take (Suc k) (map AddToScheme [clientgoscheme, openshiftv1alpha1, machineconfigv1, configv1] @
                      startup_calls (default_flags\<lparr>enableLeaderElection := True\<rparr>)))"
proof -
  let ?E = "\<lambda>tr c. if c = SetupController then Some \<lparr>IsNotFound = False, Error = ''x''\<rparr> else None"
  let ?f = "default_flags\<lparr>enableLeaderElection := True\<rparr>"
  let ?calls = "map AddToScheme [clientgoscheme, openshiftv1alpha1, machineconfigv1, configv1] @ startup_calls ?f"
  have parse: "parse_flags (\<lambda>_. None) [''--leader-elect''] default_flags = Inr ?f" by code_simp
  have six: "6 < length ?calls" "?calls ! 6 = SetupController" by code_simp+
  from main_calls [OF parse refl, of ?E] show ?thesis
  proof (elim disjE exE conjE)
    assume "\<forall>i < length ?calls. ?E (take i ?calls) (?calls ! i) = None"
    with six(1) have "?E (take 6 ?calls) (?calls ! 6) = None" by blast
    with six(2) show ?thesis by simp
  qed blast
qed

text \<open>C38: The options main passes to the manager restrict both servers to HTTP/1.1 unless
enable-http2 is set, give each server the certificate watcher of its own flags, and ask for
authentication on the metrics endpoint exactly when it is served securely.\<close>

theorem main_tls:
  assumes "parse_flags lib args default_flags = Inr f"
    and "NewManager opts \<in> set (snd (main E lib args))"
  shows "apply_tls_options (mo_TLSOpts (Metrics opts)) c =
           c\<lparr>NextProtos := (if enableHTTP2 f then NextProtos c else [''http/1.1'']),
             GetCertificate := (if metricsCertPath f = [] then GetCertificate c else metrics_watcher f)\<rparr> \<and>
         apply_tls_options (WebhookServer opts) c =
           c\<lparr>NextProtos := (if enableHTTP2 f then NextProtos c else [''http/1.1'']),
             GetCertificate := (if webhookCertPath f = [] then GetCertificate c else webhook_watcher f)\<rparr> \<and>
         mo_WithAuthenticationAndAuthorization (Metrics opts) = mo_SecureServing (Metrics opts)"
proof -
  from main_run [OF assms(1), of E] assms(2) have "NewManager opts \<in> set (startup_calls f)"
    by (auto simp: starts_def dest: in_set_takeD)
  then have "opts = manager_options f (webhook_watcher f) (metrics_watcher f)"
    by (auto simp: startup_calls_def option_list_def split: option.splits)
  then show ?thesis
    by (simp add: manager_options_def metricsServerOptions_def with_certificate_def webhook_watcher_def
        metrics_watcher_def watcher_of_def base_tls_options_def apply_tls_options_def)
qed

theorem main_tls_witness:
  "\<exists>opts c. NewManager opts \<in> set (snd (main (\<lambda>_ _. None) (\<lambda>_. None) [''-metrics-cert-path'', ''/certs/''])) \<and>
     apply_tls_options (mo_TLSOpts (Metrics opts)) c =
       \<lparr>NextProtos = [''http/1.1''],
        GetCertificate = Some \<lparr>cw_Cert = ''/certs/tls.crt'', cw_Key = ''/certs/tls.key''\<rparr>\<rparr>"
proof -
  let ?f = "default_flags\<lparr>metricsCertPath := ''/certs/''\<rparr>"
  let ?opts = "manager_options ?f (webhook_watcher ?f) (metrics_watcher ?f)"
  let ?c = "\<lparr>NextProtos = [], GetCertificate = None\<rparr>"
  have parse: "parse_flags (\<lambda>_. None) [''-metrics-cert-path'', ''/certs/''] default_flags = Inr ?f" by code_simp
  have opts: "NewManager ?opts \<in>
      set (snd (main (\<lambda>_ _. None) (\<lambda>_. None) [''-metrics-cert-path'', ''/certs/'']))" by code_simp
  have "metrics_watcher ?f = Some \<lparr>cw_Cert = ''/certs/tls.crt'', cw_Key = ''/certs/tls.key''\<rparr>"
    "\<not> enableHTTP2 ?f" "metricsCertPath ?f \<noteq> []" by code_simp+
  with main_tls [OF parse opts, of ?c] opts show ?thesis by (intro exI [of _ ?opts] exI [of _ ?c]) simp
qed

section \<open>Flags and their arguments\<close>

text \<open>An argument for every flag, so that parsing them gives the variables back.\<close>

definition show_bool :: "bool \<Rightarrow> string" where
  "show_bool b = (if b then ''true'' else ''false'')"

definition flag_argument :: "string \<Rightarrow> string \<Rightarrow> string" where
  "flag_argument name v = ''--'' @ name @ ''='' @ v"

definition flag_arguments :: "flags \<Rightarrow> string list" where
  "flag_arguments f =
     [flag_argument ''metrics-bind-address'' (metricsAddr f),
      flag_argument ''health-probe-bind-address'' (probeAddr f),
      flag_argument ''leader-elect'' (show_bool (enableLeaderElection f)),
      flag_argument ''metrics-secure'' (show_bool (secureMetrics f)),
      flag_argument ''webhook-cert-path'' (webhookCertPath f),
      flag_argument ''webhook-cert-name'' (webhookCertName f),
      flag_argument ''webhook-cert-key'' (webhookCertKey f),
      flag_argument ''metrics-cert-path'' (metricsCertPath f),
      flag_argument ''metrics-cert-name'' (metricsCertName f),
      flag_argument ''metrics-cert-key'' (metricsCertKey f),
      flag_argument ''enable-http2'' (show_bool (enableHTTP2 f))]"

lemma split_equals_append:
  "CHR ''='' \<notin> set name \<Longrightarrow> split_equals (name @ CHR ''='' # v) = (name, Some v)"
  by (induction name) auto

lemma read_flag_argument:
  assumes "name \<noteq> []" and "hd name \<noteq> CHR ''-''" and "CHR ''='' \<notin> set name"
  shows "read_argument (flag_argument name v) = Flag name (Some v)"
proof -
  from assms(1) obtain c cs where "name = c # cs" by (cases name) auto
  with assms split_equals_append [of cs v] show ?thesis
    by (auto simp: read_argument_def flag_argument_def flag_name_def)
qed

lemma parse_string_flag:
  assumes "map_of flag_set name = Some (StringVar upd)"
    and "name \<noteq> []" and "hd name \<noteq> CHR ''-''" and "CHR ''='' \<notin> set name"
  shows "parse_flags lib (flag_argument name v # args) f = parse_flags lib args (upd v f)"
  using assms by (simp add: read_flag_argument is_bool_flag_def set_flag_def)

lemma parse_bool_flag:
  assumes "map_of flag_set name = Some (BoolVar upd)"
    and "name \<noteq> []" and "hd name \<noteq> CHR ''-''" and "CHR ''='' \<notin> set name"
  shows "parse_flags lib (flag_argument name (show_bool b) # args) f = parse_flags lib args (upd b f)"
  using assms by (simp add: read_flag_argument is_bool_flag_def set_flag_def show_bool_def ParseBool_def)

text \<open>C39: Parsing the arguments --name=value of all eleven flags gives back the values,
whatever the variables held before: no two flags of main write the same variable and every
registered name is parsed.\<close>

theorem parse_flags_roundtrip: "parse_flags lib (flag_arguments f) g = Inr f"
  unfolding flag_arguments_def
  by (subst parse_string_flag parse_bool_flag, simp add: flag_set_def, simp, simp, simp)+ simp

end
