(* ===== verification/Spec2Isabelle.thy ===== *)
theory Spec2Isabelle
  imports Scenario Rollout Manager DeepCopy Entrypoint
begin

text \<open>
  A verification library for the OpenShift Upgrade Accelerator operator, a Kubernetes controller
  written in Go that pulls the container images of the next OpenShift release onto the nodes of
  a cluster before the upgrade starts.

  \<^bold>\<open>The program.\<close> controller-runtime calls \<open>Reconcile\<close>
  (\<open>internal/controller/upgradeaccelerator_controller.go\<close>) with the name of an
  \<open>UpgradeAccelerator\<close> custom resource. One run reads the resource, the infrastructure, the
  current and desired release and the nodes; it creates a namespace and two config maps (the
  image lists of the release and a script), starts one Kubernetes job per node that pulls the
  images, and moves node names between the lists \<open>NodesWaiting\<close>, \<open>NodesWarming\<close> and
  \<open>NodesPreheated\<close> of the resource's status. All state is in the API server: the run works on
  one object it holds by pointer, and every status update and job goes through a client.
  \<open>SetupWithManager\<close> tells which cluster events start a run.

  \<^bold>\<open>The model.\<close> A run is a function in the state monad over \<open>go_state\<close> (theory Client): the trace
  of the calls made so far and the object held by pointer. What the API server, the shell, the
  clock and the libraries outside \<open>src/\<close> answer is the argument \<open>env\<close>: arbitrary functions of
  the trace and the request, so concurrent writers, stale reads, conflicts and failures at any
  point are all admitted, and a theorem about every \<open>env\<close> holds for all of them. A section of
  \<open>Reconcile\<close> that may return early is a \<open>phase\<close>: it ends in \<open>Next\<close> or in \<open>Stop\<close> with an outcome,
  which is a result and an error, or a Go panic (index and slice bounds out of range, nil
  pointers). controller-runtime recovers such a panic and retries with back-off; nothing the run
  did not send before is kept.

  \<^bold>\<open>Theories\<close>, in the order in which they build on each other.

  \<^item> \<open>Prelude\<close>: early exits (\<open>ctl\<close>, \<open>and_then\<close>, \<open>for_range\<close>), Hoare triples of the state monad
    (\<open>triple\<close>, \<open>keeps\<close>, \<open>stops_with\<close> with their rule collections), package \<open>slices\<close>.
  \<^item> \<open>GoStrings\<close>: package \<open>strings\<close> on ASCII, and \<open>sortSliceOfStrings\<close> of
    \<open>upgradeaccelerator_func.go\<close> on the insertion sort package \<open>sort\<close> uses up to twelve elements;
    a locale for sorting functions carries the result to the algorithm used above that.
  \<^item> \<open>ApiTypes\<close>: \<open>api/v1alpha1/upgradeaccelerator_types.go\<close>, \<open>upgradeaccelerator_types.go\<close> and
    the fields of the Kubernetes and OpenShift types the code reads or writes.
  \<^item> \<open>Sha256\<close>: \<open>crypto/sha256\<close> and \<open>hashString\<close>.
  \<^item> \<open>Client\<close>: the boundary described above.
  \<^item> \<open>Json\<close>: \<open>encoding/json\<close> on the list of release images: UTF-8, escapes, a scanner, a parser
    with the nesting limit and the decoding of case-insensitive keys; decoding inverts encoding.
  \<^item> \<open>Conditions\<close>: \<open>upgradeaccelerator_conditions.go\<close>. The condition list implements a finite map
    from types to reasons (locale \<open>condition_store\<close>). \<open>status_invariant\<close> is the first of a chain of
    locales (\<open>query_invariant\<close>, \<open>run_invariant\<close>, \<open>setup_invariant\<close>, \<open>job_invariant\<close>): what an
    invariant of the state of a run has to promise so that the operations of each component keep
    it. The chain is interpreted for unique condition types, writes in one namespace, node lists
    with evidence and growing traces; \<open>query_invariant\<close> also for runs that keep the node lists.
  \<^item> \<open>Release\<close>: \<open>oc_get_release_images.go\<close>, the commands, the line scanner with its limit of one
    mebibyte, the exit status, and the platform filter against a table of prefixes.
  \<^item> \<open>ClusterState\<close>: the readers of \<open>upgradeaccelerator_func.go\<close> and \<open>setupClusterVersion\<close>.
  \<^item> \<open>NodeDetermination\<close>: \<open>upgradeaccelerator_nodeDetermination.go\<close>. Go's map iteration order is
    an argument; the result is shown not to depend on it.
  \<^item> \<open>Setup\<close>: the namespace, \<open>upgradeaccelerator_configmap.go\<close> and \<open>setupResources\<close>. The locale
    \<open>ensure_contract\<close> is what get-or-create operations promise, interpreted for all three.
  \<^item> \<open>Jobs\<close>: \<open>upgradeaccelerator_job.go\<close>, interpreted in the same contract; what the container of
    a job finds in the config maps of the setup.
  \<^item> \<open>Phases\<close>, \<open>Scheduling\<close>, \<open>Completion\<close>, \<open>Reconcile\<close>: the sections of \<open>Reconcile\<close>, their
    chain, the invariants of every run and whole runs on concrete clusters.
  \<^item> \<open>Batch\<close>: the batch with parallelism 0 for lists of any length, whose array the removals shift:
    the nodes one run starts, and that repeated runs empty the list.
  \<^item> \<open>Justification\<close>: a run marks a node warming or preheated only on evidence in its own calls.
  \<^item> \<open>Rollout\<close>: the sections after the setup run again and again, for any number of nodes, until
    the release is complete.
  \<^item> \<open>Lifecycle\<close>: the operator over time, a step relation on what the cluster stores whose steps
    are whole runs, edits by users, the progress, expiry and deletion of jobs and lost answers;
    invariants of reachable worlds, with a record of all jobs the cluster ever stored.
  \<^item> \<open>Scenario\<close>: two whole runs on one concrete cluster, from a new resource to a completed
    release, as steps of the world.
  \<^item> \<open>Manager\<close>: \<open>upgradeaccelerator_manager.go\<close> and \<open>ignoreDeletionPredicate\<close>.
  \<^item> \<open>Memory\<close>, \<open>DeepCopy\<close>: \<open>zz_generated.deepcopy.go\<close> on a heap of cells with pointers, slices and
    maps. The locale \<open>deep_copy\<close> is the contract of a copy (nothing old written, same value, only
    fresh cells reached); one combinator per shape of field gives it for every type. The copies
    of Kubernetes types are the fields of \<open>copy_library\<close>, assumed in the locale \<open>copying\<close>.
  \<^item> \<open>Entrypoint\<close>: \<open>cmd/main.go\<close>, \<open>init\<close> and \<open>main\<close>: the schemes, the flags with the parser of package \<open>flag\<close>, the TLS options of
    both servers, the options of the manager and the start-up calls with the exit code.

  \<^bold>\<open>What is shown.\<close> Invariants of all runs: distinct condition types, writes confined to one
  namespace, every run requeued, no node marked without evidence; of all reachable worlds: every
  marked node has or had a job. Functional behaviour of each section, its error paths included:
  the waiting list covers the targets, starting jobs and scanning them conserve nodes, when the
  scan completes the release, primers precede the rest. Termination: the waiting list drains
  although each run skips nodes, and the release is completed once the jobs have succeeded.
  Refinement: deep copies of the identity on values. Round trips:
  the image lists through the config map, the flags through their arguments. Equivalence with reference definitions:
  sorting, labels, the platform filter, the event filters. Several theorems state behaviour that
  contradicts a comment or a document of the repository; these are listed with the manifest.

  \<^bold>\<open>Bounds.\<close> Loops are structural recursions over the slices they range over, the batch loop over
  \<open>nat (sint Parallelism)\<close>, the flag parser over the arguments left, so no fuel is used. \<open>Parallelism\<close> is a 32-bit word read as signed.

  \<^bold>\<open>Not modelled.\<close> Log calls, contexts and the event recorder; the set-up of the logger and what
  registration puts into the scheme, effects inside the libraries; what the builder and the work
  queue of controller-runtime do with the arguments of \<open>SetupWithManager\<close>. Characters above 127 in
  names: Go's \<open>unicode.ToUpper\<close> agrees with the model on ASCII, which Kubernetes names, labels and
  versions are; strings are lists of bytes and \<open>Json\<close> treats UTF-8. The distinction of nil and
  empty slices is kept for the JSON lists of images, where the code can tell them apart, and
  dropped for fields with \<open>omitempty\<close>; the heap of \<open>Memory\<close> has nil slices and the copies treat
  them as the code does, but the values that \<open>DeepCopy\<close> compares identify nil and empty. A status update is assumed to return the status
  that was sent, with a new resource version.
\<close>

end
